(* ===== verification/Prelude.thy ===== *)
theory Prelude
  imports Main "HOL-Library.Word" "HOL-Library.Char_ord" "HOL-Library.List_Lexorder"
begin

text \<open>
  What every component of the model shares: names for the machine integers of the C++
  code, the errors it can end with, the result combinators, C strings and bytes, the
  little-endian layout of integers in memory, and the ordered association lists that
  stand for \<^verbatim>\<open>std::map\<close> and \<^verbatim>\<open>std::set\<close>.
\<close>

unbundle bit_operations_syntax

named_theorems bind_simps \<open>unfolding of the result and state combinators\<close>
named_theorems layout_simps \<open>lengths of byte layouts\<close>

section \<open>Machine integers and errors\<close>

type_synonym u8 = "8 word"
type_synonym u16 = "16 word"
type_synonym u32 = "32 word"
type_synonym u64 = "64 word"
type_synonym u128 = "128 word"

text \<open>
  The ways a run of the assembler can stop. \<open>RuntimeError\<close> carries the \<^verbatim>\<open>what()\<close>
  text of a \<^verbatim>\<open>std::runtime_error\<close>; \<open>InvalidArgument\<close>, \<open>OutOfRange\<close> and
  \<open>LengthError\<close> are the standard library's exceptions; \<open>Undefined\<close> marks an
  operation whose behaviour C++ leaves undefined (the model stops there instead of
  inventing a result); \<open>StackOverflow\<close> is the bound on the nesting of included files.
\<close>

datatype error =
    RuntimeError string
  | InvalidArgument
  | OutOfRange
  | LengthError
  | AssertionFailure
  | Undefined string
  | StackOverflow

type_synonym 'a result = "error + 'a"

definition bindR :: "'a result \<Rightarrow> ('a \<Rightarrow> 'b result) \<Rightarrow> 'b result" where
  [bind_simps]: "bindR m f = (case m of Inl e \<Rightarrow> Inl e | Inr a \<Rightarrow> f a)"

lemma bindR_Inr_iff: "bindR m f = Inr b \<longleftrightarrow> (\<exists>a. m = Inr a \<and> f a = Inr b)"
  by (cases m) (simp_all add: bindR_def)

lemma bindR_simps [simp]:
  "bindR (Inl e) f = Inl e"
  "bindR (Inr a) f = f a"
  by (simp_all add: bindR_def)

lemma bindR_assoc: "bindR (bindR m f) g = bindR m (\<lambda>a. bindR (f a) g)"
  by (cases m) simp_all

text \<open>The first error of a list of fallible computations, or all their results.\<close>

fun mapR :: "('a \<Rightarrow> 'b result) \<Rightarrow> 'a list \<Rightarrow> 'b list result" where
  "mapR f [] = Inr []"
| "mapR f (x # xs) = bindR (f x) (\<lambda>y. bindR (mapR f xs) (\<lambda>ys. Inr (y # ys)))"

lemma mapR_append:
  "mapR f (xs @ ys) = bindR (mapR f xs) (\<lambda>as. bindR (mapR f ys) (\<lambda>bs. Inr (as @ bs)))"
proof (induction xs)
  case Nil
  then show ?case by (cases "mapR f ys") simp_all
next
  case (Cons x xs)
  then show ?case
    by (cases "f x"; cases "mapR f xs"; cases "mapR f ys") simp_all
qed

text \<open>The value of a word fits its width.\<close>

lemma unat_less_exp: "unat (w::'a::len word) < 2 ^ LENGTH('a)"
  by (rule unsigned_less)

lemma take_bit_length_unat [simp]: "LENGTH('a) \<le> n \<Longrightarrow> take_bit n (unat (w::'a::len word)) = unat w"
  by (rule take_bit_nat_eq_self) (metis unat_less_exp less_le_trans one_le_numeral power_increasing)

lemma unat_of_nat_small [simp]:
  "unat (of_nat n :: 'a::len word) = n" if "n < 2 ^ LENGTH('a)" for n
  using that by (simp add: unsigned_of_nat take_bit_nat_eq_self)

section \<open>Blocks of a concatenation\<close>

lemma drop_block:
  assumes "\<And>x. length (enc x) = n" and "i < length xs"
  shows "drop (i * n) (concat (map enc xs) @ rest) = enc (xs ! i) @ concat (map enc (drop (Suc i) xs)) @ rest"
  using assms(2)
proof (induction xs arbitrary: i)
  case (Cons x xs)
  then show ?case
  proof (cases i)
    case (Suc j)
    then have "drop (i * n) (concat (map enc (x # xs)) @ rest) = drop (j * n) (concat (map enc xs) @ rest)"
      by (simp add: assms(1))
    then show ?thesis using Cons Suc by simp
  qed simp
qed simp

lemma concat_split:
  assumes "k < length xs"
  shows "concat (map g xs) = concat (map g (take k xs)) @ g (xs ! k) @ concat (map g (drop (Suc k) xs))"
proof -
  have "map g xs = map g (take k xs @ xs ! k # drop (Suc k) xs)"
    by (simp only: id_take_nth_drop [OF assms, symmetric])
  then show ?thesis by simp
qed

section \<open>Characters, C strings and bytes\<close>

text \<open>A \<^verbatim>\<open>char\<close> is a byte; on the target it is signed when it is widened.\<close>

definition char_byte :: "char \<Rightarrow> u8" where
  "char_byte c = of_char c"

definition char_int :: "char \<Rightarrow> int" where
  "char_int c = sint (char_byte c)"

text \<open>
  A \<^verbatim>\<open>const char*\<close> made from a \<^verbatim>\<open>std::string\<close> ends at its first NUL.
\<close>

definition c_str :: "string \<Rightarrow> string" where
  "c_str s = takeWhile (\<lambda>c. c \<noteq> CHR 0x00) s"

lemma c_str_no_nul: "CHR 0x00 \<notin> set s \<Longrightarrow> c_str s = s"
  unfolding c_str_def by (rule takeWhile_eq_all_conv [THEN iffD2]) auto

text \<open>The \<open>n\<close> low bytes of an integer, least significant first, and their value.\<close>

fun le_bytes :: "nat \<Rightarrow> u128 \<Rightarrow> u8 list" where
  "le_bytes 0 w = []"
| "le_bytes (Suc n) w = ucast w # le_bytes n (drop_bit 8 w)"

fun le_value :: "u8 list \<Rightarrow> u128" where
  "le_value [] = 0"
| "le_value (b # bs) = ucast b OR push_bit 8 (le_value bs)"

lemma length_le_bytes [simp, layout_simps]: "length (le_bytes n w) = n"
  by (induction n arbitrary: w) simp_all

lemma le_value_le_bytes: "le_value (le_bytes n w) = take_bit (8 * n) w"
proof (induction n arbitrary: w)
  case 0
  then show ?case by simp
next
  case (Suc n)
  have "le_value (le_bytes (Suc n) w) = ucast (ucast w :: u8) OR push_bit 8 (take_bit (8 * n) (drop_bit 8 w))"
    by (simp add: Suc.IH)
  also have "\<dots> = take_bit (8 * Suc n) w"
    by (rule bit_word_eqI) (auto simp: bit_simps)
  finally show ?case .
qed

lemma le_bytes_take_bit: "8 * n \<le> k \<Longrightarrow> le_bytes n (take_bit k w) = le_bytes n w"
proof (induction n arbitrary: k w)
  case 0
  then show ?case by simp
next
  case (Suc n)
  have "(ucast (take_bit k w) :: u8) = ucast w"
    using Suc.prems by (intro bit_word_eqI) (auto simp: bit_simps)
  moreover have "le_bytes n (drop_bit 8 (take_bit k w)) = le_bytes n (drop_bit 8 w)"
    using Suc.prems by (simp only: drop_bit_take_bit) (rule Suc.IH, simp)
  ultimately show ?case by simp
qed

lemma le_bytes_le_value: "length bs \<le> 16 \<Longrightarrow> le_bytes (length bs) (le_value bs) = bs"
proof (induction bs)
  case Nil
  then show ?case by simp
next
  case (Cons b bs)
  let ?w = "ucast b OR push_bit 8 (le_value bs) :: u128"
  have "(ucast ?w :: u8) = b" by (rule bit_word_eqI) (auto simp: bit_simps)
  moreover have "drop_bit 8 ?w = take_bit 120 (le_value bs)"
    by (rule bit_word_eqI) (auto simp: bit_simps dest: bit_imp_le_length)
  moreover have "le_bytes (length bs) (take_bit 120 (le_value bs)) = bs"
    using Cons by (simp add: le_bytes_take_bit)
  ultimately show ?case by simp
qed

lemma take_bit_le_value: "take_bit (8 * length bs) (le_value bs) = le_value bs"
proof (induction bs)
  case Nil
  then show ?case by simp
next
  case (Cons b bs)
  have "take_bit (8 * length (b # bs)) (le_value (b # bs))
      = ucast b OR push_bit 8 (take_bit (8 * length bs) (le_value bs))"
    by (rule bit_word_eqI) (auto simp: bit_simps dest: bit_imp_le_length)
  then show ?case by (simp add: Cons.IH)
qed

text \<open>\<^verbatim>\<open>std::to_string\<close> of a signed integer.\<close>

fun nat_digits :: "nat \<Rightarrow> string" where
  "nat_digits n =
     (if n < 10 then [char_of (48 + n)] else nat_digits (n div 10) @ [char_of (48 + n mod 10)])"

declare nat_digits.simps [simp del]

definition int_to_string :: "int \<Rightarrow> string" where
  "int_to_string i =
     (if i < 0 then CHR ''-'' # nat_digits (nat (- i)) else nat_digits (nat i))"

section \<open>Ordered maps\<close>

text \<open>
  \<^verbatim>\<open>std::map\<close> keeps its entries in the order of their keys, and the assembler iterates
  over them in that order. What its users rely on is this interface: a stored value is
  found again, other keys are untouched, and the keys stay in strictly increasing order.
\<close>

locale ordered_map =
  fixes put :: "'k::linorder \<Rightarrow> 'v \<Rightarrow> 'm \<Rightarrow> 'm"
    and find :: "'m \<Rightarrow> 'k \<Rightarrow> 'v option"
    and keys :: "'m \<Rightarrow> 'k list"
  assumes find_put: "find (put k v m) = (find m)(k \<mapsto> v)"
    and find_keys: "find m k \<noteq> None \<longleftrightarrow> k \<in> set (keys m)"
    and sorted_put: "sorted_wrt (<) (keys m) \<Longrightarrow> sorted_wrt (<) (keys (put k v m))"
begin

lemma set_keys_put: "set (keys (put k v m)) = insert k (set (keys m))"
proof -
  have "x \<in> set (keys (put k v m)) \<longleftrightarrow> x = k \<or> x \<in> set (keys m)" for x
    by (metis find_keys find_put fun_upd_apply option.distinct(1))
  then show ?thesis by auto
qed

lemma sorted_keys_unique:
  assumes "sorted_wrt (<) (keys m)" and "sorted_wrt (<) (keys m')"
    and "set (keys m) = set (keys m')"
  shows "keys m = keys m'"
  using assms by (simp add: strict_sorted_equal)

text \<open>Storing under a key that is present keeps the sequence of keys.\<close>

lemma keys_put_present:
  assumes "sorted_wrt (<) (keys m)" and "find m k \<noteq> None"
  shows "keys (put k v m) = keys m"
proof (rule sorted_keys_unique)
  show "sorted_wrt (<) (keys (put k v m))" using assms(1) by (rule sorted_put)
  show "set (keys (put k v m)) = set (keys m)"
    using assms(2) find_keys [of m k] by (auto simp: set_keys_put)
qed (rule assms(1))

lemma length_keys_put_fresh:
  assumes "sorted_wrt (<) (keys m)" and "find m k = None"
  shows "length (keys (put k v m)) = Suc (length (keys m))"
proof -
  have "distinct (keys m)" "distinct (keys (put k v m))"
    using assms(1) sorted_put [OF assms(1)] by (simp_all add: strict_sorted_iff)
  moreover have "k \<notin> set (keys m)" using assms(2) find_keys by blast
  ultimately show ?thesis
    by (metis card_insert_disjoint distinct_card finite_set set_keys_put)
qed

lemma find_put_same: "find (put k v m) k = Some v"
  by (simp add: find_put)

lemma find_put_other: "k' \<noteq> k \<Longrightarrow> find (put k v m) k' = find m k'"
  by (simp add: find_put)

end

text \<open>The model: association lists in the order of their keys.\<close>

primrec om_put :: "'k::linorder \<Rightarrow> 'v \<Rightarrow> ('k \<times> 'v) list \<Rightarrow> ('k \<times> 'v) list" where
  "om_put k v [] = [(k, v)]"
| "om_put k v (p # ps) =
     (if k < fst p then (k, v) # p # ps
      else if k = fst p then (k, v) # ps
      else p # om_put k v ps)"

abbreviation om_find :: "('k \<times> 'v) list \<Rightarrow> 'k \<Rightarrow> 'v option" where
  "om_find \<equiv> map_of"

abbreviation om_keys :: "('k \<times> 'v) list \<Rightarrow> 'k list" where
  "om_keys \<equiv> map fst"

lemma om_find_put: "om_find (om_put k v m) = (om_find m)(k \<mapsto> v)"
  by (induction m) (auto simp: fun_eq_iff)

lemma om_set_keys: "set (om_keys (om_put k v m)) = insert k (set (om_keys m))"
  by (induction m) auto

lemma om_sorted_put:
  "sorted_wrt (<) (om_keys m) \<Longrightarrow> sorted_wrt (<) (om_keys (om_put k v m))"
proof (induction m)
  case Nil
  then show ?case by simp
next
  case (Cons p ps)
  then have IH: "sorted_wrt (<) (om_keys (om_put k v ps))" by simp
  show ?case
    using Cons.prems IH om_set_keys [of k v ps] by auto
qed

interpretation om: ordered_map om_put om_find om_keys
  by unfold_locales (auto simp: om_find_put om_sorted_put map_of_eq_None_iff)

text \<open>An attribute of the values along the map, when a value is replaced or added.\<close>

lemma om_put_present_attr:
  assumes "sorted_wrt (<) (om_keys m)" and "om_find m k = Some v0" and "g v = g v0"
  shows "map (g \<circ> snd) (om_put k v m) = map (g \<circ> snd) m"
  using assms
proof (induction m)
  case Nil
  then show ?case by simp
next
  case (Cons p ps)
  show ?case
  proof (cases "k = fst p")
    case True
    with Cons.prems show ?thesis by simp
  next
    case False
    with Cons.prems(2) have k: "om_find ps k = Some v0" by (cases p) simp
    then have "k \<in> set (om_keys ps)" by (force dest: map_of_SomeD)
    with Cons.prems(1) have "fst p < k" by auto
    with False k Cons show ?thesis by simp
  qed
qed

lemma om_put_fresh_attr:
  "om_find m k = None \<Longrightarrow> set (map (g \<circ> snd) (om_put k v m)) = insert (g v) (set (map (g \<circ> snd) m))"
  by (induction m) (auto split: if_splits)

lemma om_put_fresh_length: "om_find m k = None \<Longrightarrow> length (om_put k v m) = Suc (length m)"
  by (induction m) (auto split: if_splits)

lemma om_put_set:
  "x \<in> set (om_put k v m) \<Longrightarrow> x = (k, v) \<or> (x \<in> set m)"
  by (induction m) (auto split: if_splits)

lemma om_find_in:
  fixes m :: "('k::linorder \<times> 'v) list"
  shows "sorted_wrt (<) (om_keys m) \<Longrightarrow> (k, v) \<in> set m \<Longrightarrow> om_find m k = Some v"
  using strict_sorted_iff [of "om_keys m"] by (blast intro: map_of_is_SomeI)

text \<open>\<^verbatim>\<open>std::set\<close>: the keys alone.\<close>

definition os_insert :: "'k::linorder \<Rightarrow> 'k list \<Rightarrow> 'k list" where
  "os_insert k ks = om_keys (om_put k () (map (\<lambda>x. (x, ())) ks))"

lemma set_os_insert [simp]: "set (os_insert k ks) = insert k (set ks)"
  using om_set_keys [of k "()" "map (\<lambda>x. (x, ())) ks"] by (simp add: os_insert_def comp_def)

lemma sorted_os_insert: "sorted_wrt (<) ks \<Longrightarrow> sorted_wrt (<) (os_insert k ks)"
  using om_sorted_put [of "map (\<lambda>x. (x, ())) ks" k "()"] by (simp add: os_insert_def comp_def)

end
