(* ===== verification/Instruction.thy ===== *)
theory Instruction
  imports Prelude
begin

text \<open>
  \<^verbatim>\<open>rv32i_instr.hpp\<close> and \<^verbatim>\<open>instruction_list.hpp\<close>: the 32-bit instruction word, its
  formats as bit-fields, the decoding accessors of each format, and the major opcodes.
  The fields are lenses on a word: reading after writing the same field gives the low
  bits of what was written, and writing one field leaves the others alone.
\<close>

section \<open>Bit-fields\<close>

type_synonym Instruction = u32

text \<open>
  A bit-field of width \<open>n\<close> at bit \<open>lo\<close>: an assignment keeps the low \<open>n\<close> bits of the
  value, as C++ does when it converts to a bit-field, and the bits of the other fields.
\<close>

definition get_field :: "nat \<Rightarrow> nat \<Rightarrow> u32 \<Rightarrow> u32" where
  "get_field lo n w = take_bit n (drop_bit lo w)"

definition set_field :: "nat \<Rightarrow> nat \<Rightarrow> int \<Rightarrow> u32 \<Rightarrow> u32" where
  "set_field lo n v w =
     (w AND NOT (push_bit lo (mask n))) OR push_bit lo (take_bit n (word_of_int v))"

text \<open>What a bit-field promises, and what follows from it.\<close>

locale bit_field =
  fixes get :: "'w \<Rightarrow> 'f"
    and put :: "int \<Rightarrow> 'w \<Rightarrow> 'w"
    and trunc :: "int \<Rightarrow> 'f"
  assumes get_put: "get (put v w) = trunc v"
    and put_put: "put v (put v' w) = put v w"
    and put_cong: "trunc v = trunc v' \<Longrightarrow> put v w = put v' w"
begin

lemma put_trunc_eq_iff: "put v w = put v' w \<longleftrightarrow> trunc v = trunc v'"
  by (metis get_put put_cong)

lemma put_again: "trunc v = trunc v' \<Longrightarrow> put v' (put v w) = put v w"
  by (metis put_cong put_put)

end

text \<open>Two fields that do not overlap.\<close>

locale disjoint_fields =
  f: bit_field get put trunc + g: bit_field get' put' trunc'
  for get :: "'w \<Rightarrow> 'f" and put trunc and get' :: "'w \<Rightarrow> 'g" and put' trunc' +
  assumes put_commute: "put v (put' v' w) = put' v' (put v w)"
    and get_other: "get (put' v' w) = get w"
    and get_other': "get' (put v w) = get' w"
begin

lemma put_both: "get (put v (put' v' w)) = trunc v \<and> get' (put v (put' v' w)) = trunc' v'"
  by (simp add: f.get_put g.get_put get_other')

end

lemma get_set_field [simp]:
  "lo + n \<le> 32 \<Longrightarrow> get_field lo n (set_field lo n v w) = take_bit n (word_of_int v)"
  unfolding get_field_def set_field_def
  by (rule bit_word_eqI) (auto simp: bit_simps)

lemma get_set_field_other [simp]:
  "lo + n \<le> lo' \<or> lo' + n' \<le> lo \<Longrightarrow> get_field lo n (set_field lo' n' v w) = get_field lo n w"
  unfolding get_field_def set_field_def
  by (rule bit_word_eqI) (auto simp: bit_simps dest: bit_imp_le_length)

lemma set_set_field: "set_field lo n v (set_field lo n v' w) = set_field lo n v w"
  unfolding set_field_def
  by (rule bit_word_eqI) (auto simp: bit_simps)

lemma set_field_cong:
  "take_bit n (word_of_int v :: u32) = take_bit n (word_of_int v') \<Longrightarrow>
   set_field lo n v w = set_field lo n v' w"
  by (simp add: set_field_def)

lemma set_field_commute:
  "lo + n \<le> lo' \<or> lo' + n' \<le> lo \<Longrightarrow>
   set_field lo n v (set_field lo' n' v' w) = set_field lo' n' v' (set_field lo n v w)"
  unfolding set_field_def
  by (rule bit_word_eqI) (auto simp: bit_simps)

section \<open>The formats\<close>

text \<open>Register format; the opcode, \<^verbatim>\<open>rd\<close>, \<^verbatim>\<open>funct3\<close>, \<^verbatim>\<open>rs1\<close> and \<^verbatim>\<open>rs2\<close> of the others agree with it.\<close>

definition Rtype_opcode :: "u32 \<Rightarrow> u32" where "Rtype_opcode = get_field 0 7"
definition Rtype_rd :: "u32 \<Rightarrow> u32" where "Rtype_rd = get_field 7 5"
definition Rtype_funct3 :: "u32 \<Rightarrow> u32" where "Rtype_funct3 = get_field 12 3"
definition Rtype_rs1 :: "u32 \<Rightarrow> u32" where "Rtype_rs1 = get_field 15 5"
definition Rtype_rs2 :: "u32 \<Rightarrow> u32" where "Rtype_rs2 = get_field 20 5"
definition Rtype_funct7 :: "u32 \<Rightarrow> u32" where "Rtype_funct7 = get_field 25 7"

definition set_opcode :: "int \<Rightarrow> u32 \<Rightarrow> u32" where "set_opcode = set_field 0 7"
definition set_rd :: "int \<Rightarrow> u32 \<Rightarrow> u32" where "set_rd = set_field 7 5"
definition set_funct3 :: "int \<Rightarrow> u32 \<Rightarrow> u32" where "set_funct3 = set_field 12 3"
definition set_rs1 :: "int \<Rightarrow> u32 \<Rightarrow> u32" where "set_rs1 = set_field 15 5"
definition set_rs2 :: "int \<Rightarrow> u32 \<Rightarrow> u32" where "set_rs2 = set_field 20 5"
definition set_funct7 :: "int \<Rightarrow> u32 \<Rightarrow> u32" where "set_funct7 = set_field 25 7"

definition is_f7 :: "u32 \<Rightarrow> bool" where
  "is_f7 w \<longleftrightarrow> Rtype_funct7 w = 0x20"
definition is_32M :: "u32 \<Rightarrow> bool" where
  "is_32M w \<longleftrightarrow> Rtype_funct7 w = 0x01"
definition jumptable_friendly_op :: "u32 \<Rightarrow> u32" where
  "jumptable_friendly_op w = Rtype_funct3 w OR push_bit 4 (Rtype_funct7 w AND 1)"

text \<open>Immediate format.\<close>

definition Itype_imm :: "u32 \<Rightarrow> u32" where "Itype_imm = get_field 20 12"
definition set_Itype_imm :: "int \<Rightarrow> u32 \<Rightarrow> u32" where "set_Itype_imm = set_field 20 12"

definition Itype_sign :: "u32 \<Rightarrow> bool" where
  "Itype_sign w \<longleftrightarrow> Itype_imm w AND 0x800 \<noteq> 0"

definition Itype_signed_imm :: "u32 \<Rightarrow> u32" where
  "Itype_signed_imm w = Itype_imm w OR (if Itype_sign w then 0xFFFFF000 else 0)"

definition Itype_shift_imm :: "u32 \<Rightarrow> u32" where
  "Itype_shift_imm w = Itype_imm w AND 0x1F"
definition Itype_shift64_imm :: "u32 \<Rightarrow> u32" where
  "Itype_shift64_imm w = Itype_imm w AND 0x3F"
definition Itype_is_srai :: "u32 \<Rightarrow> bool" where
  "Itype_is_srai w \<longleftrightarrow> Itype_imm w AND 0x400 \<noteq> 0"
definition Itype_shift128_imm :: "u32 \<Rightarrow> u32" where
  "Itype_shift128_imm w = Itype_imm w AND 0x7F"

text \<open>Store format.\<close>

definition Stype_imm1 :: "u32 \<Rightarrow> u32" where "Stype_imm1 = get_field 7 5"
definition Stype_imm2 :: "u32 \<Rightarrow> u32" where "Stype_imm2 = get_field 25 7"
definition set_Stype_imm1 :: "int \<Rightarrow> u32 \<Rightarrow> u32" where "set_Stype_imm1 = set_field 7 5"
definition set_Stype_imm2 :: "int \<Rightarrow> u32 \<Rightarrow> u32" where "set_Stype_imm2 = set_field 25 7"

definition Stype_sign :: "u32 \<Rightarrow> bool" where
  "Stype_sign w \<longleftrightarrow> Stype_imm2 w AND 0x40 \<noteq> 0"

definition Stype_signed_imm :: "u32 \<Rightarrow> u32" where
  "Stype_signed_imm w =
     Stype_imm1 w OR push_bit 5 (Stype_imm2 w) OR (if Stype_sign w then 0xFFFFF000 else 0)"

text \<open>Upper immediate format.\<close>

definition Utype_imm :: "u32 \<Rightarrow> u32" where "Utype_imm = get_field 12 20"
definition set_Utype_imm :: "int \<Rightarrow> u32 \<Rightarrow> u32" where "set_Utype_imm = set_field 12 20"

definition Utype_sign :: "u32 \<Rightarrow> bool" where
  "Utype_sign w \<longleftrightarrow> Utype_imm w AND 0x80000 \<noteq> 0"

definition Utype_signed_imm :: "u32 \<Rightarrow> u32" where
  "Utype_signed_imm w = Utype_imm w OR (if Utype_sign w then 0xFFF00000 else 0)"

definition Utype_upper_imm :: "u32 \<Rightarrow> u32" where
  "Utype_upper_imm w = push_bit 12 (Utype_imm w)"

text \<open>Branch format.\<close>

definition Btype_imm1 :: "u32 \<Rightarrow> u32" where "Btype_imm1 = get_field 7 1"
definition Btype_imm2 :: "u32 \<Rightarrow> u32" where "Btype_imm2 = get_field 8 4"
definition Btype_imm3 :: "u32 \<Rightarrow> u32" where "Btype_imm3 = get_field 25 6"
definition Btype_imm4 :: "u32 \<Rightarrow> u32" where "Btype_imm4 = get_field 31 1"
definition set_Btype_imm1 :: "int \<Rightarrow> u32 \<Rightarrow> u32" where "set_Btype_imm1 = set_field 7 1"
definition set_Btype_imm2 :: "int \<Rightarrow> u32 \<Rightarrow> u32" where "set_Btype_imm2 = set_field 8 4"
definition set_Btype_imm3 :: "int \<Rightarrow> u32 \<Rightarrow> u32" where "set_Btype_imm3 = set_field 25 6"
definition set_Btype_imm4 :: "int \<Rightarrow> u32 \<Rightarrow> u32" where "set_Btype_imm4 = set_field 31 1"

definition Btype_sign :: "u32 \<Rightarrow> bool" where
  "Btype_sign w \<longleftrightarrow> Btype_imm4 w \<noteq> 0"

definition Btype_signed_imm :: "u32 \<Rightarrow> u32" where
  "Btype_signed_imm w =
     push_bit 1 (Btype_imm2 w) OR push_bit 5 (Btype_imm3 w) OR push_bit 11 (Btype_imm1 w)
       OR (if Btype_sign w then 0xFFFFF000 else 0)"

text \<open>Jump format.\<close>

definition Jtype_imm1 :: "u32 \<Rightarrow> u32" where "Jtype_imm1 = get_field 12 8"
definition Jtype_imm2 :: "u32 \<Rightarrow> u32" where "Jtype_imm2 = get_field 20 1"
definition Jtype_imm3 :: "u32 \<Rightarrow> u32" where "Jtype_imm3 = get_field 21 10"
definition Jtype_imm4 :: "u32 \<Rightarrow> u32" where "Jtype_imm4 = get_field 31 1"
definition set_Jtype_imm1 :: "int \<Rightarrow> u32 \<Rightarrow> u32" where "set_Jtype_imm1 = set_field 12 8"
definition set_Jtype_imm2 :: "int \<Rightarrow> u32 \<Rightarrow> u32" where "set_Jtype_imm2 = set_field 20 1"
definition set_Jtype_imm3 :: "int \<Rightarrow> u32 \<Rightarrow> u32" where "set_Jtype_imm3 = set_field 21 10"
definition set_Jtype_imm4 :: "int \<Rightarrow> u32 \<Rightarrow> u32" where "set_Jtype_imm4 = set_field 31 1"

definition Jtype_sign :: "u32 \<Rightarrow> bool" where
  "Jtype_sign w \<longleftrightarrow> Jtype_imm4 w \<noteq> 0"

definition Jtype_jump_offset :: "u32 \<Rightarrow> u32" where
  "Jtype_jump_offset w =
     push_bit 1 (Jtype_imm3 w) OR push_bit 11 (Jtype_imm2 w) OR push_bit 12 (Jtype_imm1 w)
       OR (if Jtype_sign w then 0xFFF00000 else 0)"

text \<open>Atomic format; its other fields are those of the register format.\<close>

definition Atype_rl :: "u32 \<Rightarrow> u32" where "Atype_rl = get_field 25 1"
definition Atype_aq :: "u32 \<Rightarrow> u32" where "Atype_aq = get_field 26 1"
definition Atype_funct5 :: "u32 \<Rightarrow> u32" where "Atype_funct5 = get_field 27 5"
definition fpfunc :: "u32 \<Rightarrow> u32" where "fpfunc w = drop_bit (32 - 5) w"

section \<open>Opcodes and instruction length\<close>

definition RV32I_LOAD :: u32 where "RV32I_LOAD = 0x03"
definition RV32I_STORE :: u32 where "RV32I_STORE = 0x23"
definition RV32I_BRANCH :: u32 where "RV32I_BRANCH = 0x63"
definition RV32I_JALR :: u32 where "RV32I_JALR = 0x67"
definition RV32I_JAL :: u32 where "RV32I_JAL = 0x6F"
definition RV32I_OP_IMM :: u32 where "RV32I_OP_IMM = 0x13"
definition RV32I_OP :: u32 where "RV32I_OP = 0x33"
definition RV32I_SYSTEM :: u32 where "RV32I_SYSTEM = 0x73"
definition RV32I_LUI :: u32 where "RV32I_LUI = 0x37"
definition RV32I_AUIPC :: u32 where "RV32I_AUIPC = 0x17"
definition RV64I_OP_IMM32 :: u32 where "RV64I_OP_IMM32 = 0x1B"
definition RV64I_OP32 :: u32 where "RV64I_OP32 = 0x3B"
definition RV128I_OP_IMM64 :: u32 where "RV128I_OP_IMM64 = 0x5B"
definition RV128I_OP64 :: u32 where "RV128I_OP64 = 0x7B"

lemmas opcode_values =
  RV32I_LOAD_def RV32I_STORE_def RV32I_BRANCH_def RV32I_JALR_def RV32I_JAL_def
  RV32I_OP_IMM_def RV32I_OP_def RV32I_SYSTEM_def RV32I_LUI_def RV32I_AUIPC_def
  RV64I_OP_IMM32_def RV64I_OP32_def RV128I_OP_IMM64_def RV128I_OP64_def

definition is_long :: "u32 \<Rightarrow> bool" where
  "is_long w \<longleftrightarrow> w AND 0x3 = 0x3"

definition instr_length :: "u32 \<Rightarrow> nat" where
  "instr_length w = 2 + 2 * (if is_long w then 1 else 0)"

text \<open>\<^verbatim>\<open>instr.raw\<close>: the bytes of the word as they lie in memory.\<close>

definition instr_raw :: "u32 \<Rightarrow> u8 list" where
  "instr_raw w = le_bytes 4 (ucast w)"

lemmas get_field_defs =
  Rtype_opcode_def Rtype_rd_def Rtype_funct3_def Rtype_rs1_def Rtype_rs2_def Rtype_funct7_def
  Itype_imm_def Stype_imm1_def Stype_imm2_def Utype_imm_def
  Btype_imm1_def Btype_imm2_def Btype_imm3_def Btype_imm4_def
  Jtype_imm1_def Jtype_imm2_def Jtype_imm3_def Jtype_imm4_def

lemmas set_field_defs =
  set_opcode_def set_rd_def set_funct3_def set_rs1_def set_rs2_def set_funct7_def
  set_Itype_imm_def set_Stype_imm1_def set_Stype_imm2_def set_Utype_imm_def
  set_Btype_imm1_def set_Btype_imm2_def set_Btype_imm3_def set_Btype_imm4_def
  set_Jtype_imm1_def set_Jtype_imm2_def set_Jtype_imm3_def set_Jtype_imm4_def

lemmas field_defs = get_field_defs set_field_defs

lemma bit_get_field: "bit (get_field lo n w) k \<longleftrightarrow> k < n \<and> bit w (lo + k)"
  unfolding get_field_def by (auto simp: bit_simps)

lemma bit_set_field:
  "bit (set_field lo n v w) k \<longleftrightarrow>
     (if lo \<le> k \<and> k < lo + n then k < 32 \<and> bit v (k - lo) else bit w k)"
  unfolding set_field_def by (auto simp: bit_simps dest: bit_imp_le_length)

lemma get_field_1_nonzero: "get_field lo 1 w \<noteq> 0 \<longleftrightarrow> bit w lo"
proof -
  have "get_field lo 1 w \<noteq> 0 \<longleftrightarrow> (\<exists>k. bit (get_field lo 1 w) k)"
    by (metis bit_0_eq bit_word_eqI bot_apply bot_bool_def)
  then show ?thesis by (simp add: bit_get_field)
qed

lemma and_bit_test:
  "(x::u32) AND 0x800 \<noteq> 0 \<longleftrightarrow> bit x 11"
  "x AND 0x40 \<noteq> 0 \<longleftrightarrow> bit x 6"
  "x AND 0x80000 \<noteq> 0 \<longleftrightarrow> bit x 19"
  using and_exp_eq_0_iff_not_bit [of x 11] and_exp_eq_0_iff_not_bit [of x 6]
    and_exp_eq_0_iff_not_bit [of x 19]
  by simp_all

lemma extension_masks:
  "(0xFFFFF000 :: u32) = NOT (mask 12)" "(0xFFF00000 :: u32) = NOT (mask 20)"
  by (simp_all add: mask_eq_exp_minus_1)

lemma less_as_le:
  "n < 5 \<longleftrightarrow> n \<le> 4" "n < 7 \<longleftrightarrow> n \<le> 6" "n < 11 \<longleftrightarrow> n \<le> 10" "n < 12 \<longleftrightarrow> n \<le> 11"
  "n < 13 \<longleftrightarrow> n \<le> 12" "n < 20 \<longleftrightarrow> n \<le> 19" for n :: nat
  by auto

lemma sint_word_of_signed:
  "n < 31 \<Longrightarrow> sint (word_of_int (signed_take_bit n v) :: u32) = signed_take_bit n v"
  by (simp add: sint_sbintrunc' min_def)

section \<open>The fields as lenses\<close>

text \<open>
  Every field the assembler writes obeys the laws of a bit-field, and the fields that a
  fixup writes side by side into one instruction do not overlap.
\<close>

lemma bit_field_get_set:
  "lo + n \<le> 32 \<Longrightarrow>
   bit_field (get_field lo n) (set_field lo n) (\<lambda>v. take_bit n (word_of_int v))"
  by unfold_locales (auto simp: set_set_field intro: set_field_cong)

lemma disjoint_fields_get_set:
  assumes "lo + n \<le> 32" and "lo' + n' \<le> 32" and "lo + n \<le> lo' \<or> lo' + n' \<le> lo"
  shows "disjoint_fields (get_field lo n) (set_field lo n) (\<lambda>v. take_bit n (word_of_int v))
           (get_field lo' n') (set_field lo' n') (\<lambda>v. take_bit n' (word_of_int v))"
proof (intro disjoint_fields.intro disjoint_fields_axioms.intro bit_field_get_set)
  show "set_field lo n v (set_field lo' n' v' w) = set_field lo' n' v' (set_field lo n v w)" for v v' w
    using assms(3) by (rule set_field_commute)
  show "get_field lo n (set_field lo' n' v' w) = get_field lo n w" for v' w
    using assms(3) by (rule get_set_field_other)
  show "get_field lo' n' (set_field lo n v w) = get_field lo' n' w" for v w
    using assms(3) by (intro get_set_field_other) auto
qed (use assms in auto)

interpretation rd: bit_field Rtype_rd set_rd "\<lambda>v. take_bit 5 (word_of_int v)"
  unfolding field_defs by (rule bit_field_get_set) simp

interpretation rs2: bit_field Rtype_rs2 set_rs2 "\<lambda>v. take_bit 5 (word_of_int v)"
  unfolding field_defs by (rule bit_field_get_set) simp

interpretation i_imm: bit_field Itype_imm set_Itype_imm "\<lambda>v. take_bit 12 (word_of_int v)"
  unfolding field_defs by (rule bit_field_get_set) simp

interpretation u_imm: bit_field Utype_imm set_Utype_imm "\<lambda>v. take_bit 20 (word_of_int v)"
  unfolding field_defs by (rule bit_field_get_set) simp

interpretation s_imm: disjoint_fields
  Stype_imm1 set_Stype_imm1 "\<lambda>v. take_bit 5 (word_of_int v)"
  Stype_imm2 set_Stype_imm2 "\<lambda>v. take_bit 7 (word_of_int v)"
  unfolding field_defs by (rule disjoint_fields_get_set) simp_all

interpretation rd_imm: disjoint_fields
  Rtype_rd set_rd "\<lambda>v. take_bit 5 (word_of_int v)"
  Itype_imm set_Itype_imm "\<lambda>v. take_bit 12 (word_of_int v)"
  unfolding field_defs by (rule disjoint_fields_get_set) simp_all

interpretation op_imm: disjoint_fields
  Rtype_opcode set_opcode "\<lambda>v. take_bit 7 (word_of_int v)"
  Utype_imm set_Utype_imm "\<lambda>v. take_bit 20 (word_of_int v)"
  unfolding field_defs by (rule disjoint_fields_get_set) simp_all

section \<open>What the decoders read back\<close>

text \<open>
  The immediates as the decoders of \<^verbatim>\<open>rv32i_instr.hpp\<close> read them, in terms of the
  integer that was written: its residue, read as a signed number. The jump format is
  written with bit 19 of the offset in the place of bit 20.
\<close>

lemmas field_bits = bit_simps bit_get_field bit_set_field min_def less_as_le

lemma Itype_signed_imm_set:
  "sint (Itype_signed_imm (set_Itype_imm v w)) = signed_take_bit 11 v"
proof -
  have "Itype_signed_imm (set_Itype_imm v w) = word_of_int (signed_take_bit 11 v)"
    unfolding Itype_signed_imm_def Itype_sign_def field_defs extension_masks and_bit_test
    by (rule bit_word_eqI) (auto simp: field_bits dest: le_antisym)
  then show ?thesis by (simp only: sint_word_of_signed)
qed

definition set_Stype_imm :: "int \<Rightarrow> u32 \<Rightarrow> u32" where
  "set_Stype_imm v w = set_Stype_imm2 (drop_bit 5 v) (set_Stype_imm1 v w)"

lemma Stype_signed_imm_set: "sint (Stype_signed_imm (set_Stype_imm v w)) = signed_take_bit 11 v"
proof -
  have "Stype_signed_imm (set_Stype_imm v w) = word_of_int (signed_take_bit 11 v)"
    unfolding Stype_signed_imm_def Stype_sign_def set_Stype_imm_def field_defs
      extension_masks and_bit_test
    by (rule bit_word_eqI) (auto simp: field_bits dest: le_antisym)
  then show ?thesis by (simp only: sint_word_of_signed)
qed

definition set_Btype_imm :: "int \<Rightarrow> u32 \<Rightarrow> u32" where
  "set_Btype_imm v w =
     set_Btype_imm4 (drop_bit 12 v) (set_Btype_imm1 (drop_bit 11 v)
       (set_Btype_imm3 (drop_bit 5 v) (set_Btype_imm2 (drop_bit 1 v) w)))"

lemma Btype_signed_imm_set:
  assumes "even v"
  shows "sint (Btype_signed_imm (set_Btype_imm v w)) = signed_take_bit 12 v"
proof -
  have v0: "\<not> bit v 0" using assms by (simp add: bit_0)
  have "Btype_signed_imm (set_Btype_imm v w) = word_of_int (signed_take_bit 12 v)"
    unfolding Btype_signed_imm_def Btype_sign_def set_Btype_imm_def field_defs
      extension_masks get_field_1_nonzero
  proof (rule bit_word_eqI, goal_cases)
    case (1 n)
    show ?case
      by (cases "n = 0"; cases "n = 11") (auto simp: v0 field_bits simp del: One_nat_def push_bit_Suc dest: le_antisym)
  qed
  then show ?thesis by (simp only: sint_word_of_signed)
qed

definition set_Jtype_imm :: "int \<Rightarrow> u32 \<Rightarrow> u32" where
  "set_Jtype_imm v w =
     set_Jtype_imm4 (drop_bit 19 v) (set_Jtype_imm1 (drop_bit 12 v)
       (set_Jtype_imm2 (drop_bit 11 v) (set_Jtype_imm3 (drop_bit 1 v) w)))"

lemma Jtype_jump_offset_set:
  assumes "even v"
  shows "sint (Jtype_jump_offset (set_Jtype_imm v w)) = signed_take_bit 19 v"
proof -
  have v0: "\<not> bit v 0" using assms by (simp add: bit_0)
  have "Jtype_jump_offset (set_Jtype_imm v w) = word_of_int (signed_take_bit 19 v)"
    unfolding Jtype_jump_offset_def Jtype_sign_def set_Jtype_imm_def field_defs
      extension_masks get_field_1_nonzero
  proof (rule bit_word_eqI, goal_cases)
    case (1 n)
    show ?case
      by (cases "n = 0"; cases "n = 11"; cases "n = 19") (auto simp: v0 field_bits simp del: One_nat_def push_bit_Suc dest: le_antisym)
  qed
  then show ?thesis by (simp only: sint_word_of_signed)
qed

end
