(* ===== verification/Machine.thy ===== *)
theory Machine
  imports Instruction
begin

text \<open>
  What the emitted instructions mean: the part of the 128-bit RISC-V machine that the
  pseudo-instructions of the assembler are made of, over the decoders of
  \<^verbatim>\<open>rv32i_instr.hpp\<close>. It is the specification the code generation is proved against,
  not code of the program.
\<close>

section \<open>The machine\<close>

record Machine =
  pc :: u128
  regs :: "nat \<Rightarrow> u128"

definition get_reg :: "nat \<Rightarrow> Machine \<Rightarrow> u128" where
  "get_reg n m = (if n = 0 then 0 else regs m n)"

definition set_reg :: "nat \<Rightarrow> u128 \<Rightarrow> Machine \<Rightarrow> Machine" where
  "set_reg n v m = (if n = 0 then m else m\<lparr>regs := (regs m)(n := v)\<rparr>)"

definition rd_of :: "u32 \<Rightarrow> nat" where "rd_of w = unat (Rtype_rd w)"
definition rs1_of :: "u32 \<Rightarrow> nat" where "rs1_of w = unat (Rtype_rs1 w)"
definition rs2_of :: "u32 \<Rightarrow> nat" where "rs2_of w = unat (Rtype_rs2 w)"

definition advance :: "Machine \<Rightarrow> Machine" where
  "advance m = m\<lparr>pc := pc m + 4\<rparr>"

definition exec :: "u32 \<Rightarrow> Machine \<Rightarrow> Machine option" where
  "exec w m =
     (let opc = Rtype_opcode w; f3 = Rtype_funct3 w; rs1 = get_reg (rs1_of w) m in
      if opc = RV32I_LUI then
        Some (advance (set_reg (rd_of w) (scast (Utype_upper_imm w)) m))
      else if opc = RV32I_AUIPC then
        Some (advance (set_reg (rd_of w) (pc m + scast (Utype_upper_imm w)) m))
      else if opc = RV32I_OP_IMM \<and> f3 = 0 then
        Some (advance (set_reg (rd_of w) (rs1 + scast (Itype_signed_imm w)) m))
      else if opc = RV32I_OP_IMM \<and> f3 = 1 then
        Some (advance (set_reg (rd_of w) (push_bit (unat (Itype_shift128_imm w)) rs1) m))
      else if opc = RV32I_OP \<and> f3 = 0 \<and> Rtype_funct7 w = 0 then
        Some (advance (set_reg (rd_of w) (rs1 + get_reg (rs2_of w) m) m))
      else if opc = RV32I_JALR \<and> f3 = 0 then
        Some ((set_reg (rd_of w) (pc m + 4) m)\<lparr>pc := (rs1 + scast (Itype_signed_imm w)) AND NOT 1\<rparr>)
      else if opc = RV32I_JAL then
        Some ((set_reg (rd_of w) (pc m + 4) m)\<lparr>pc := pc m + scast (Jtype_jump_offset w)\<rparr>)
      else None)"

fun exec_all :: "u32 list \<Rightarrow> Machine \<Rightarrow> Machine option" where
  "exec_all [] m = Some m"
| "exec_all (w # ws) m = (case exec w m of Some m' \<Rightarrow> exec_all ws m' | None \<Rightarrow> None)"

lemma exec_all_append:
  "exec_all (xs @ ys) m = (case exec_all xs m of Some m' \<Rightarrow> exec_all ys m' | None \<Rightarrow> None)"
  by (induction xs arbitrary: m) (auto split: option.splits)

section \<open>Decoding what was set\<close>

lemma get_other_fields [simp]:
  "Rtype_opcode (set_rd v w) = Rtype_opcode w" "Rtype_opcode (set_rs1 v w) = Rtype_opcode w"
  "Rtype_opcode (set_rs2 v w) = Rtype_opcode w" "Rtype_opcode (set_funct3 v w) = Rtype_opcode w"
  "Rtype_opcode (set_Itype_imm v w) = Rtype_opcode w" "Rtype_opcode (set_Utype_imm v w) = Rtype_opcode w"
  "Rtype_rd (set_opcode v w) = Rtype_rd w" "Rtype_rd (set_rs1 v w) = Rtype_rd w"
  "Rtype_rd (set_rs2 v w) = Rtype_rd w" "Rtype_rd (set_funct3 v w) = Rtype_rd w"
  "Rtype_rd (set_Itype_imm v w) = Rtype_rd w" "Rtype_rd (set_Utype_imm v w) = Rtype_rd w"
  "Rtype_rs1 (set_rd v w) = Rtype_rs1 w" "Rtype_rs1 (set_rs2 v w) = Rtype_rs1 w"
  "Rtype_rs1 (set_funct3 v w) = Rtype_rs1 w" "Rtype_rs1 (set_Itype_imm v w) = Rtype_rs1 w"
  "Rtype_rs2 (set_rd v w) = Rtype_rs2 w" "Rtype_rs2 (set_rs1 v w) = Rtype_rs2 w"
  "Rtype_rs2 (set_funct3 v w) = Rtype_rs2 w"
  "Rtype_funct7 (set_rd v w) = Rtype_funct7 w" "Rtype_funct7 (set_rs1 v w) = Rtype_funct7 w"
  "Rtype_funct7 (set_rs2 v w) = Rtype_funct7 w"
  "Rtype_funct3 (set_rd v w) = Rtype_funct3 w" "Rtype_funct3 (set_rs1 v w) = Rtype_funct3 w"
  "Rtype_funct3 (set_rs2 v w) = Rtype_funct3 w" "Rtype_funct3 (set_Itype_imm v w) = Rtype_funct3 w"
  "Itype_imm (set_rd v w) = Itype_imm w" "Itype_imm (set_rs1 v w) = Itype_imm w"
  "Itype_imm (set_funct3 v w) = Itype_imm w"
  "Utype_imm (set_rd v w) = Utype_imm w" "Utype_imm (set_opcode v w) = Utype_imm w"
  by (simp_all add: field_defs)

lemma get_same_fields [simp]:
  "Rtype_opcode (set_opcode v w) = take_bit 7 (word_of_int v)"
  "Rtype_rd (set_rd v w) = take_bit 5 (word_of_int v)"
  "Rtype_rs1 (set_rs1 v w) = take_bit 5 (word_of_int v)"
  "Rtype_rs2 (set_rs2 v w) = take_bit 5 (word_of_int v)"
  "Rtype_funct3 (set_funct3 v w) = take_bit 3 (word_of_int v)"
  "Itype_imm (set_Itype_imm v w) = take_bit 12 (word_of_int v)"
  "Utype_imm (set_Utype_imm v w) = take_bit 20 (word_of_int v)"
  by (simp_all add: field_defs)

lemma get_constant_fields [simp]:
  "Rtype_opcode RV32I_LUI = RV32I_LUI" "Rtype_opcode RV32I_AUIPC = RV32I_AUIPC"
  "Rtype_opcode RV32I_OP_IMM = RV32I_OP_IMM" "Rtype_opcode RV32I_OP = RV32I_OP"
  "Rtype_opcode RV32I_JALR = RV32I_JALR" "Rtype_opcode RV32I_JAL = RV32I_JAL"
  "Rtype_funct3 RV32I_OP_IMM = 0" "Rtype_funct3 RV32I_OP = 0" "Rtype_funct3 RV32I_JALR = 0"
  "Rtype_funct7 RV32I_OP = 0" "Rtype_rs1 RV32I_OP_IMM = 0" "Rtype_rs1 RV32I_JALR = 0"
  "Rtype_rd RV32I_JAL = 0" "Rtype_rd RV32I_JALR = 0"
  by (simp_all add: field_defs get_field_def opcode_values)

lemma register_field:
  assumes "0 \<le> r" and "r < 32"
  shows "unat (take_bit 5 (word_of_int r :: u32)) = nat r"
proof -
  obtain n where n: "r = int n" "n < 32" using assms by (metis nat_0_le nat_less_iff of_nat_numeral zless_nat_conj)
  then have "(word_of_int r :: u32) = of_nat n" by simp
  with n show ?thesis
    by (simp only: nat_int) (simp add: unsigned_take_bit_eq unsigned_of_nat take_bit_nat_eq_self)
qed

lemma register_numbers [simp]:
  "0 \<le> r \<Longrightarrow> r < 32 \<Longrightarrow> rd_of (set_rd r w) = nat r"
  "0 \<le> r \<Longrightarrow> r < 32 \<Longrightarrow> rs1_of (set_rs1 r w) = nat r"
  "0 \<le> r \<Longrightarrow> r < 32 \<Longrightarrow> rs2_of (set_rs2 r w) = nat r"
  by (simp_all add: rd_of_def rs1_of_def rs2_of_def register_field)

lemma register_other_fields [simp]:
  "rd_of (set_rs1 v w) = rd_of w" "rd_of (set_rs2 v w) = rd_of w" "rd_of (set_funct3 v w) = rd_of w"
  "rd_of (set_Itype_imm v w) = rd_of w" "rd_of (set_Utype_imm v w) = rd_of w"
  "rd_of (set_opcode v w) = rd_of w"
  "rs1_of (set_rd v w) = rs1_of w" "rs1_of (set_rs2 v w) = rs1_of w"
  "rs1_of (set_funct3 v w) = rs1_of w" "rs1_of (set_Itype_imm v w) = rs1_of w"
  "rs2_of (set_rd v w) = rs2_of w" "rs2_of (set_rs1 v w) = rs2_of w"
  "rs1_of RV32I_OP_IMM = 0" "rd_of RV32I_JAL = 0"
  by (simp_all add: rd_of_def rs1_of_def rs2_of_def)

text \<open>The immediates, as 128-bit numbers.\<close>

lemma Itype_signed_imm_cong: "Itype_imm w = Itype_imm w' \<Longrightarrow> Itype_signed_imm w = Itype_signed_imm w'"
  by (simp add: Itype_signed_imm_def Itype_sign_def)

lemma Itype_signed_imm_other [simp]:
  "Itype_signed_imm (set_rd v w) = Itype_signed_imm w"
  "Itype_signed_imm (set_rs1 v w) = Itype_signed_imm w"
  by (rule Itype_signed_imm_cong, simp)+

lemma scast_sint: "scast (w::'a::len word) = (word_of_int (sint w) :: 'b::len word)"
  by (rule scast_eq)

lemma scast_Itype_imm [simp]:
  "(scast (Itype_signed_imm (set_Itype_imm v w)) :: u128) = word_of_int (signed_take_bit 11 v)"
  by (simp only: scast_sint Itype_signed_imm_set)

lemma sint_Utype_imm: "sint (Utype_upper_imm (set_Utype_imm v w)) = signed_take_bit 31 (push_bit 12 v)"
proof -
  have "Utype_upper_imm (set_Utype_imm v w) = word_of_int (push_bit 12 v)"
    unfolding Utype_upper_imm_def field_defs
    by (rule bit_word_eqI) (auto simp: field_bits)
  then show ?thesis by (simp add: sint_sbintrunc')
qed

lemma scast_Utype_imm [simp]:
  "(scast (Utype_upper_imm (set_Utype_imm v w)) :: u128) = word_of_int (signed_take_bit 31 (push_bit 12 v))"
  by (simp only: scast_sint sint_Utype_imm)

lemma Utype_upper_imm_other [simp]:
  "Utype_upper_imm (set_rd v w) = Utype_upper_imm w"
  "Utype_upper_imm (set_opcode v w) = Utype_upper_imm w"
  by (simp_all add: Utype_upper_imm_def)

end
