(* ===== verification/Sections.thy ===== *)
theory Sections
  imports Prelude
begin

text \<open>
  \<^verbatim>\<open>section.hpp\<close> and \<^verbatim>\<open>section.cpp\<close>: a section of the output, its byte vector, its
  attribute flags, the labels waiting to be attached and its base address. The
  operations that put labels into the symbol table need the assembler and are in its
  theory.
\<close>

section \<open>Byte vectors\<close>

text \<open>
  \<^verbatim>\<open>std::vector<uint8_t>\<close>: growing it beyond \<^verbatim>\<open>max_size()\<close> throws
  \<^verbatim>\<open>length_error\<close>; new elements of a \<^verbatim>\<open>resize\<close> are zero.
\<close>

definition vector_max_size :: nat where
  "vector_max_size = 2 ^ 63 - 1"

definition vector_append :: "u8 list \<Rightarrow> u8 list \<Rightarrow> u8 list result" where
  "vector_append xs ys =
     (if length xs + length ys > vector_max_size then Inl LengthError else Inr (xs @ ys))"

definition vector_resize :: "nat \<Rightarrow> u8 list \<Rightarrow> u8 list result" where
  "vector_resize n xs =
     (if n > vector_max_size then Inl LengthError
      else Inr (take n xs @ replicate (n - length xs) 0))"

text \<open>The bound of a vector is far beyond any list that is evaluated; compare it as an integer.\<close>

lemma vector_bound_code:
  "n > vector_max_size \<longleftrightarrow> int n > 2 ^ 63 - 1"
  by (simp add: vector_max_size_def)

lemma vector_append_code [code]:
  "vector_append xs ys =
     (if int (length xs + length ys) > 2 ^ 63 - 1 then Inl LengthError else Inr (xs @ ys))"
  by (simp only: vector_append_def vector_bound_code)

lemma vector_resize_code [code]:
  "vector_resize n xs =
     (if int n > 2 ^ 63 - 1 then Inl LengthError
      else Inr (take n xs @ replicate (n - length xs) 0))"
  by (simp only: vector_resize_def vector_bound_code)

lemma vector_resize_length: "vector_resize n xs = Inr ys \<Longrightarrow> length ys = n"
  by (auto simp: vector_resize_def split: if_splits)

lemma vector_resize_bound: "vector_resize n xs = Inr ys \<Longrightarrow> length ys \<le> vector_max_size"
  by (auto simp: vector_resize_def split: if_splits)

lemma vector_resize_grow:
  "length xs \<le> n \<Longrightarrow> n \<le> vector_max_size \<Longrightarrow>
   vector_resize n xs = Inr (xs @ replicate (n - length xs) 0)"
  by (simp add: vector_resize_def)

section \<open>The section record\<close>

datatype OutputType = OT_CODE | OT_DATA | OT_RESV

record Section =
  sec_output :: "u8 list"
  sec_code :: bool
  sec_data :: bool
  sec_resv :: bool
  sec_execonly :: bool
  sec_readonly :: bool
  m_name :: string
  m_idx :: nat
  m_has_base_addr :: bool
  m_label_queue :: "string list"
  m_base_address :: u128

definition Section_new :: "string \<Rightarrow> nat \<Rightarrow> Section" where
  "Section_new name idx =
     \<lparr>sec_output = [], sec_code = False, sec_data = False, sec_resv = False,
      sec_execonly = False, sec_readonly = False, m_name = name, m_idx = idx,
      m_has_base_addr = False, m_label_queue = [], m_base_address = 0\<rparr>"

definition Section_size :: "Section \<Rightarrow> u64" where
  "Section_size s = of_nat (length (sec_output s))"

definition Section_set_base_address :: "u128 \<Rightarrow> Section \<Rightarrow> Section" where
  "Section_set_base_address nba s = s\<lparr>m_base_address := nba, m_has_base_addr := True\<rparr>"

definition Section_address_at :: "Section \<Rightarrow> u64 \<Rightarrow> u128" where
  "Section_address_at s off = m_base_address s + ucast off"

definition Section_current_address :: "Section \<Rightarrow> u128" where
  "Section_current_address s = m_base_address s + ucast (Section_size s)"

definition Section_add_label_soon :: "string \<Rightarrow> Section \<Rightarrow> Section" where
  "Section_add_label_soon name s = s\<lparr>m_label_queue := m_label_queue s @ [name]\<rparr>"

fun mark_output :: "OutputType \<Rightarrow> Section \<Rightarrow> Section" where
  "mark_output OT_CODE s = s\<lparr>sec_code := True\<rparr>"
| "mark_output OT_DATA s = s\<lparr>sec_data := True\<rparr>"
| "mark_output OT_RESV s = s\<lparr>sec_resv := True\<rparr>"

definition Section_add_output :: "OutputType \<Rightarrow> u8 list \<Rightarrow> Section \<Rightarrow> Section result" where
  "Section_add_output ot bytes s =
     bindR (vector_append (sec_output s) bytes) (\<lambda>out.
       Inr (mark_output ot (s\<lparr>sec_output := out\<rparr>)))"

definition Section_allocate :: "u64 \<Rightarrow> Section \<Rightarrow> Section result" where
  "Section_allocate len s =
     bindR (vector_resize (unat (Section_size s + len)) (sec_output s)) (\<lambda>out.
       Inr (s\<lparr>sec_output := out, sec_resv := True\<rparr>))"

definition Section_align :: "u64 \<Rightarrow> Section \<Rightarrow> Section result" where
  "Section_align alignment s =
     (let newsize = (Section_size s + (alignment - 1)) AND NOT (alignment - 1)
      in if Section_size s \<noteq> newsize
         then bindR (vector_resize (unat newsize) (sec_output s)) (\<lambda>out.
                Inr (s\<lparr>sec_output := out\<rparr>))
         else Inr s)"

definition Section_make_execonly :: "Section \<Rightarrow> Section" where
  "Section_make_execonly s = s\<lparr>sec_execonly := True\<rparr>"

definition Section_make_readonly :: "Section \<Rightarrow> Section" where
  "Section_make_readonly s = s\<lparr>sec_readonly := True\<rparr>"

text \<open>A section's vector never exceeds what a vector can hold.\<close>

definition section_ok :: "Section \<Rightarrow> bool" where
  "section_ok s \<longleftrightarrow> length (sec_output s) \<le> vector_max_size"

lemma section_ok_less: "section_ok s \<Longrightarrow> length (sec_output s) < 2 ^ 63"
  by (simp add: section_ok_def vector_max_size_def)

lemma unat_Section_size:
  assumes "section_ok s"
  shows "unat (Section_size s) = length (sec_output s)"
  using section_ok_less [OF assms]
  by (simp add: Section_size_def unsigned_of_nat take_bit_nat_eq_self)

lemma Section_new_ok [simp]: "section_ok (Section_new name idx)"
  by (simp add: section_ok_def Section_new_def)

lemma mark_output_simps [simp]:
  "sec_output (mark_output ot s) = sec_output s" "m_name (mark_output ot s) = m_name s"
  "m_idx (mark_output ot s) = m_idx s" "m_label_queue (mark_output ot s) = m_label_queue s"
  "m_base_address (mark_output ot s) = m_base_address s"
  "m_has_base_addr (mark_output ot s) = m_has_base_addr s"
  by (cases ot; simp)+

lemma add_output_ok:
  "Section_add_output ot bytes s = Inr s' \<Longrightarrow> section_ok s'"
  by (auto simp: Section_add_output_def vector_append_def section_ok_def split: if_splits)

lemma allocate_ok: "Section_allocate len s = Inr s' \<Longrightarrow> section_ok s'"
  by (auto simp: Section_allocate_def section_ok_def bindR_Inr_iff dest: vector_resize_bound)

lemma align_ok: "section_ok s \<Longrightarrow> Section_align a s = Inr s' \<Longrightarrow> section_ok s'"
  by (auto simp: Section_align_def section_ok_def bindR_Inr_iff Let_def
      dest: vector_resize_bound split: if_splits)

lemma add_output_bytes:
  "Section_add_output ot bytes s = Inr s' \<Longrightarrow> sec_output s' = sec_output s @ bytes"
  by (auto simp: Section_add_output_def vector_append_def split: if_splits)

section \<open>Alignment\<close>

text \<open>The size a power-of-two alignment rounds up to.\<close>

definition align_up :: "nat \<Rightarrow> nat \<Rightarrow> nat" where
  "align_up a n = (n + (a - 1)) div a * a"

lemma align_up_dvd: "a dvd align_up a n"
  by (simp add: align_up_def)

lemma align_up_ge: "0 < a \<Longrightarrow> n \<le> align_up a n"
proof -
  assume a: "0 < a"
  have "n + (a - 1) = (n + (a - 1)) div a * a + (n + (a - 1)) mod a"
    by simp
  moreover have "(n + (a - 1)) mod a \<le> a - 1"
    using a mod_less_divisor [of a "n + (a - 1)"] by linarith
  ultimately show ?thesis unfolding align_up_def by linarith
qed

lemma align_up_less: "0 < a \<Longrightarrow> align_up a n < n + a"
proof -
  assume "0 < a"
  have "(n + (a - 1)) div a * a \<le> n + (a - 1)" by (rule div_times_less_eq_dividend)
  with \<open>0 < a\<close> show ?thesis unfolding align_up_def by linarith
qed

lemma align_up_least: "0 < a \<Longrightarrow> a dvd m \<Longrightarrow> n \<le> m \<Longrightarrow> align_up a n \<le> m"
proof -
  assume a: "0 < a" and dvd: "a dvd m" and le: "n \<le> m"
  obtain k where k: "m = k * a" using dvd by (auto simp: mult.commute dvd_def)
  have "n + (a - 1) < Suc k * a" using a le k by simp
  then have "(n + (a - 1)) div a < Suc k" using a by (simp add: less_mult_imp_div_less)
  then have "(n + (a - 1)) div a \<le> k" by simp
  then show ?thesis unfolding align_up_def k by (rule mult_le_mono1)
qed

lemma align_up_id: "0 < a \<Longrightarrow> a dvd n \<Longrightarrow> align_up a n = n"
  by (meson align_up_ge align_up_least le_antisym order_refl)

lemma unat_clear_low: "unat (w AND NOT (mask k) :: 'a::len word) = unat w div 2 ^ k * 2 ^ k"
proof -
  have "w AND NOT (mask k) = push_bit k (drop_bit k w)"
    by (rule bit_word_eqI) (auto simp: bit_simps dest: bit_imp_le_length)
  moreover have "unat (push_bit k (drop_bit k w)) = take_bit LENGTH('a) (push_bit k (drop_bit k (unat w)))"
    by (simp only: unsigned_push_bit_eq unsigned_drop_bit_eq take_bit_length_unat order_refl)
  ultimately have "unat (w AND NOT (mask k)) = take_bit LENGTH('a) (unat w div 2 ^ k * 2 ^ k)"
    by (simp add: push_bit_eq_mult drop_bit_eq_div)
  moreover have "unat w div 2 ^ k * 2 ^ k < 2 ^ LENGTH('a)"
    by (rule le_less_trans [OF div_times_less_eq_dividend unat_less_exp])
  ultimately show ?thesis by (simp add: take_bit_nat_eq_self)
qed

text \<open>
  The mask arithmetic of \<^verbatim>\<open>Section::align\<close> rounds up when the alignment is a power of two.
\<close>

lemma align_newsize:
  assumes "section_ok s" and "k < 64"
  shows "unat ((Section_size s + (2 ^ k - 1)) AND NOT (2 ^ k - 1)) =
         align_up (2 ^ k) (length (sec_output s))"
proof -
  have m: "(2 ^ k - 1 :: u64) = mask k" by (simp add: mask_eq_exp_minus_1)
  have mk: "unat (mask k :: u64) = 2 ^ k - 1"
  proof -
    have e: "(mask k :: u64) = of_nat (2 ^ k - 1)" by (simp add: mask_eq_exp_minus_1 of_nat_diff)
    have "(2::nat) ^ k - 1 < 2 ^ 64"
      using power_strict_increasing [OF assms(2), of "2::nat"] by simp
    then show ?thesis unfolding e unsigned_of_nat by (simp add: take_bit_nat_eq_self)
  qed
  have "(2::nat) ^ k \<le> 2 ^ 63" using assms(2) by (intro power_increasing) auto
  with section_ok_less [OF assms(1)] have "length (sec_output s) + (2 ^ k - 1) < 2 ^ 64" by simp
  then have "unat (Section_size s + mask k) = length (sec_output s) + (2 ^ k - 1)"
    by (simp add: unat_word_ariths unat_Section_size [OF assms(1)] mk)
  then show ?thesis unfolding m by (simp only: unat_clear_low align_up_def)
qed

lemma Section_align_power2:
  assumes "section_ok s" and "k < 64"
    and "align_up (2 ^ k) (length (sec_output s)) \<le> vector_max_size"
  shows "Section_align (2 ^ k) s =
    Inr (s\<lparr>sec_output := sec_output s
            @ replicate (align_up (2 ^ k) (length (sec_output s)) - length (sec_output s)) 0\<rparr>)"
proof -
  let ?n = "length (sec_output s)"
  have ge: "?n \<le> align_up (2 ^ k) ?n" by (simp add: align_up_ge)
  show ?thesis
  proof (cases "?n = align_up (2 ^ k) ?n")
    case True
    then have "unat (Section_size s) =
        unat ((Section_size s + (2 ^ k - 1)) AND NOT (2 ^ k - 1))"
      by (simp add: align_newsize [OF assms(1,2)] unat_Section_size [OF assms(1)])
    then have "Section_size s = (Section_size s + (2 ^ k - 1)) AND NOT (2 ^ k - 1)"
      by (rule unsigned_word_eqI)
    with True show ?thesis by (simp add: Section_align_def Let_def)
  next
    case False
    then have "unat (Section_size s) \<noteq>
        unat ((Section_size s + (2 ^ k - 1)) AND NOT (2 ^ k - 1))"
      by (simp add: align_newsize [OF assms(1,2)] unat_Section_size [OF assms(1)])
    then have "Section_size s \<noteq> (Section_size s + (2 ^ k - 1)) AND NOT (2 ^ k - 1)" by metis
    with ge assms(3) show ?thesis
      by (simp add: Section_align_def Let_def align_newsize [OF assms(1,2)] vector_resize_grow)
  qed
qed

text \<open>An alignment of 0 wraps around to the mask of all bits and empties the section.\<close>

lemma Section_align_0:
  assumes "section_ok s"
  shows "Section_align 0 s = Inr (s\<lparr>sec_output := []\<rparr>)"
  using unat_Section_size [OF assms]
  by (auto simp: Section_align_def Let_def vector_resize_def)

section \<open>32-bit cells\<close>

text \<open>
  The code patches instructions and sizes through 32-bit references into the bytes of a
  section. A reference behaves as a cell: it reads what was last written to it, and a
  write leaves the cells apart from it alone.
\<close>

locale cell_store =
  fixes valid :: "'m \<Rightarrow> nat \<Rightarrow> bool"
    and fetch :: "nat \<Rightarrow> 'm \<Rightarrow> 'v"
    and store :: "nat \<Rightarrow> 'v \<Rightarrow> 'm \<Rightarrow> 'm"
    and apart :: "nat \<Rightarrow> nat \<Rightarrow> bool"
  assumes read_write: "valid m i \<Longrightarrow> fetch i (store i v m) = v"
    and write_write: "valid m i \<Longrightarrow> store i v (store i v' m) = store i v m"
    and valid_write: "valid m i \<Longrightarrow> valid (store i v m) j = valid m j"
    and read_apart: "valid m i \<Longrightarrow> valid m j \<Longrightarrow> apart i j \<Longrightarrow> fetch j (store i v m) = fetch j m"
    and apart_sym: "apart i j \<Longrightarrow> apart j i"
begin

definition patch :: "nat \<Rightarrow> ('v \<Rightarrow> 'v) \<Rightarrow> 'm \<Rightarrow> 'm" where
  "patch i f m = store i (f (fetch i m)) m"

lemma read_patch: "valid m i \<Longrightarrow> fetch i (patch i f m) = f (fetch i m)"
  by (simp add: patch_def read_write)

lemma read_patch_apart:
  "valid m i \<Longrightarrow> valid m j \<Longrightarrow> apart i j \<Longrightarrow> fetch j (patch i f m) = fetch j m"
  by (simp add: patch_def read_apart)

lemma valid_patch: "valid m i \<Longrightarrow> valid (patch i f m) j = valid m j"
  by (simp add: patch_def valid_write)

lemma patch_patch: "valid m i \<Longrightarrow> patch i g (patch i f m) = patch i (g \<circ> f) m"
  by (simp add: patch_def read_write write_write)

lemma read_patch_both:
  assumes "valid m i" and "valid m j" and "apart i j"
  shows "fetch i (patch j g (patch i f m)) = f (fetch i m) \<and>
         fetch j (patch j g (patch i f m)) = g (fetch j m)"
  using assms
  by (simp add: read_patch read_patch_apart valid_patch apart_sym)

end

definition read32 :: "nat \<Rightarrow> u8 list \<Rightarrow> u32" where
  "read32 i bs = ucast (le_value (take 4 (drop i bs)))"

definition write32 :: "nat \<Rightarrow> u32 \<Rightarrow> u8 list \<Rightarrow> u8 list" where
  "write32 i w bs = take i bs @ le_bytes 4 (ucast w) @ drop (i + 4) bs"

definition cell_in :: "u8 list \<Rightarrow> nat \<Rightarrow> bool" where
  "cell_in bs i \<longleftrightarrow> i + 4 \<le> length bs"

definition cells_apart :: "nat \<Rightarrow> nat \<Rightarrow> bool" where
  "cells_apart i j \<longleftrightarrow> i + 4 \<le> j \<or> j + 4 \<le> i"

lemma length_write32: "cell_in bs i \<Longrightarrow> length (write32 i w bs) = length bs"
  by (simp add: write32_def cell_in_def)

lemma nth_write32:
  "cell_in bs i \<Longrightarrow> k < length bs \<Longrightarrow>
   write32 i w bs ! k = (if i \<le> k \<and> k < i + 4 then le_bytes 4 (ucast w) ! (k - i) else bs ! k)"
  by (auto simp: write32_def cell_in_def nth_append)

lemma read32_bytes:
  assumes "cell_in bs i"
  shows "take 4 (drop i bs) = le_bytes 4 (ucast (read32 i bs))"
proof -
  define cs where "cs = take 4 (drop i bs)"
  have len: "length cs = 4" using assms by (simp add: cs_def cell_in_def)
  have "ucast (ucast (le_value cs) :: u32) = take_bit (8 * length cs) (le_value cs)"
    by (rule bit_word_eqI) (auto simp: bit_simps len)
  then have "ucast (ucast (le_value cs) :: u32) = le_value cs"
    by (simp only: take_bit_le_value)
  then show ?thesis
    using le_bytes_le_value [of cs] len by (simp add: read32_def flip: cs_def)
qed

lemma read_write32: "cell_in bs i \<Longrightarrow> read32 i (write32 i w bs) = w"
proof -
  assume "cell_in bs i"
  then have "take 4 (drop i (write32 i w bs)) = le_bytes 4 (ucast w)"
    by (simp add: write32_def cell_in_def)
  then have "read32 i (write32 i w bs) = ucast (take_bit (8 * 4) (ucast w :: u128))"
    by (simp add: read32_def le_value_le_bytes)
  also have "\<dots> = w" by (rule bit_word_eqI) (auto simp: bit_simps)
  finally show ?thesis .
qed

lemma read32_cong: "(\<And>k. i \<le> k \<Longrightarrow> k < i + 4 \<Longrightarrow> bs ! k = bs' ! k) \<Longrightarrow>
    cell_in bs i \<Longrightarrow> cell_in bs' i \<Longrightarrow> read32 i bs = read32 i bs'"
  unfolding read32_def
  by (rule arg_cong [where f = "\<lambda>x. ucast (le_value x)"], rule nth_equalityI)
    (auto simp: cell_in_def)

interpretation cells: cell_store cell_in read32 write32 cells_apart
proof unfold_locales
  fix m i v v' j
  assume v: "cell_in m i"
  show "read32 i (write32 i v m) = v" using v by (rule read_write32)
  show "write32 i v (write32 i v' m) = write32 i v m"
    using v by (simp add: write32_def cell_in_def)
  show "cell_in (write32 i v m) j = cell_in m j"
    using length_write32 [OF v] by (simp add: cell_in_def)
next
  fix m i j v
  assume v: "cell_in m i" "cell_in m j" and ap: "cells_apart i j"
  show "read32 j (write32 i v m) = read32 j m"
  proof (rule read32_cong)
    show "cell_in (write32 i v m) j" using v length_write32 [OF v(1)] by (simp add: cell_in_def)
    show "write32 i v m ! k = m ! k" if "j \<le> k" "k < j + 4" for k
      using that v ap by (subst nth_write32) (auto simp: cell_in_def cells_apart_def)
  qed (rule v(2))
qed (auto simp: cells_apart_def)

end
