(* ===== verification/Tokens.thy ===== *)
theory Tokens
  imports Prelude
begin

text \<open>
  \<^verbatim>\<open>types.hpp\<close> and \<^verbatim>\<open>token.cpp\<close>: the tokens of the assembly language. The tables of
  opcodes and pseudo-ops are in later theories; here their entries are only named, one
  constructor per static \<^verbatim>\<open>Opcode\<close> or \<^verbatim>\<open>PseudoOp\<close> object of the code (the templates
  over an opcode keep it as an argument), so that a token can point to one.
\<close>

datatype TokenType =
    TK_DIRECTIVE
  | TK_LABEL
  | TK_STRING
  | TK_SYMBOL
  | TK_OPCODE
  | TK_PSEUDOOP
  | TK_REGISTER
  | TK_CONSTANT
  | TK_OPERATOR
  | TK_UNSPEC

datatype Opcode =
    OP_NOP | OP_LI | OP_SET | OP_LA | OP_LAQ
  | OP_LB | OP_LH | OP_LW | OP_LD | OP_LBU | OP_LHU | OP_LWU | OP_LDU | OP_LQ
  | OP_SB | OP_SH | OP_SW | OP_SD | OP_SQ
  | OP_BEQ | OP_BNE | OP_BLT | OP_BGE | OP_BLTU | OP_BGEU
  | OP_FARCALL | OP_CALL | OP_JALR | OP_RET | OP_JMP
  | OP_MOV | OP_INC
  | OP_ADD u32 | OP_SLL u32 | OP_SLT u32 | OP_SLTU u32 | OP_SRL u32
  | OP_AND u32 | OP_OR u32 | OP_XOR u32
  | OP_SUB u32 | OP_MUL u32 | OP_DIV u32 | OP_DIVU u32 | OP_REM u32 | OP_REMU u32
  | OP_SYSCALL | OP_ECALL | OP_EBREAK | OP_WFI | OP_SYSTEM

datatype PseudoOp =
    DATA_8 | DATA_16 | DATA_32 | DATA_64 | DATA_128
  | RESV_8 | RESV_16 | RESV_32 | RESV_64 | RESV_128
  | INCBIN

text \<open>
  The union of a token: sixteen raw bytes, read as \<^verbatim>\<open>u128\<close>, \<^verbatim>\<open>u64\<close> or \<^verbatim>\<open>i64\<close> (the
  low half on a little-endian machine), or a pointer into one of the tables.
\<close>

datatype payload = Raw u128 | OpcodePtr Opcode | PseudoOpPtr PseudoOp

record Token =
  tk_type :: TokenType
  tk_line :: u32
  tk_value :: string
  tk_payload :: payload

record RawToken =
  rt_name :: string
  rt_line :: u32

text \<open>
  The constructor zeroes the union. Reading the raw bytes of a token that holds a
  pointer does not happen in the code, which checks the type first; the model gives 0.
\<close>

definition Token_new :: "TokenType \<Rightarrow> Token" where
  "Token_new tt = \<lparr>tk_type = tt, tk_line = 0, tk_value = [], tk_payload = Raw 0\<rparr>"

definition u128_of :: "Token \<Rightarrow> u128" where
  "u128_of tk = (case tk_payload tk of Raw w \<Rightarrow> w | _ \<Rightarrow> 0)"

definition u64_of :: "Token \<Rightarrow> u64" where
  "u64_of tk = ucast (u128_of tk)"

definition i64_of :: "Token \<Rightarrow> int" where
  "i64_of tk = sint (u64_of tk)"

definition set_u128 :: "u128 \<Rightarrow> Token \<Rightarrow> Token" where
  "set_u128 w tk = tk\<lparr>tk_payload := Raw w\<rparr>"

text \<open>An assignment to \<^verbatim>\<open>u64\<close> or \<^verbatim>\<open>i64\<close> writes the low half and leaves the high half.\<close>

definition set_u64 :: "u64 \<Rightarrow> Token \<Rightarrow> Token" where
  "set_u64 w tk = tk\<lparr>tk_payload := Raw ((u128_of tk AND NOT (mask 64)) OR ucast w)\<rparr>"

definition is_opcode :: "Token \<Rightarrow> bool" where "is_opcode tk \<longleftrightarrow> tk_type tk = TK_OPCODE"
definition is_register :: "Token \<Rightarrow> bool" where "is_register tk \<longleftrightarrow> tk_type tk = TK_REGISTER"
definition is_symbol :: "Token \<Rightarrow> bool" where "is_symbol tk \<longleftrightarrow> tk_type tk = TK_SYMBOL"

fun TokenType_num :: "TokenType \<Rightarrow> nat" where
  "TokenType_num TK_DIRECTIVE = 0"
| "TokenType_num TK_LABEL = 1"
| "TokenType_num TK_STRING = 2"
| "TokenType_num TK_SYMBOL = 3"
| "TokenType_num TK_OPCODE = 4"
| "TokenType_num TK_PSEUDOOP = 5"
| "TokenType_num TK_REGISTER = 6"
| "TokenType_num TK_CONSTANT = 7"
| "TokenType_num TK_OPERATOR = 8"
| "TokenType_num TK_UNSPEC = 9"

fun TokenType_to_string :: "TokenType \<Rightarrow> string" where
  "TokenType_to_string TK_DIRECTIVE = ''[Directive]''"
| "TokenType_to_string TK_LABEL = ''[Label]''"
| "TokenType_to_string TK_STRING = ''[String]''"
| "TokenType_to_string TK_OPCODE = ''[Opcode]''"
| "TokenType_to_string TK_REGISTER = ''[Register]''"
| "TokenType_to_string TK_SYMBOL = ''[Symbol]''"
| "TokenType_to_string TK_CONSTANT = ''[Constant]''"
| "TokenType_to_string tt = ''Unknown token: '' @ int_to_string (int (TokenType_num tt))"

definition Token_to_string :: "Token \<Rightarrow> string" where
  "Token_to_string tk = TokenType_to_string (tk_type tk) @ '' '' @ tk_value tk"

text \<open>
  A token whose union agrees with its type. Every token the tokenizer makes is one, so
  that a pointer is followed only where there is one.
\<close>

fun payload_ok :: "TokenType \<Rightarrow> payload \<Rightarrow> bool" where
  "payload_ok TK_OPCODE (OpcodePtr _) = True"
| "payload_ok TK_OPCODE _ = False"
| "payload_ok TK_PSEUDOOP (PseudoOpPtr _) = True"
| "payload_ok TK_PSEUDOOP _ = False"
| "payload_ok _ (Raw _) = True"
| "payload_ok _ _ = False"

definition wf_token :: "Token \<Rightarrow> bool" where
  "wf_token tk \<longleftrightarrow> payload_ok (tk_type tk) (tk_payload tk)
     \<and> (tk_type tk = TK_REGISTER \<longrightarrow> u128_of tk < 32)"

lemma payload_ok_opcode: "payload_ok TK_OPCODE p \<longleftrightarrow> (\<exists>opc. p = OpcodePtr opc)"
  by (cases p) simp_all

lemma payload_ok_pseudo: "payload_ok TK_PSEUDOOP p \<longleftrightarrow> (\<exists>opc. p = PseudoOpPtr opc)"
  by (cases p) simp_all

lemma payload_ok_raw:
  "tt \<noteq> TK_OPCODE \<Longrightarrow> tt \<noteq> TK_PSEUDOOP \<Longrightarrow> payload_ok tt p \<longleftrightarrow> (\<exists>w. p = Raw w)"
  by (cases tt; cases p) simp_all

lemma Token_new_simps [simp]:
  "tk_type (Token_new tt) = tt" "tk_line (Token_new tt) = 0" "tk_value (Token_new tt) = []"
  "tk_payload (Token_new tt) = Raw 0" "u128_of (Token_new tt) = 0"
  by (simp_all add: Token_new_def u128_of_def)

lemma set_u128_simps [simp]:
  "tk_type (set_u128 w tk) = tk_type tk" "tk_line (set_u128 w tk) = tk_line tk"
  "tk_value (set_u128 w tk) = tk_value tk" "tk_payload (set_u128 w tk) = Raw w"
  "u128_of (set_u128 w tk) = w"
  by (simp_all add: set_u128_def u128_of_def)

lemma set_u64_simps [simp]:
  "tk_type (set_u64 v tk) = tk_type tk" "tk_line (set_u64 v tk) = tk_line tk"
  "tk_value (set_u64 v tk) = tk_value tk"
  "tk_payload (set_u64 v tk) = Raw ((u128_of tk AND NOT (mask 64)) OR ucast v)"
  by (simp_all add: set_u64_def)

lemma u64_of_set_u64 [simp]: "u64_of (set_u64 v tk) = v"
  unfolding u64_of_def u128_of_def
  by (simp, rule bit_word_eqI) (auto simp: bit_simps)

lemma i64_of_set_u64 [simp]: "i64_of (set_u64 v tk) = sint v"
  by (simp add: i64_of_def)

lemma tk_update_simps [simp]:
  "u128_of (tk\<lparr>tk_type := tt\<rparr>) = u128_of tk" "u128_of (tk\<lparr>tk_line := n\<rparr>) = u128_of tk"
  "u128_of (tk\<lparr>tk_value := s\<rparr>) = u128_of tk"
  by (simp_all add: u128_of_def)

end
