(* ===== verification/AssemblerState.thy ===== *)
theory AssemblerState
  imports Sections Tokens
begin

text \<open>
  \<^verbatim>\<open>assembler.hpp\<close> and the small operations of \<^verbatim>\<open>assemble.cpp\<close>: the state of the
  assembler, the token cursor, sections, labels, symbols and the schedule of work that
  waits for addresses. An operation is a function from the state to an error or a result
  with the new state; an exception loses the state, as it ends the program.
\<close>

section \<open>The state\<close>

record Options =
  opt_base :: u128
  opt_entry :: string
  opt_section_attr_page_separation :: bool
  opt_verbose_labels :: bool

definition default_options :: Options where
  "default_options =
     \<lparr>opt_base = 0x100000, opt_entry = ''_start'',
      opt_section_attr_page_separation = True, opt_verbose_labels = False\<rparr>"

text \<open>
  A symbol's location points to a section. Sections are never removed from their map, so
  the pointer is the section's name.
\<close>

record SymbolLocation =
  loc_section :: string
  loc_offset :: u64
  loc_type :: u32
  loc_size :: u64

definition SymbolLocation_new :: "string \<Rightarrow> u64 \<Rightarrow> SymbolLocation" where
  "SymbolLocation_new sec off = \<lparr>loc_section = sec, loc_offset = off, loc_type = 0, loc_size = 0\<rparr>"

text \<open>
  \<^verbatim>\<open>scheduled_op_t\<close>: the closures the code schedules, one constructor for each lambda,
  with the locations it captures.
\<close>

datatype scheduled_op =
    Op_endfunc SymbolLocation
  | Op_set_type u32
  | Op_size SymbolLocation SymbolLocation
  | Op_la SymbolLocation
  | Op_laq SymbolLocation
  | Op_branch SymbolLocation
  | Op_farcall SymbolLocation
  | Op_call SymbolLocation
  | Op_jmp SymbolLocation

text \<open>
  \<open>m_sections\<close> and \<open>m_schedule\<close> are \<^verbatim>\<open>std::map\<close>s and are kept in the order of their
  keys; \<open>m_lookup\<close> is an \<^verbatim>\<open>unordered_map\<close>, listed here in the order of insertion;
  \<open>m_globals\<close> is a \<^verbatim>\<open>std::set\<close>.
\<close>

record Assembler =
  options :: Options
  tokens :: "Token list"
  index :: nat
  m_current_section :: string
  m_sections :: "(string \<times> Section) list"
  m_lookup :: "(string \<times> SymbolLocation) list"
  m_schedule :: "(string \<times> scheduled_op list) list"
  m_globals :: "string list"
  m_realpath :: "string option"

section \<open>Operations on the state\<close>

type_synonym 'a M = "Assembler \<Rightarrow> error + 'a \<times> Assembler"

definition returnM :: "'a \<Rightarrow> 'a M" where
  [bind_simps]: "returnM a = (\<lambda>s. Inr (a, s))"

definition throwM :: "error \<Rightarrow> 'a M" where
  [bind_simps]: "throwM e = (\<lambda>s. Inl e)"

definition bindM :: "'a M \<Rightarrow> ('a \<Rightarrow> 'b M) \<Rightarrow> 'b M" where
  [bind_simps]: "bindM m f = (\<lambda>s. case m s of Inl e \<Rightarrow> Inl e | Inr (a, s') \<Rightarrow> f a s')"

definition getM :: "(Assembler \<Rightarrow> 'a) \<Rightarrow> 'a M" where
  [bind_simps]: "getM f = (\<lambda>s. Inr (f s, s))"

definition modifyM :: "(Assembler \<Rightarrow> Assembler) \<Rightarrow> unit M" where
  [bind_simps]: "modifyM f = (\<lambda>s. Inr ((), f s))"

definition liftR :: "'a result \<Rightarrow> 'a M" where
  [bind_simps]: "liftR r = (\<lambda>s. case r of Inl e \<Rightarrow> Inl e | Inr a \<Rightarrow> Inr (a, s))"

abbreviation thenM :: "'a M \<Rightarrow> 'b M \<Rightarrow> 'b M" where
  "thenM m n \<equiv> bindM m (\<lambda>_. n)"

text \<open>Run an operation on every element, in order.\<close>

fun forM :: "'a list \<Rightarrow> ('a \<Rightarrow> unit M) \<Rightarrow> unit M" where
  "forM [] f = returnM ()"
| "forM (x # xs) f = thenM (f x) (forM xs f)"

lemma bindM_Inr_iff:
  "bindM m f s = Inr (b, s') \<longleftrightarrow> (\<exists>a s1. m s = Inr (a, s1) \<and> f a s1 = Inr (b, s'))"
  by (auto simp: bindM_def split: sum.splits)

lemma bindM_Inl_iff:
  "bindM m f s = Inl e \<longleftrightarrow> m s = Inl e \<or> (\<exists>a s1. m s = Inr (a, s1) \<and> f a s1 = Inl e)"
  by (auto simp: bindM_def split: sum.splits)

lemma bindM_run: "m s = Inr (a, s1) \<Longrightarrow> bindM m f s = f a s1"
  by (simp add: bindM_def)

lemma bindM_fail: "m s = Inl e \<Longrightarrow> bindM m f s = Inl e"
  by (simp add: bindM_def)

lemma returnM_run [simp]: "returnM a s = Inr (a, s)"
  by (simp add: returnM_def)

lemma throwM_run [simp]: "throwM e s = Inl e"
  by (simp add: throwM_def)

lemma getM_run [simp]: "getM f s = Inr (f s, s)"
  by (simp add: getM_def)

lemma modifyM_run [simp]: "modifyM f s = Inr ((), f s)"
  by (simp add: modifyM_def)

lemma liftR_run [simp]: "liftR (Inl e) s = Inl e" "liftR (Inr a) s = Inr (a, s)"
  by (simp_all add: liftR_def)

section \<open>What an operation keeps\<close>

text \<open>
  \<open>keeps R m\<close>: whenever the operation \<open>m\<close> returns, the state before and the state after
  are related by \<open>R\<close>. For a reflexive and transitive relation this is closed under
  everything programs are made of, so that a fact about each primitive operation gives
  the fact about every handler composed of them.
\<close>

definition keeps :: "(Assembler \<Rightarrow> Assembler \<Rightarrow> bool) \<Rightarrow> 'a M \<Rightarrow> bool" where
  "keeps R m \<longleftrightarrow> (\<forall>s a s'. m s = Inr (a, s') \<longrightarrow> R s s')"

lemma keepsI: "(\<And>s a s'. m s = Inr (a, s') \<Longrightarrow> R s s') \<Longrightarrow> keeps R m"
  by (auto simp: keeps_def)

lemma keepsD: "keeps R m \<Longrightarrow> m s = Inr (a, s') \<Longrightarrow> R s s'"
  by (auto simp: keeps_def)

locale state_preorder =
  fixes R :: "Assembler \<Rightarrow> Assembler \<Rightarrow> bool"
  assumes R_refl: "R s s"
    and R_trans: "R s t \<Longrightarrow> R t u \<Longrightarrow> R s u"
begin

lemma keeps_return: "keeps R (returnM a)"
  by (auto simp: keeps_def R_refl)

lemma keeps_throw: "keeps R (throwM e)"
  by (auto simp: keeps_def)

lemma keeps_get: "keeps R (getM f)"
  by (auto simp: keeps_def R_refl)

lemma keeps_lift: "keeps R (liftR r)"
  by (cases r) (auto simp: keeps_def R_refl)

lemma keeps_bind: "keeps R m \<Longrightarrow> (\<And>a. keeps R (f a)) \<Longrightarrow> keeps R (bindM m f)"
  unfolding keeps_def bindM_Inr_iff by (blast intro: R_trans)

lemma keeps_if: "(b \<Longrightarrow> keeps R m) \<Longrightarrow> (\<not> b \<Longrightarrow> keeps R n) \<Longrightarrow> keeps R (if b then m else n)"
  by simp

lemma keeps_case_option:
  "(x = None \<Longrightarrow> keeps R m) \<Longrightarrow> (\<And>a. x = Some a \<Longrightarrow> keeps R (f a)) \<Longrightarrow>
   keeps R (case x of None \<Rightarrow> m | Some a \<Rightarrow> f a)"
  by (cases x) auto

lemma keeps_for: "(\<And>x. x \<in> set xs \<Longrightarrow> keeps R (f x)) \<Longrightarrow> keeps R (forM xs f)"
  by (induction xs) (auto intro: keeps_return keeps_bind)

lemma keeps_modify: "(\<And>s. R s (g s)) \<Longrightarrow> keeps R (modifyM g)"
  by (auto simp: keeps_def)

lemmas keeps_intros =
  keeps_return keeps_throw keeps_get keeps_lift keeps_bind keeps_if keeps_case_option keeps_for

end

section \<open>The token cursor\<close>

definition done_tokens :: "Assembler \<Rightarrow> bool" where
  "done_tokens s \<longleftrightarrow> index s \<ge> length (tokens s)"

definition next_token :: "Token M" where
  "next_token = (\<lambda>s.
     if index s < length (tokens s) then Inr (tokens s ! index s, s\<lparr>index := Suc (index s)\<rparr>)
     else Inl OutOfRange)"

definition token_exception :: "Token \<Rightarrow> 'a M" where
  "token_exception tk = throwM (RuntimeError (''Token: '' @ Token_to_string tk))"

text \<open>The message for standard error is not modelled, only the exception.\<close>

definition argument_mismatch :: "Token \<Rightarrow> TokenType \<Rightarrow> 'a M" where
  "argument_mismatch tk T = token_exception tk"

definition next_tk :: "TokenType \<Rightarrow> Token M" where
  "next_tk T = bindM next_token (\<lambda>tk.
     if tk_type tk \<noteq> T then argument_mismatch tk T else returnM tk)"

definition next_is :: "TokenType \<Rightarrow> Assembler \<Rightarrow> bool" where
  "next_is tt s = (if done_tokens s then False else tk_type (tokens s ! index s) = tt)"

section \<open>Sections\<close>

definition find_section :: "Assembler \<Rightarrow> string \<Rightarrow> Section option" where
  "find_section s name = om_find (m_sections s) name"

text \<open>
  The section a pointer refers to. Every name that the state holds is in the map, which
  the invariant \<open>wf_assembler\<close> below states; the default is never reached.
\<close>

definition the_section :: "Assembler \<Rightarrow> string \<Rightarrow> Section" where
  "the_section s name =
     (case find_section s name of Some sec \<Rightarrow> sec | None \<Rightarrow> Section_new name 0)"

definition put_section :: "string \<Rightarrow> Section \<Rightarrow> Assembler \<Rightarrow> Assembler" where
  "put_section name sec s = s\<lparr>m_sections := om_put name sec (m_sections s)\<rparr>"

definition current_section :: "Assembler \<Rightarrow> Section" where
  "current_section s = the_section s (m_current_section s)"

text \<open>\<^verbatim>\<open>Assembler::section\<close>: find, or create with the next index.\<close>

definition section_named :: "string \<Rightarrow> unit M" where
  "section_named name = modifyM (\<lambda>s.
     case find_section s name of
       Some _ \<Rightarrow> s
     | None \<Rightarrow> put_section name (Section_new name (length (m_sections s))) s)"

definition set_section :: "string \<Rightarrow> unit M" where
  "set_section name =
     thenM (section_named name) (modifyM (\<lambda>s. s\<lparr>m_current_section := name\<rparr>))"

text \<open>An operation of the current section, which may throw.\<close>

definition on_current :: "(Section \<Rightarrow> Section result) \<Rightarrow> unit M" where
  "on_current f = bindM (getM current_section) (\<lambda>sec.
     bindM (liftR (f sec)) (\<lambda>sec'.
       modifyM (\<lambda>s. put_section (m_current_section s) sec' s)))"

definition add_output :: "OutputType \<Rightarrow> u8 list \<Rightarrow> unit M" where
  "add_output ot bytes = on_current (Section_add_output ot bytes)"

definition allocate :: "u64 \<Rightarrow> unit M" where
  "allocate len = on_current (Section_allocate len)"

definition align :: "u64 \<Rightarrow> unit M" where
  "align alignment = on_current (Section_align alignment)"

definition current_location :: "Assembler \<Rightarrow> SymbolLocation" where
  "current_location s =
     SymbolLocation_new (m_current_section s) (Section_size (current_section s))"

section \<open>Symbols and labels\<close>

definition find_symbol :: "Assembler \<Rightarrow> string \<Rightarrow> SymbolLocation option" where
  "find_symbol s name = map_of (m_lookup s) name"

definition symbol_is_known :: "Assembler \<Rightarrow> Token \<Rightarrow> bool" where
  "symbol_is_known s tk \<longleftrightarrow> find_symbol s (tk_value tk) \<noteq> None"

text \<open>\<^verbatim>\<open>emplace\<close> does not replace an entry: the first definition of a symbol stays.\<close>

definition add_symbol_here :: "string \<Rightarrow> unit M" where
  "add_symbol_here name = modifyM (\<lambda>s.
     case find_symbol s name of
       Some _ \<Rightarrow> s
     | None \<Rightarrow> s\<lparr>m_lookup := m_lookup s @ [(name, current_location s)]\<rparr>)"

definition location_address :: "Assembler \<Rightarrow> SymbolLocation \<Rightarrow> u128" where
  "location_address s loc = Section_address_at (the_section s (loc_section loc)) (loc_offset loc)"

definition address_of :: "string \<Rightarrow> u128 M" where
  "address_of name = bindM (getM (\<lambda>s. find_symbol s name)) (\<lambda>f.
     case f of
       Some loc \<Rightarrow> getM (\<lambda>s. location_address s loc)
     | None \<Rightarrow> throwM (RuntimeError (''No such symbol: '' @ name)))"

definition address_of_token :: "Token \<Rightarrow> u128 M" where
  "address_of_token tk = bindM (getM (\<lambda>s. find_symbol s (tk_value tk))) (\<lambda>f.
     case f of
       Some loc \<Rightarrow> getM (\<lambda>s. location_address s loc)
     | None \<Rightarrow> token_exception tk)"

definition make_global :: "string \<Rightarrow> unit M" where
  "make_global name = modifyM (\<lambda>s. s\<lparr>m_globals := os_insert name (m_globals s)\<rparr>)"

definition schedule :: "string \<Rightarrow> scheduled_op \<Rightarrow> unit M" where
  "schedule name opn = modifyM (\<lambda>s.
     let ops = (case om_find (m_schedule s) name of Some os \<Rightarrow> os | None \<Rightarrow> [])
     in s\<lparr>m_schedule := om_put name (ops @ [opn]) (m_schedule s)\<rparr>)"

definition symbol_set_type :: "string \<Rightarrow> u32 \<Rightarrow> unit M" where
  "symbol_set_type name t = schedule name (Op_set_type t)"

definition add_label_soon :: "string \<Rightarrow> unit M" where
  "add_label_soon name = on_current (\<lambda>sec. Inr (Section_add_label_soon name sec))"

text \<open>
  \<^verbatim>\<open>Section::align_with_labels\<close> of the section with the given name. A waiting label is
  added by \<^verbatim>\<open>Assembler::add_symbol_here\<close>, which takes the location from the current
  section of the assembler, whichever section the label waits in.
\<close>

definition Section_align_with_labels :: "string \<Rightarrow> u64 \<Rightarrow> unit M" where
  "Section_align_with_labels name alignment =
     thenM (if alignment > 1
            then bindM (getM (\<lambda>s. the_section s name)) (\<lambda>sec.
                   bindM (liftR (Section_align alignment sec)) (\<lambda>sec'.
                     modifyM (put_section name sec')))
            else returnM ())
     (bindM (getM (\<lambda>s. m_label_queue (the_section s name))) (\<lambda>labels.
        thenM (forM labels add_symbol_here)
          (modifyM (\<lambda>s. put_section name ((the_section s name)\<lparr>m_label_queue := []\<rparr>) s))))"

definition align_with_labels :: "u64 \<Rightarrow> unit M" where
  "align_with_labels alignment =
     bindM (getM m_current_section) (\<lambda>cur. Section_align_with_labels cur alignment)"

text \<open>The constructor: the default section is \<^verbatim>\<open>.text\<close>, at the base address.\<close>

definition Assembler_new :: "Options \<Rightarrow> Assembler" where
  "Assembler_new opt =
     \<lparr>options = opt, tokens = [], index = 0, m_current_section = ''.text'',
      m_sections = [(''.text'', Section_set_base_address (opt_base opt) (Section_new ''.text'' 0))],
      m_lookup = [], m_schedule = [], m_globals = [], m_realpath = None\<rparr>"

end
