(* ===== verification/AssemblerInvariant.thy ===== *)
theory AssemblerInvariant
  imports AssemblerState
begin

text \<open>
  What the operations of the assembler keep: the well-formedness of the state, and the
  growth of its tables. Each primitive operation is shown to keep both; the composition
  rules of \<open>state_preorder\<close> then carry them to every handler.
\<close>

section \<open>Well-formed states\<close>

text \<open>
  The sections are listed by name, each under its own name, no larger than a vector can
  be, and their indices are the numbers below their count: section \<open>i\<close> is the one
  created as number \<open>i\<close>.
\<close>

definition sections_ok :: "(string \<times> Section) list \<Rightarrow> bool" where
  "sections_ok m \<longleftrightarrow>
     sorted_wrt (<) (om_keys m) \<and>
     (\<forall>(name, sec) \<in> set m. m_name sec = name \<and> section_ok sec) \<and>
     set (map (m_idx \<circ> snd) m) = {..<length m}"

fun op_sections :: "scheduled_op \<Rightarrow> string set" where
  "op_sections (Op_endfunc l) = {loc_section l}"
| "op_sections (Op_set_type t) = {}"
| "op_sections (Op_size l d) = {loc_section l, loc_section d}"
| "op_sections (Op_la l) = {loc_section l}"
| "op_sections (Op_laq l) = {loc_section l}"
| "op_sections (Op_branch l) = {loc_section l}"
| "op_sections (Op_farcall l) = {loc_section l}"
| "op_sections (Op_call l) = {loc_section l}"
| "op_sections (Op_jmp l) = {loc_section l}"

definition section_names :: "Assembler \<Rightarrow> string set" where
  "section_names s = set (om_keys (m_sections s))"

definition wf_assembler :: "Assembler \<Rightarrow> bool" where
  "wf_assembler s \<longleftrightarrow>
     sections_ok (m_sections s) \<and>
     m_current_section s \<in> section_names s \<and>
     distinct (map fst (m_lookup s)) \<and>
     (\<forall>(name, loc) \<in> set (m_lookup s). loc_section loc \<in> section_names s) \<and>
     sorted_wrt (<) (om_keys (m_schedule s)) \<and>
     (\<forall>(name, ops) \<in> set (m_schedule s). \<forall>opn \<in> set ops. op_sections opn \<subseteq> section_names s) \<and>
     sorted_wrt (<) (m_globals s)"

text \<open>
  Tables only grow: a section keeps its number, a symbol keeps its first definition, and
  the globals stay. The options never change.
\<close>

definition grows :: "Assembler \<Rightarrow> Assembler \<Rightarrow> bool" where
  "grows s s' \<longleftrightarrow>
     options s' = options s \<and>
     (\<forall>n sec. find_section s n = Some sec \<longrightarrow>
        (\<exists>sec'. find_section s' n = Some sec' \<and> m_idx sec' = m_idx sec)) \<and>
     (\<forall>n loc. find_symbol s n = Some loc \<longrightarrow> find_symbol s' n = Some loc) \<and>
     (\<forall>n ops. om_find (m_schedule s) n = Some ops \<longrightarrow>
        (\<exists>new. om_find (m_schedule s') n = Some (ops @ new))) \<and>
     set (m_globals s) \<subseteq> set (m_globals s')"

lemma grows_refl: "grows s s"
  by (auto simp: grows_def)

lemma grows_trans:
  assumes "grows s t" and "grows t u"
  shows "grows s u"
  unfolding grows_def
proof (intro conjI allI impI)
  show "options u = options s" using assms by (simp add: grows_def)
  show "set (m_globals s) \<subseteq> set (m_globals u)" using assms by (auto simp: grows_def)
  show "find_symbol u n = Some loc" if "find_symbol s n = Some loc" for n loc
    using assms that by (auto simp: grows_def)
  show "\<exists>sec'. find_section u n = Some sec' \<and> m_idx sec' = m_idx sec"
    if "find_section s n = Some sec" for n sec
    using assms that unfolding grows_def by metis
  show "\<exists>new. om_find (m_schedule u) n = Some (ops @ new)"
    if "om_find (m_schedule s) n = Some ops" for n ops
  proof -
    from assms(1) that obtain a where "om_find (m_schedule t) n = Some (ops @ a)"
      unfolding grows_def by blast
    then obtain b where "om_find (m_schedule u) n = Some ((ops @ a) @ b)"
      using assms(2) unfolding grows_def by blast
    then show ?thesis by auto
  qed
qed

text \<open>
  Both together, for operations of a section with a given name: as long as that section
  exists, the state stays well-formed.
\<close>

definition evolves_in :: "string \<Rightarrow> Assembler \<Rightarrow> Assembler \<Rightarrow> bool" where
  "evolves_in name s s' \<longleftrightarrow>
     grows s s' \<and>
     (wf_assembler s \<and> name \<in> section_names s \<longrightarrow>
      wf_assembler s' \<and> name \<in> section_names s')"

definition evolves :: "Assembler \<Rightarrow> Assembler \<Rightarrow> bool" where
  "evolves s s' \<longleftrightarrow> grows s s' \<and> (wf_assembler s \<longrightarrow> wf_assembler s')"

interpretation evolution: state_preorder evolves
  by unfold_locales (auto simp: evolves_def intro: grows_refl grows_trans)

interpretation evolution_in: state_preorder "evolves_in name" for name
  by unfold_locales (auto simp: evolves_in_def intro: grows_refl grows_trans)

text \<open>The cursor only moves forward over the same tokens.\<close>

definition advances :: "Assembler \<Rightarrow> Assembler \<Rightarrow> bool" where
  "advances s s' \<longleftrightarrow> tokens s' = tokens s \<and> index s \<le> index s' \<and> m_realpath s' = m_realpath s"

interpretation cursor: state_preorder advances
  by unfold_locales (auto simp: advances_def)

section \<open>Sections\<close>

lemma find_section_names: "find_section s n \<noteq> None \<longleftrightarrow> n \<in> section_names s"
  using om.find_keys [of "m_sections s" n] by (simp add: find_section_def section_names_def)

lemma the_section_find: "find_section s n = Some sec \<Longrightarrow> the_section s n = sec"
  by (simp add: the_section_def)

lemma wf_current:
  assumes "wf_assembler s"
  obtains sec where "find_section s (m_current_section s) = Some sec"
    and "current_section s = sec" and "section_ok sec" and "m_name sec = m_current_section s"
proof -
  have "find_section s (m_current_section s) \<noteq> None"
    using assms by (simp only: find_section_names wf_assembler_def)
  then obtain sec where f: "find_section s (m_current_section s) = Some sec" by blast
  then have "(m_current_section s, sec) \<in> set (m_sections s)"
    by (simp add: find_section_def map_of_SomeD)
  with assms f show thesis
    by (intro that [of sec])
      (auto simp: wf_assembler_def sections_ok_def current_section_def the_section_find)
qed

lemma wf_section_ok:
  "wf_assembler s \<Longrightarrow> find_section s n = Some sec \<Longrightarrow> section_ok sec \<and> m_name sec = n"
  by (auto simp: wf_assembler_def sections_ok_def find_section_def dest!: map_of_SomeD)

lemma put_section_simps [simp]:
  "options (put_section n sec s) = options s" "tokens (put_section n sec s) = tokens s"
  "index (put_section n sec s) = index s" "m_lookup (put_section n sec s) = m_lookup s"
  "m_current_section (put_section n sec s) = m_current_section s"
  "m_schedule (put_section n sec s) = m_schedule s"
  "m_globals (put_section n sec s) = m_globals s"
  "m_realpath (put_section n sec s) = m_realpath s"
  "find_symbol (put_section n sec s) x = find_symbol s x"
  by (simp_all add: put_section_def find_symbol_def)

lemma find_put_section:
  "find_section (put_section n sec s) = (find_section s)(n \<mapsto> sec)"
  by (simp add: find_section_def put_section_def om_find_put fun_eq_iff)

lemma the_section_put [simp]:
  "the_section (put_section n sec s) m = (if m = n then sec else the_section s m)"
  by (simp add: the_section_def find_put_section)

lemma section_names_put [simp]: "section_names (put_section n sec s) = insert n (section_names s)"
  using om_set_keys [of n sec "m_sections s"] by (simp add: section_names_def put_section_def)

lemma sections_ok_replace:
  assumes "sections_ok m" and "om_find m n = Some sec"
    and "section_ok sec'" and "m_name sec' = n" and "m_idx sec' = m_idx sec"
  shows "sections_ok (om_put n sec' m)"
proof -
  have sorted: "sorted_wrt (<) (om_keys m)" using assms(1) by (simp add: sections_ok_def)
  have "map (m_idx \<circ> snd) (om_put n sec' m) = map (m_idx \<circ> snd) m"
    using sorted assms(2,5) by (rule om_put_present_attr)
  moreover have "length (om_put n sec' m) = length m"
    using om.keys_put_present [OF sorted, of n sec'] assms(2) by (metis length_map option.distinct(1))
  moreover have "\<forall>(name, sec) \<in> set (om_put n sec' m). m_name sec = name \<and> section_ok sec"
    using assms(1,3,4) by (auto simp: sections_ok_def dest!: om_put_set)
  ultimately show ?thesis
    using assms(1) om_sorted_put [OF sorted] by (simp add: sections_ok_def)
qed

lemma sections_ok_create:
  assumes "sections_ok m" and "om_find m n = None"
  shows "sections_ok (om_put n (Section_new n (length m)) m)"
proof -
  have "set (map (m_idx \<circ> snd) (om_put n (Section_new n (length m)) m)) = {..<Suc (length m)}"
    using assms(1) by (subst om_put_fresh_attr [OF assms(2)])
      (auto simp: sections_ok_def Section_new_def)
  moreover have "\<forall>(name, sec) \<in> set (om_put n (Section_new n (length m)) m).
      m_name sec = name \<and> section_ok sec"
    using assms(1) by (auto simp: sections_ok_def Section_new_def dest!: om_put_set)
      (simp add: section_ok_def)
  ultimately show ?thesis
    using assms by (simp add: sections_ok_def om_sorted_put om_put_fresh_length)
qed

lemma m_sections_put [simp]: "m_sections (put_section n sec s) = om_put n sec (m_sections s)"
  by (simp add: put_section_def)

lemma wf_put_ok:
  assumes "wf_assembler s" and "sections_ok (om_put n sec (m_sections s))"
  shows "wf_assembler (put_section n sec s)"
  using assms unfolding wf_assembler_def by fastforce

lemma wf_put_section:
  assumes "wf_assembler s" and "find_section s n = Some sec"
    and "section_ok sec'" and "m_name sec' = n" and "m_idx sec' = m_idx sec"
  shows "wf_assembler (put_section n sec' s)"
proof (rule wf_put_ok [OF assms(1)])
  show "sections_ok (om_put n sec' (m_sections s))"
    using assms by (intro sections_ok_replace [of "m_sections s" n sec sec'])
      (simp_all add: wf_assembler_def find_section_def)
qed

text \<open>What a section's own operation has to keep.\<close>

definition section_op :: "(Section \<Rightarrow> Section result) \<Rightarrow> bool" where
  "section_op f \<longleftrightarrow>
     (\<forall>sec sec'. f sec = Inr sec' \<longrightarrow>
        m_idx sec' = m_idx sec \<and> m_name sec' = m_name sec \<and>
        (section_ok sec \<longrightarrow> section_ok sec'))"

lemma section_op_add_output: "section_op (Section_add_output ot bytes)"
  unfolding section_op_def
  by (auto dest: add_output_ok) (auto simp: Section_add_output_def bindR_Inr_iff)

lemma section_op_allocate: "section_op (Section_allocate len)"
  unfolding section_op_def
  by (auto dest: allocate_ok) (auto simp: Section_allocate_def bindR_Inr_iff)

lemma section_op_align: "section_op (Section_align a)"
  unfolding section_op_def
  by (auto dest: align_ok) (auto simp: Section_align_def bindR_Inr_iff Let_def split: if_splits)

lemma section_op_pure:
  assumes "\<And>sec. m_idx (g sec) = m_idx sec" and "\<And>sec. m_name (g sec) = m_name sec"
    and "\<And>sec. sec_output (g sec) = sec_output sec"
  shows "section_op (\<lambda>sec. Inr (g sec))"
  using assms by (simp add: section_op_def section_ok_def)

lemma on_current_run:
  "on_current f s =
     (case f (current_section s) of Inl e \<Rightarrow> Inl e
      | Inr sec' \<Rightarrow> Inr ((), put_section (m_current_section s) sec' s))"
  by (auto simp: on_current_def bind_simps split: sum.splits)

lemma grows_put:
  "(\<And>sec. find_section s n = Some sec \<Longrightarrow> m_idx sec' = m_idx sec) \<Longrightarrow> grows s (put_section n sec' s)"
  by (auto simp: grows_def find_put_section)

lemma on_current_evolves:
  assumes "section_op f"
  shows "keeps evolves (on_current f)"
proof (rule keepsI)
  fix s a s'
  assume "on_current f s = Inr (a, s')"
  then obtain sec' where f: "f (current_section s) = Inr sec'"
    and s': "s' = put_section (m_current_section s) sec' s"
    by (auto simp: on_current_run split: sum.splits)
  have op: "m_idx sec' = m_idx (current_section s) \<and> m_name sec' = m_name (current_section s)
      \<and> (section_ok (current_section s) \<longrightarrow> section_ok sec')"
    using assms f by (simp add: section_op_def)
  have "grows s s'"
    unfolding s' using op by (intro grows_put) (simp add: current_section_def the_section_find)
  moreover have "wf_assembler s'" if wf: "wf_assembler s"
  proof -
    from wf obtain sec where sec: "find_section s (m_current_section s) = Some sec"
        "current_section s = sec" "section_ok sec" "m_name sec = m_current_section s"
      by (rule wf_current)
    with op show ?thesis unfolding s' by (intro wf_put_section [OF wf sec(1)]) simp_all
  qed
  ultimately show "evolves s s'" by (simp add: evolves_def)
qed

lemma section_named_evolves: "keeps evolves (section_named n)"
proof (rule keepsI)
  fix s a s'
  assume "section_named n s = Inr (a, s')"
  then have s': "s' = (case find_section s n of Some _ \<Rightarrow> s
      | None \<Rightarrow> put_section n (Section_new n (length (m_sections s))) s)"
    by (simp add: section_named_def)
  show "evolves s s'"
  proof (cases "find_section s n")
    case (Some sec)
    then show ?thesis by (simp add: s' evolution.R_refl)
  next
    case None
    have "wf_assembler s'" if wf: "wf_assembler s"
    proof -
      have "sections_ok (om_put n (Section_new n (length (m_sections s))) (m_sections s))"
        using wf None by (simp add: wf_assembler_def find_section_def sections_ok_create)
      with None show ?thesis by (simp add: s' wf_put_ok [OF wf])
    qed
    with None show ?thesis
      unfolding evolves_def s' by (auto intro: grows_put)
  qed
qed

text \<open>Moving the cursor, or changing the current section to one that exists.\<close>

lemma evolves_same_tables:
  assumes "options s' = options s" "m_sections s' = m_sections s" "m_lookup s' = m_lookup s"
    "m_schedule s' = m_schedule s" "m_globals s' = m_globals s"
    "m_current_section s' = m_current_section s"
  shows "evolves s s'"
  using assms
  by (simp add: evolves_def grows_def find_section_def find_symbol_def wf_assembler_def
      section_names_def)

lemma next_token_evolves: "keeps evolves next_token"
  by (auto simp: keeps_def next_token_def intro!: evolves_same_tables split: if_splits)

lemma next_tk_evolves: "keeps evolves (next_tk T)"
  unfolding next_tk_def argument_mismatch_def token_exception_def
  by (intro evolution.keeps_intros next_token_evolves)

lemma set_section_evolves: "keeps evolves (set_section n)"
proof (rule keepsI)
  fix s a s'
  assume "set_section n s = Inr (a, s')"
  then obtain s1 where s1: "section_named n s = Inr ((), s1)"
    and s': "s' = s1\<lparr>m_current_section := n\<rparr>"
    by (auto simp: set_section_def bindM_Inr_iff)
  have ev: "evolves s s1" using section_named_evolves s1 by (rule keepsD)
  have n: "n \<in> section_names s1"
    using s1 find_section_names [of s n] by (auto simp: section_named_def split: option.splits)
  show "evolves s s'"
    using ev n unfolding s' evolves_def
    by (auto simp: grows_def find_section_def find_symbol_def wf_assembler_def section_names_def)
qed

lemma make_global_evolves: "keeps evolves (make_global n)"
  unfolding make_global_def
  by (rule evolution.keeps_modify)
    (auto simp: evolves_def grows_def find_section_def find_symbol_def wf_assembler_def
      section_names_def intro: sorted_os_insert)

lemma find_symbol_append:
  "find_symbol (s\<lparr>m_lookup := m_lookup s @ [(n, loc)]\<rparr>) m =
     (case find_symbol s m of Some l \<Rightarrow> Some l | None \<Rightarrow> if m = n then Some loc else None)"
  by (simp add: find_symbol_def map_add_def split: option.splits)

lemma current_location_section [simp]: "loc_section (current_location s) = m_current_section s"
  by (simp add: current_location_def SymbolLocation_new_def)

lemma add_symbol_here_evolves: "keeps evolves (add_symbol_here n)"
  unfolding add_symbol_here_def
proof (rule evolution.keeps_modify)
  fix s
  show "evolves s (case find_symbol s n of Some _ \<Rightarrow> s
      | None \<Rightarrow> s\<lparr>m_lookup := m_lookup s @ [(n, current_location s)]\<rparr>)"
  proof (cases "find_symbol s n")
    case (Some loc)
    then show ?thesis by (simp add: evolution.R_refl)
  next
    case None
    let ?s = "s\<lparr>m_lookup := m_lookup s @ [(n, current_location s)]\<rparr>"
    have "grows s ?s"
      unfolding grows_def find_symbol_append by (simp add: find_section_def)
    moreover have "wf_assembler ?s" if "wf_assembler s"
      using that None by (auto simp: wf_assembler_def section_names_def find_symbol_def map_of_eq_None_iff)
    ultimately show ?thesis using None by (simp add: evolves_def)
  qed
qed

text \<open>A scheduled operation may only refer to sections that exist.\<close>

lemma schedule_grows:
  assumes "schedule n opn s = Inr (a, s')"
  shows "grows s s'"
proof -
  have s': "s' = s\<lparr>m_schedule := om_put n ((case om_find (m_schedule s) n of Some os \<Rightarrow> os
      | None \<Rightarrow> []) @ [opn]) (m_schedule s)\<rparr>"
    using assms by (simp add: schedule_def Let_def)
  show ?thesis
    unfolding grows_def s' by (auto simp: find_section_def find_symbol_def om_find_put)
qed

lemma schedule_evolves:
  assumes ops: "wf_assembler s \<Longrightarrow> op_sections opn \<subseteq> section_names s"
    and sched: "schedule n opn s = Inr (a, s')"
  shows "evolves s s'"
proof -
  define ops where "ops = (case om_find (m_schedule s) n of Some os \<Rightarrow> os | None \<Rightarrow> [])"
  have s': "s' = s\<lparr>m_schedule := om_put n (ops @ [opn]) (m_schedule s)\<rparr>"
    using sched by (simp add: schedule_def ops_def Let_def)
  have "wf_assembler s'" if wf: "wf_assembler s"
  proof -
    have "\<forall>opn \<in> set ops. op_sections opn \<subseteq> section_names s"
      using wf unfolding ops_def wf_assembler_def
      by (fastforce split: option.splits dest: map_of_SomeD)
    then have "\<forall>(name, os) \<in> set (om_put n (ops @ [opn]) (m_schedule s)).
        \<forall>opn \<in> set os. op_sections opn \<subseteq> section_names s"
      using wf ops [OF wf] unfolding wf_assembler_def by (fastforce dest!: om_put_set)
    with wf show ?thesis
      unfolding s' wf_assembler_def by (simp add: section_names_def om_sorted_put)
  qed
  with schedule_grows [OF sched] show ?thesis by (simp add: evolves_def)
qed

section \<open>Labels\<close>

text \<open>An operation on the section with a given name.\<close>

lemma put_named_evolves:
  assumes "m_idx sec' = m_idx (the_section s n)" and "m_name sec' = m_name (the_section s n)"
    and "section_ok (the_section s n) \<Longrightarrow> section_ok sec'"
  shows "evolves_in n s (put_section n sec' s)"
proof -
  have "grows s (put_section n sec' s)"
    using assms(1) by (intro grows_put) (simp add: the_section_find)
  moreover have "wf_assembler (put_section n sec' s)"
    if wf: "wf_assembler s" and n: "n \<in> section_names s"
  proof -
    obtain sec where sec: "find_section s n = Some sec" using n find_section_names by blast
    with assms wf_section_ok [OF wf sec] show ?thesis
      by (intro wf_put_section [OF wf sec]) (simp_all add: the_section_find)
  qed
  ultimately show ?thesis by (simp add: evolves_in_def)
qed

lemma evolves_in_weaken:
  assumes "evolves s s'"
  shows "evolves_in n s s'"
proof -
  have "n \<in> section_names s'" if "n \<in> section_names s"
    using assms that find_section_names [of s n] find_section_names [of s' n]
    unfolding evolves_def grows_def by blast
  with assms show ?thesis by (simp add: evolves_def evolves_in_def)
qed

lemma realign_evolves:
  "keeps (evolves_in n) (bindM (getM (\<lambda>s. the_section s n)) (\<lambda>sec.
      bindM (liftR (Section_align a sec)) (\<lambda>sec'. modifyM (put_section n sec'))))"
proof (rule keepsI)
  fix s b s'
  assume "bindM (getM (\<lambda>s. the_section s n)) (\<lambda>sec.
    bindM (liftR (Section_align a sec)) (\<lambda>sec'. modifyM (put_section n sec'))) s = Inr (b, s')"
  then obtain sec' where "Section_align a (the_section s n) = Inr sec'"
    and s': "s' = put_section n sec' s"
    by (auto simp: bind_simps split: sum.splits)
  with section_op_align [of a] show "evolves_in n s s'"
    unfolding s' by (intro put_named_evolves) (auto simp: section_op_def)
qed

lemma attach_labels_evolves:
  "keeps (evolves_in n) (bindM (getM (\<lambda>s. m_label_queue (the_section s n))) (\<lambda>labels.
      thenM (forM labels add_symbol_here)
        (modifyM (\<lambda>s. put_section n ((the_section s n)\<lparr>m_label_queue := []\<rparr>) s))))"
proof (intro evolution_in.keeps_bind evolution_in.keeps_for evolution_in.keeps_get
    evolution_in.keeps_modify)
  show "keeps (evolves_in n) (add_symbol_here x)" for x
    using add_symbol_here_evolves evolves_in_weaken by (auto simp: keeps_def)
  show "evolves_in n s (put_section n ((the_section s n)\<lparr>m_label_queue := []\<rparr>) s)" for s
    by (rule put_named_evolves) (simp_all add: section_ok_def)
qed

lemma Section_align_with_labels_evolves:
  "keeps (evolves_in n) (Section_align_with_labels n a)"
  unfolding Section_align_with_labels_def
  by (rule evolution_in.keeps_bind [OF evolution_in.keeps_if attach_labels_evolves])
    (rule realign_evolves evolution_in.keeps_return)+

lemma align_with_labels_evolves: "keeps evolves (align_with_labels a)"
proof (rule keepsI)
  fix s b s'
  assume "align_with_labels a s = Inr (b, s')"
  then have "Section_align_with_labels (m_current_section s) a s = Inr (b, s')"
    by (simp add: align_with_labels_def bindM_def)
  then have "evolves_in (m_current_section s) s s'"
    by (rule keepsD [OF Section_align_with_labels_evolves])
  then show "evolves s s'"
    by (auto simp: evolves_in_def evolves_def wf_assembler_def)
qed

lemma add_output_evolves: "keeps evolves (add_output ot bytes)"
  unfolding add_output_def by (intro on_current_evolves section_op_add_output)

lemma allocate_evolves: "keeps evolves (allocate len)"
  unfolding allocate_def by (intro on_current_evolves section_op_allocate)

lemma align_evolves: "keeps evolves (align a)"
  unfolding align_def by (intro on_current_evolves section_op_align)

lemma add_label_soon_evolves: "keeps evolves (add_label_soon name)"
  unfolding add_label_soon_def
  by (intro on_current_evolves section_op_pure) (simp_all add: Section_add_label_soon_def)

lemmas primitive_evolves =
  next_token_evolves next_tk_evolves set_section_evolves make_global_evolves
  add_symbol_here_evolves align_with_labels_evolves add_output_evolves allocate_evolves
  align_evolves add_label_soon_evolves

section \<open>The cursor\<close>

lemma next_token_advances: "keeps advances next_token"
  by (auto simp: keeps_def next_token_def advances_def split: if_splits)

lemma next_tk_advances: "keeps advances (next_tk T)"
  unfolding next_tk_def argument_mismatch_def token_exception_def
  by (intro cursor.keeps_intros next_token_advances)

lemma on_current_advances: "keeps advances (on_current f)"
  by (auto simp: keeps_def on_current_run advances_def split: sum.splits)

lemma modify_tables_advances:
  assumes "\<And>s. tokens (g s) = tokens s" "\<And>s. index (g s) = index s" "\<And>s. m_realpath (g s) = m_realpath s"
  shows "keeps advances (modifyM g)"
  by (rule cursor.keeps_modify) (simp add: advances_def assms)

lemma section_named_advances: "keeps advances (section_named n)"
  unfolding section_named_def by (rule modify_tables_advances) (simp_all split: option.splits)

lemma set_section_advances: "keeps advances (set_section n)"
  unfolding set_section_def
  by (intro cursor.keeps_bind section_named_advances modify_tables_advances) simp_all

lemma make_global_advances: "keeps advances (make_global n)"
  unfolding make_global_def by (rule modify_tables_advances) simp_all

lemma add_symbol_here_advances: "keeps advances (add_symbol_here n)"
  unfolding add_symbol_here_def by (rule modify_tables_advances) (simp_all split: option.splits)

lemma schedule_advances: "keeps advances (schedule n opn)"
  unfolding schedule_def by (rule modify_tables_advances) (simp_all add: Let_def)

lemma Section_align_with_labels_advances: "keeps advances (Section_align_with_labels n a)"
  unfolding Section_align_with_labels_def
  by (intro cursor.keeps_intros add_symbol_here_advances modify_tables_advances) simp_all

lemma align_with_labels_advances: "keeps advances (align_with_labels a)"
  unfolding align_with_labels_def
  by (intro cursor.keeps_intros Section_align_with_labels_advances)

lemmas primitive_advances =
  next_token_advances next_tk_advances set_section_advances make_global_advances
  add_symbol_here_advances align_with_labels_advances schedule_advances
  on_current_advances [of "Section_add_output _ _", folded add_output_def]
  on_current_advances [of "Section_allocate _", folded allocate_def]
  on_current_advances [of "Section_align _", folded align_def]
  on_current_advances [of "\<lambda>sec. Inr (Section_add_label_soon _ sec)", folded add_label_soon_def]

end
