(* ===== verification/Constants.thy ===== *)
theory Constants
  imports AssemblerInvariant
begin

text \<open>
  \<^verbatim>\<open>Assembler::resolve_constants\<close>: the evaluator of constant expressions. It reads a
  constant and then as many constants and operators as follow; the operator, once given,
  applies to every further constant, and a second operator is an error.
\<close>

section \<open>The evaluator\<close>

datatype constant_op = NONE | ADD | SUB | MUL | DIV | SHR | SHL | MOD | AND_op | OR_op | XOR_op

text \<open>
  One step of the sum. Division by zero and a shift by 128 or more are undefined in C++;
  a constant with no operator before it is an exception.
\<close>

definition apply_constant :: "constant_op \<Rightarrow> Token \<Rightarrow> u128 \<Rightarrow> u128 \<Rightarrow> u128 result" where
  "apply_constant ops tk x y =
     (case ops of
        ADD \<Rightarrow> Inr (x + y)
      | SUB \<Rightarrow> Inr (x - y)
      | MUL \<Rightarrow> Inr (x * y)
      | DIV \<Rightarrow> if y = 0 then Inl (Undefined ''division by zero'') else Inr (x div y)
      | SHR \<Rightarrow> if y \<ge> 128 then Inl (Undefined ''shift count'') else Inr (drop_bit (unat y) x)
      | SHL \<Rightarrow> if y \<ge> 128 then Inl (Undefined ''shift count'') else Inr (push_bit (unat y) x)
      | MOD \<Rightarrow> if y = 0 then Inl (Undefined ''division by zero'') else Inr (x mod y)
      | AND_op \<Rightarrow> Inr (x AND y)
      | OR_op \<Rightarrow> Inr (x OR y)
      | XOR_op \<Rightarrow> Inr (x XOR y)
      | NONE \<Rightarrow> Inl (RuntimeError (''Token: '' @ Token_to_string tk)))"

definition operator_of :: "string \<Rightarrow> constant_op option" where
  "operator_of v =
     (if v = ''+'' then Some ADD
      else if v = ''-'' then Some SUB
      else if v = ''*'' then Some MUL
      else if v = ''/'' then Some DIV
      else if v = ''>>'' then Some SHR
      else if v = ''<<'' then Some SHL
      else if v = ''%'' then Some MOD
      else if v = ''&'' then Some AND_op
      else if v = ''|'' then Some OR_op
      else if v = ''^'' then Some XOR_op
      else None)"

text \<open>
  The loop, over the tokens in front of the cursor: the sum and the number of tokens
  taken. It ends at the first token that is neither a constant nor an operator, or at the
  end of the tokens.
\<close>

fun resolve_loop :: "constant_op \<Rightarrow> bool \<Rightarrow> u128 \<Rightarrow> nat \<Rightarrow> Token list \<Rightarrow> error + u128 \<times> nat" where
  "resolve_loop ops is_negated acc n [] = Inr (acc, n)"
| "resolve_loop ops is_negated acc n (tk # tks) =
     (if tk_type tk = TK_CONSTANT then
        let v = (if is_negated then NOT (u128_of tk) else u128_of tk)
        in bindR (apply_constant ops tk acc v) (\<lambda>acc'.
             resolve_loop ops False acc' (Suc n) tks)
      else if tk_type tk = TK_OPERATOR then
        (if tk_value tk = ''~'' then resolve_loop ops (\<not> is_negated) acc (Suc n) tks
         else if ops \<noteq> NONE then Inl (RuntimeError (''Token: '' @ Token_to_string tk))
         else case operator_of (tk_value tk) of
                Some ops' \<Rightarrow> resolve_loop ops' is_negated acc (Suc n) tks
              | None \<Rightarrow> Inl (RuntimeError (''Token: '' @ Token_to_string tk)))
      else Inr (acc, n))"

definition resolve_constants :: "Token M" where
  "resolve_constants = bindM (next_tk TK_CONSTANT) (\<lambda>imm s.
     case resolve_loop NONE False (u128_of imm) 0 (drop (index s) (tokens s)) of
       Inl e \<Rightarrow> Inl e
     | Inr (acc, n) \<Rightarrow> Inr (set_u128 acc imm, s\<lparr>index := index s + n\<rparr>))"

section \<open>What it computes\<close>

lemma resolve_loop_count:
  "resolve_loop ops neg acc n tks = Inr (r, m) \<Longrightarrow> n \<le> m \<and> m \<le> n + length tks"
proof (induction ops neg acc n tks rule: resolve_loop.induct)
  case (1 ops neg acc n)
  then show ?case by simp
next
  case (2 ops neg acc n tk tks)
  then show ?case
    by (fastforce simp: bindR_Inr_iff Let_def split: if_splits option.splits)
qed

lemma resolve_constants_evolves: "keeps evolves resolve_constants"
  unfolding resolve_constants_def
  by (intro evolution.keeps_bind next_tk_evolves)
    (auto simp: keeps_def intro!: evolves_same_tables split: sum.splits)

lemma resolve_constants_advances: "keeps advances resolve_constants"
  unfolding resolve_constants_def
  by (intro cursor.keeps_bind next_tk_advances)
    (auto simp: keeps_def advances_def split: sum.splits)

text \<open>A constant alone is its own value.\<close>

definition ends_chain :: "Token list \<Rightarrow> bool" where
  "ends_chain tks \<longleftrightarrow>
     (case tks of [] \<Rightarrow> True | tk # _ \<Rightarrow> tk_type tk \<noteq> TK_CONSTANT \<and> tk_type tk \<noteq> TK_OPERATOR)"

lemma resolve_loop_ends [simp]: "ends_chain tks \<Longrightarrow> resolve_loop ops neg acc n tks = Inr (acc, n)"
  by (cases tks) (auto simp: ends_chain_def)

text \<open>The fold that the chain denotes: one operator over every further constant.\<close>

fun chain_value :: "constant_op \<Rightarrow> u128 \<Rightarrow> Token list \<Rightarrow> u128 result" where
  "chain_value ops acc [] = Inr acc"
| "chain_value ops acc (tk # tks) =
     bindR (apply_constant ops tk acc (u128_of tk)) (\<lambda>t. chain_value ops t tks)"

lemma resolve_loop_constants:
  assumes "\<forall>tk \<in> set cs. tk_type tk = TK_CONSTANT" and "ends_chain rest"
  shows "resolve_loop ops False acc n (cs @ rest) =
         bindR (chain_value ops acc cs) (\<lambda>t. Inr (t, n + length cs))"
  using assms(1)
proof (induction cs arbitrary: acc n)
  case Nil
  then show ?case using assms(2) by simp
next
  case (Cons c cs)
  then show ?case
    by (cases "apply_constant ops c acc (u128_of c)") (simp_all add: Let_def)
qed

text \<open>A constant, an operator and further constants, in front of something else.\<close>

lemma resolve_chain:
  assumes cs: "\<forall>tk \<in> set cs. tk_type tk = TK_CONSTANT" and rest: "ends_chain rest"
    and opr: "tk_type opr = TK_OPERATOR" "operator_of (tk_value opr) = Some ops"
    and tks: "tokens s = pre @ c # opr # cs @ rest" and idx: "index s = length pre"
    and c: "tk_type c = TK_CONSTANT"
  shows "resolve_constants s =
    bindR (chain_value ops (u128_of c) cs) (\<lambda>v.
      Inr (set_u128 v c, s\<lparr>index := length pre + 2 + length cs\<rparr>))"
proof -
  have "tk_value opr \<noteq> ''~''" using opr(2) by (auto simp: operator_of_def)
  then have "resolve_loop NONE False (u128_of c) 0 (opr # cs @ rest) =
      bindR (chain_value ops (u128_of c) cs) (\<lambda>t. Inr (t, Suc (length cs)))"
    using opr resolve_loop_constants [OF cs rest, of ops "u128_of c" 1] by simp
  moreover have "next_tk TK_CONSTANT s = Inr (c, s\<lparr>index := Suc (length pre)\<rparr>)"
    using c by (simp add: next_tk_def next_token_def tks idx bind_simps)
  moreover have "drop (Suc (length pre)) (tokens s) = opr # cs @ rest"
    by (simp add: tks)
  ultimately show ?thesis
    by (cases "chain_value ops (u128_of c) cs") (simp_all add: resolve_constants_def bindM_def)
qed

end
