(* ===== verification/Opcodes.thy ===== *)
theory Opcodes
  imports Constants Instruction
begin

text \<open>
  \<^verbatim>\<open>opcodes.cpp\<close>, first part: the handlers of the instructions, which read their
  operands from the tokens, schedule the fixups that need an address, and return the
  instruction words. What the fixups do is in the theory of scheduled work.
\<close>

type_synonym InstructionList = "u32 list"

section \<open>Constants in registers\<close>

text \<open>
  \<^verbatim>\<open>build_uint32\<close>. The sum of the 32-bit value and the unsigned low part is computed in
  an \<^verbatim>\<open>int\<close>; it is written here with the wrap-around of the target.
\<close>

definition build_uint32 :: "int \<Rightarrow> u32 \<Rightarrow> InstructionList" where
  "build_uint32 reg v =
     (let i1 = set_Itype_imm (sint v) (set_rd reg RV32I_OP_IMM);
          i2 = set_Utype_imm (sint (signed_drop_bit 12 (v + Itype_imm i1))) (set_rd reg RV32I_LUI)
      in if Utype_imm i2 \<noteq> 0
         then i2 # (if v AND 0xFFF \<noteq> 0 then [set_rs1 reg i1] else [])
         else [i1])"

definition OP_NOP_handler :: "InstructionList M" where
  "OP_NOP_handler = returnM [RV32I_OP_IMM]"

definition OP_LI_handler :: "InstructionList M" where
  "OP_LI_handler =
     bindM (next_tk TK_REGISTER) (\<lambda>reg.
     bindM resolve_constants (\<lambda>imm.
       returnM (build_uint32 (i64_of reg) (word_of_int (i64_of imm)))))"

text \<open>\<^verbatim>\<open>dst <<= 32\<close> and \<^verbatim>\<open>dst += temp\<close>.\<close>

definition shift_instr :: "int \<Rightarrow> u32" where
  "shift_instr dst = set_Itype_imm 32 (set_funct3 1 (set_rs1 dst (set_rd dst RV32I_OP_IMM)))"

definition add_instr :: "int \<Rightarrow> int \<Rightarrow> u32" where
  "add_instr dst temp = set_rs2 temp (set_rs1 dst (set_rd dst RV32I_OP))"

definition limb :: "u128 \<Rightarrow> nat \<Rightarrow> u32" where
  "limb v i = ucast (drop_bit (32 * i) v)"

text \<open>One round of the loop of \<^verbatim>\<open>OP_SET\<close>: the instructions so far and \<^verbatim>\<open>value_so_far\<close>.\<close>

definition set_round :: "int \<Rightarrow> int \<Rightarrow> InstructionList \<times> u128 \<Rightarrow> u32 \<Rightarrow> InstructionList \<times> u128" where
  "set_round dst temp = (\<lambda>(res, value_so_far) imm.
     (res @ build_uint32 temp imm @ (if value_so_far \<noteq> 0 then [shift_instr dst] else [])
        @ [add_instr dst temp],
      push_bit 32 value_so_far OR scast imm))"

definition set_instrs :: "int \<Rightarrow> int \<Rightarrow> u128 \<Rightarrow> InstructionList" where
  "set_instrs dst temp v =
     (if v < 0x100000000 then build_uint32 dst (limb v 0)
      else fst (foldl (set_round dst temp)
                  (build_uint32 dst (limb v 3), scast (limb v 3)) [limb v 2, limb v 1, limb v 0]))"

definition OP_SET_handler :: "InstructionList M" where
  "OP_SET_handler =
     bindM (next_tk TK_REGISTER) (\<lambda>dst.
     bindM (next_tk TK_REGISTER) (\<lambda>temp.
     bindM resolve_constants (\<lambda>imm.
       returnM (set_instrs (i64_of dst) (i64_of temp) (u128_of imm)))))"

section \<open>Addresses of labels\<close>

text \<open>Schedule an operation at the place where the next instruction will be put.\<close>

definition schedule_here :: "Token \<Rightarrow> (SymbolLocation \<Rightarrow> scheduled_op) \<Rightarrow> unit M" where
  "schedule_here lbl mk = bindM (getM current_location) (\<lambda>loc. schedule (tk_value lbl) (mk loc))"

definition OP_LA_handler :: "InstructionList M" where
  "OP_LA_handler =
     bindM (next_tk TK_REGISTER) (\<lambda>reg.
     bindM (next_tk TK_SYMBOL) (\<lambda>lbl.
       let i1 = set_rd (i64_of reg) RV32I_LUI;
           i2 = set_rs1 (i64_of reg) (set_rd (i64_of reg) RV32I_OP_IMM)
       in thenM (schedule_here lbl Op_la) (returnM [i1, i2])))"

definition laq_instrs :: "int \<Rightarrow> int \<Rightarrow> InstructionList" where
  "laq_instrs dst temp =
     build_uint32 dst 0x7FFFFFFF @
     concat (replicate 3 (build_uint32 temp 0x7FFFFFFF @ [shift_instr dst, add_instr dst temp]))"

definition OP_LAQ_handler :: "InstructionList M" where
  "OP_LAQ_handler =
     bindM (next_tk TK_REGISTER) (\<lambda>dst.
     bindM (next_tk TK_REGISTER) (\<lambda>temp.
     bindM (next_tk TK_SYMBOL) (\<lambda>lbl.
       thenM (schedule_here lbl Op_laq)
         (returnM (laq_instrs (i64_of dst) (i64_of temp))))))"

section \<open>Loads and stores\<close>

text \<open>An optional constant expression: its value, or nothing when no constant follows.\<close>

definition optional_constant :: "Token option M" where
  "optional_constant = bindM (getM (next_is TK_CONSTANT)) (\<lambda>b.
     if b then bindM resolve_constants (\<lambda>imm. returnM (Some imm)) else returnM None)"

definition load_helper :: "int \<Rightarrow> InstructionList M" where
  "load_helper f3 =
     bindM (next_tk TK_REGISTER) (\<lambda>dst.
     bindM optional_constant (\<lambda>imm.
     bindM (next_tk TK_REGISTER) (\<lambda>src.
       let i1 = set_funct3 f3 (set_rd (i64_of dst) RV32I_LOAD);
           i1 = (case imm of Some c \<Rightarrow> set_Itype_imm (i64_of c) i1 | None \<Rightarrow> i1)
       in returnM [set_rs1 (i64_of src) i1])))"

definition OP_LB_handler :: "InstructionList M" where "OP_LB_handler = load_helper 0"
definition OP_LH_handler :: "InstructionList M" where "OP_LH_handler = load_helper 1"
definition OP_LW_handler :: "InstructionList M" where "OP_LW_handler = load_helper 2"
definition OP_LD_handler :: "InstructionList M" where "OP_LD_handler = load_helper 3"
definition OP_LBU_handler :: "InstructionList M" where "OP_LBU_handler = load_helper 4"
definition OP_LHU_handler :: "InstructionList M" where "OP_LHU_handler = load_helper 5"
definition OP_LWU_handler :: "InstructionList M" where "OP_LWU_handler = load_helper 6"
definition OP_LQ_handler :: "InstructionList M" where "OP_LQ_handler = load_helper 7"

definition OP_LDU_handler :: "InstructionList M" where
  "OP_LDU_handler = throwM (RuntimeError ''Unimplemented'')"

definition store_helper :: "int \<Rightarrow> InstructionList M" where
  "store_helper f3 =
     bindM (next_tk TK_REGISTER) (\<lambda>dst.
     bindM (next_tk TK_REGISTER) (\<lambda>src.
     bindM optional_constant (\<lambda>imm.
       let i1 = set_rs2 (i64_of src) (set_rs1 (i64_of dst) (set_funct3 f3 RV32I_STORE))
       in returnM [case imm of Some c \<Rightarrow> set_Stype_imm (i64_of c) i1 | None \<Rightarrow> i1])))"

definition OP_SB_handler :: "InstructionList M" where "OP_SB_handler = store_helper 0"
definition OP_SH_handler :: "InstructionList M" where "OP_SH_handler = store_helper 1"
definition OP_SW_handler :: "InstructionList M" where "OP_SW_handler = store_helper 2"
definition OP_SD_handler :: "InstructionList M" where "OP_SD_handler = store_helper 3"
definition OP_SQ_handler :: "InstructionList M" where "OP_SQ_handler = store_helper 4"

section \<open>Branches, jumps and calls\<close>

definition branch_helper :: "int \<Rightarrow> InstructionList M" where
  "branch_helper f3 =
     bindM (next_tk TK_REGISTER) (\<lambda>reg1.
     bindM (next_tk TK_REGISTER) (\<lambda>reg2.
     bindM (next_tk TK_SYMBOL) (\<lambda>lbl.
       let instr = set_funct3 f3 (set_rs2 (i64_of reg2) (set_rs1 (i64_of reg1) RV32I_BRANCH))
       in thenM (schedule_here lbl Op_branch) (returnM [instr]))))"

definition OP_BEQ_handler :: "InstructionList M" where "OP_BEQ_handler = branch_helper 0"
definition OP_BNE_handler :: "InstructionList M" where "OP_BNE_handler = branch_helper 1"
definition OP_BLT_handler :: "InstructionList M" where "OP_BLT_handler = branch_helper 4"
definition OP_BGE_handler :: "InstructionList M" where "OP_BGE_handler = branch_helper 5"
definition OP_BLTU_handler :: "InstructionList M" where "OP_BLTU_handler = branch_helper 6"
definition OP_BGEU_handler :: "InstructionList M" where "OP_BGEU_handler = branch_helper 7"

definition OP_FARCALL_handler :: "InstructionList M" where
  "OP_FARCALL_handler =
     bindM (next_tk TK_REGISTER) (\<lambda>reg.
     bindM (next_tk TK_SYMBOL) (\<lambda>lbl.
       let i1 = set_rd (i64_of reg) RV32I_LUI;
           i2 = set_rd 1 (set_rs1 (i64_of reg) RV32I_JALR)
       in thenM (schedule_here lbl Op_farcall) (returnM [i1, i2])))"

text \<open>The optional last register of \<^verbatim>\<open>call\<close> and \<^verbatim>\<open>jal\<close>.\<close>

definition optional_register :: "Token option M" where
  "optional_register = bindM (getM (next_is TK_REGISTER)) (\<lambda>b.
     if b then bindM (next_tk TK_REGISTER) (\<lambda>reg. returnM (Some reg)) else returnM None)"

definition OP_CALL_handler :: "InstructionList M" where
  "OP_CALL_handler =
     (let instr = set_rd 1 RV32I_JAL in
     bindM (getM (next_is TK_SYMBOL)) (\<lambda>is_symbol.
     bindM (getM (next_is TK_CONSTANT)) (\<lambda>is_constant.
     bindM (if is_symbol then
              bindM (next_tk TK_SYMBOL) (\<lambda>lbl.
                thenM (schedule_here lbl Op_call) (returnM instr))
            else if is_constant then
              bindM (next_tk TK_CONSTANT) (\<lambda>imm.
                returnM (set_Jtype_imm (i64_of imm) instr))
            else bindM next_token token_exception) (\<lambda>instr.
     bindM optional_register (\<lambda>reg.
       returnM [case reg of Some r \<Rightarrow> set_rd (i64_of r) instr | None \<Rightarrow> instr])))))"

definition OP_JALR_handler :: "InstructionList M" where
  "OP_JALR_handler =
     bindM optional_register (\<lambda>reg1.
     bindM (getM (next_is TK_CONSTANT)) (\<lambda>is_constant.
     bindM (if is_constant then bindM (next_tk TK_CONSTANT) (\<lambda>imm. returnM (Some imm))
            else returnM None) (\<lambda>imm.
     bindM optional_register (\<lambda>reg2.
       let instr = (case reg1 of Some r \<Rightarrow> set_rs1 (i64_of r) RV32I_JALR | None \<Rightarrow> RV32I_JALR);
           instr = (case imm of Some c \<Rightarrow> set_Itype_imm (i64_of c) instr | None \<Rightarrow> instr)
       in returnM [case reg2 of Some r \<Rightarrow> set_rd (i64_of r) instr | None \<Rightarrow> instr]))))"

definition OP_RET_handler :: "InstructionList M" where
  "OP_RET_handler = returnM [set_rs1 1 RV32I_JALR]"

definition OP_JMP_handler :: "InstructionList M" where
  "OP_JMP_handler =
     bindM (next_tk TK_SYMBOL) (\<lambda>lbl.
       thenM (schedule_here lbl Op_jmp) (returnM [RV32I_JAL]))"

section \<open>Arithmetic\<close>

definition register_opcode :: "u32 \<Rightarrow> u32" where
  "register_opcode opc =
     (if opc = RV32I_OP_IMM then RV32I_OP
      else if opc = RV64I_OP_IMM32 then RV64I_OP32 else RV128I_OP_IMM64)"

text \<open>
  Two or three registers: with two, the first is source and destination. The source
  registers are what the handlers share.
\<close>

definition source_registers :: "Token \<Rightarrow> Token \<Rightarrow> Token option \<Rightarrow> u32 \<Rightarrow> u32" where
  "source_registers reg reg2 reg3 instr =
     (case reg3 of
        Some r3 \<Rightarrow> set_rs2 (i64_of r3) (set_rs1 (i64_of reg2) instr)
      | None \<Rightarrow> set_rs2 (i64_of reg2) (set_rs1 (i64_of reg) instr))"

definition op_imm_helper :: "u32 \<Rightarrow> int \<Rightarrow> u32 M" where
  "op_imm_helper opc f3 =
     bindM (next_tk TK_REGISTER) (\<lambda>reg.
     bindM (getM (next_is TK_CONSTANT)) (\<lambda>is_constant.
     bindM (getM (next_is TK_REGISTER)) (\<lambda>is_register.
       if is_constant then
         bindM resolve_constants (\<lambda>imm.
           if i64_of imm > 0x7FF \<or> i64_of imm < -2048 then token_exception imm
           else returnM (set_Itype_imm (i64_of imm) (set_rs1 (i64_of reg)
                  (set_funct3 f3 (set_rd (i64_of reg) opc)))))
       else if is_register then
         bindM (next_tk TK_REGISTER) (\<lambda>reg2.
         bindM optional_register (\<lambda>reg3.
           returnM (source_registers reg reg2 reg3
             (set_funct3 f3 (set_rd (i64_of reg) (set_opcode (uint (register_opcode opc)) opc))))))
       else bindM next_token (\<lambda>tk. argument_mismatch tk TK_REGISTER))))"

definition op_f7_helper :: "u32 \<Rightarrow> int \<Rightarrow> int \<Rightarrow> u32 M" where
  "op_f7_helper opc f3 f7 =
     bindM (next_tk TK_REGISTER) (\<lambda>reg.
     bindM (next_tk TK_REGISTER) (\<lambda>reg2.
     bindM optional_register (\<lambda>reg3.
       returnM (set_funct7 f7 (source_registers reg reg2 reg3
         (set_funct3 f3 (set_rd (i64_of reg) opc)))))))"

definition OP_MOV_handler :: "InstructionList M" where
  "OP_MOV_handler =
     bindM (next_tk TK_REGISTER) (\<lambda>reg.
     bindM (next_tk TK_REGISTER) (\<lambda>reg2.
       returnM [set_rs1 (i64_of reg2) (set_rd (i64_of reg) (set_funct3 0 RV32I_OP_IMM))]))"

definition OP_INC_handler :: "InstructionList M" where
  "OP_INC_handler =
     bindM (next_tk TK_REGISTER) (\<lambda>reg.
       returnM [set_Itype_imm 1 (set_rs1 (i64_of reg) (set_funct3 0
         (set_rd (i64_of reg) RV32I_OP_IMM)))])"

text \<open>The templates over an opcode; each returns the one instruction of its helper.\<close>

definition single :: "u32 M \<Rightarrow> InstructionList M" where
  "single m = bindM m (\<lambda>instr. returnM [instr])"

definition OP_ADD_handler :: "u32 \<Rightarrow> InstructionList M" where
  "OP_ADD_handler opc = single (op_imm_helper opc 0)"
definition OP_SLL_handler :: "u32 \<Rightarrow> InstructionList M" where
  "OP_SLL_handler opc = single (op_imm_helper opc 1)"
definition OP_SLT_handler :: "u32 \<Rightarrow> InstructionList M" where
  "OP_SLT_handler opc = single (op_imm_helper opc 2)"
definition OP_SLTU_handler :: "u32 \<Rightarrow> InstructionList M" where
  "OP_SLTU_handler opc = single (op_imm_helper opc 3)"
definition OP_SRL_handler :: "u32 \<Rightarrow> InstructionList M" where
  "OP_SRL_handler opc = single (op_imm_helper opc 5)"
definition OP_AND_handler :: "u32 \<Rightarrow> InstructionList M" where
  "OP_AND_handler opc = single (op_imm_helper opc 7)"
definition OP_OR_handler :: "u32 \<Rightarrow> InstructionList M" where
  "OP_OR_handler opc = single (op_imm_helper opc 6)"
definition OP_XOR_handler :: "u32 \<Rightarrow> InstructionList M" where
  "OP_XOR_handler opc = single (op_imm_helper opc 4)"
definition OP_SUB_handler :: "u32 \<Rightarrow> InstructionList M" where
  "OP_SUB_handler opc = single (op_f7_helper opc 0 0x20)"
definition OP_MUL_handler :: "u32 \<Rightarrow> InstructionList M" where
  "OP_MUL_handler opc = single (op_f7_helper opc 0 1)"
definition OP_DIV_handler :: "u32 \<Rightarrow> InstructionList M" where
  "OP_DIV_handler opc = single (op_f7_helper opc 4 1)"
definition OP_DIVU_handler :: "u32 \<Rightarrow> InstructionList M" where
  "OP_DIVU_handler opc = single (op_f7_helper opc 5 1)"
definition OP_REM_handler :: "u32 \<Rightarrow> InstructionList M" where
  "OP_REM_handler opc = single (op_f7_helper opc 6 1)"
definition OP_REMU_handler :: "u32 \<Rightarrow> InstructionList M" where
  "OP_REMU_handler opc = single (op_f7_helper opc 7 1)"

section \<open>System instructions\<close>

definition OP_SYSCALL_handler :: "InstructionList M" where
  "OP_SYSCALL_handler =
     bindM resolve_constants (\<lambda>imm.
       let i1 = set_Itype_imm (i64_of imm) (set_rd 17 RV32I_OP_IMM);
           i2 = set_Itype_imm 0 (set_funct3 0 RV32I_SYSTEM)
       in returnM [i1, i2])"

definition OP_ECALL_handler :: "InstructionList M" where
  "OP_ECALL_handler = returnM [set_Itype_imm 0 (set_funct3 0 RV32I_SYSTEM)]"

definition OP_EBREAK_handler :: "InstructionList M" where
  "OP_EBREAK_handler = returnM [set_Itype_imm 1 RV32I_SYSTEM]"

definition OP_WFI_handler :: "InstructionList M" where
  "OP_WFI_handler = returnM [set_Itype_imm 0x105 RV32I_SYSTEM]"

definition OP_SYSTEM_handler :: "InstructionList M" where
  "OP_SYSTEM_handler =
     bindM resolve_constants (\<lambda>f3.
     bindM resolve_constants (\<lambda>imm.
       returnM [set_Itype_imm (i64_of imm) (set_funct3 (i64_of f3) RV32I_SYSTEM)]))"

section \<open>The handler of each opcode\<close>

fun opcode_handler :: "Opcode \<Rightarrow> InstructionList M" where
  "opcode_handler OP_NOP = OP_NOP_handler"
| "opcode_handler OP_LI = OP_LI_handler"
| "opcode_handler OP_SET = OP_SET_handler"
| "opcode_handler OP_LA = OP_LA_handler"
| "opcode_handler OP_LAQ = OP_LAQ_handler"
| "opcode_handler OP_LB = OP_LB_handler"
| "opcode_handler OP_LH = OP_LH_handler"
| "opcode_handler OP_LW = OP_LW_handler"
| "opcode_handler OP_LD = OP_LD_handler"
| "opcode_handler OP_LBU = OP_LBU_handler"
| "opcode_handler OP_LHU = OP_LHU_handler"
| "opcode_handler OP_LWU = OP_LWU_handler"
| "opcode_handler OP_LDU = OP_LDU_handler"
| "opcode_handler OP_LQ = OP_LQ_handler"
| "opcode_handler OP_SB = OP_SB_handler"
| "opcode_handler OP_SH = OP_SH_handler"
| "opcode_handler OP_SW = OP_SW_handler"
| "opcode_handler OP_SD = OP_SD_handler"
| "opcode_handler OP_SQ = OP_SQ_handler"
| "opcode_handler OP_BEQ = OP_BEQ_handler"
| "opcode_handler OP_BNE = OP_BNE_handler"
| "opcode_handler OP_BLT = OP_BLT_handler"
| "opcode_handler OP_BGE = OP_BGE_handler"
| "opcode_handler OP_BLTU = OP_BLTU_handler"
| "opcode_handler OP_BGEU = OP_BGEU_handler"
| "opcode_handler OP_FARCALL = OP_FARCALL_handler"
| "opcode_handler OP_CALL = OP_CALL_handler"
| "opcode_handler OP_JALR = OP_JALR_handler"
| "opcode_handler OP_RET = OP_RET_handler"
| "opcode_handler OP_JMP = OP_JMP_handler"
| "opcode_handler OP_MOV = OP_MOV_handler"
| "opcode_handler OP_INC = OP_INC_handler"
| "opcode_handler (OP_ADD opc) = OP_ADD_handler opc"
| "opcode_handler (OP_SLL opc) = OP_SLL_handler opc"
| "opcode_handler (OP_SLT opc) = OP_SLT_handler opc"
| "opcode_handler (OP_SLTU opc) = OP_SLTU_handler opc"
| "opcode_handler (OP_SRL opc) = OP_SRL_handler opc"
| "opcode_handler (OP_AND opc) = OP_AND_handler opc"
| "opcode_handler (OP_OR opc) = OP_OR_handler opc"
| "opcode_handler (OP_XOR opc) = OP_XOR_handler opc"
| "opcode_handler (OP_SUB opc) = OP_SUB_handler opc"
| "opcode_handler (OP_MUL opc) = OP_MUL_handler opc"
| "opcode_handler (OP_DIV opc) = OP_DIV_handler opc"
| "opcode_handler (OP_DIVU opc) = OP_DIVU_handler opc"
| "opcode_handler (OP_REM opc) = OP_REM_handler opc"
| "opcode_handler (OP_REMU opc) = OP_REMU_handler opc"
| "opcode_handler OP_SYSCALL = OP_SYSCALL_handler"
| "opcode_handler OP_ECALL = OP_ECALL_handler"
| "opcode_handler OP_EBREAK = OP_EBREAK_handler"
| "opcode_handler OP_WFI = OP_WFI_handler"
| "opcode_handler OP_SYSTEM = OP_SYSTEM_handler"

section \<open>The table of opcodes\<close>

text \<open>\<^verbatim>\<open>opcode_list\<close>; its names are distinct, so the order of the table does not matter.\<close>

definition opcode_list :: "(string \<times> Opcode) list" where
  "opcode_list =
    [(''nop'', OP_NOP), (''set'', OP_SET), (''li'', OP_LI), (''la'', OP_LA),
     (''laq'', OP_LAQ), (''mv'', OP_MOV), (''mov'', OP_MOV), (''lb'', OP_LB),
     (''lh'', OP_LH), (''lw'', OP_LW), (''ld'', OP_LD), (''lq'', OP_LQ), (''lbu'', OP_LBU),
     (''lhu'', OP_LHU), (''lwu'', OP_LWU), (''ldu'', OP_LDU), (''sb'', OP_SB),
     (''sh'', OP_SH), (''sw'', OP_SW), (''sd'', OP_SD), (''sq'', OP_SQ), (''beq'', OP_BEQ),
     (''bne'', OP_BNE), (''blt'', OP_BLT), (''bge'', OP_BGE), (''bltu'', OP_BLTU),
     (''bgeu'', OP_BGEU), (''farcall'', OP_FARCALL), (''call'', OP_CALL),
     (''jal'', OP_CALL), (''jalr'', OP_JALR), (''ret'', OP_RET), (''jmp'', OP_JMP),
     (''inc'', OP_INC), (''add'', OP_ADD RV32I_OP_IMM), (''sub'', OP_SUB RV32I_OP),
     (''sll'', OP_SLL RV32I_OP_IMM), (''slt'', OP_SLT RV32I_OP_IMM),
     (''sltu'', OP_SLTU RV32I_OP_IMM), (''srl'', OP_SRL RV32I_OP_IMM),
     (''and'', OP_AND RV32I_OP_IMM), (''or'', OP_OR RV32I_OP_IMM),
     (''xor'', OP_XOR RV32I_OP_IMM), (''addw'', OP_ADD RV64I_OP_IMM32),
     (''subw'', OP_SUB RV64I_OP32), (''sllw'', OP_SLL RV64I_OP_IMM32),
     (''sltw'', OP_SLT RV64I_OP_IMM32), (''sltuw'', OP_SLTU RV64I_OP_IMM32),
     (''srlw'', OP_SRL RV64I_OP_IMM32), (''andw'', OP_AND RV64I_OP_IMM32),
     (''orw'', OP_OR RV64I_OP_IMM32), (''xorw'', OP_XOR RV64I_OP_IMM32),
     (''addd'', OP_ADD RV128I_OP_IMM64), (''subd'', OP_SUB RV128I_OP64),
     (''slld'', OP_SLL RV128I_OP_IMM64), (''sltd'', OP_SLT RV128I_OP_IMM64),
     (''sltud'', OP_SLTU RV128I_OP_IMM64), (''srld'', OP_SRL RV128I_OP_IMM64),
     (''andd'', OP_AND RV128I_OP_IMM64), (''ord'', OP_OR RV128I_OP_IMM64),
     (''xord'', OP_XOR RV128I_OP_IMM64), (''mul'', OP_MUL RV32I_OP),
     (''div'', OP_DIV RV32I_OP), (''divu'', OP_DIVU RV32I_OP), (''rem'', OP_REM RV32I_OP),
     (''remu'', OP_REMU RV32I_OP), (''mulw'', OP_MUL RV64I_OP32),
     (''divw'', OP_DIV RV64I_OP32), (''divuw'', OP_DIVU RV64I_OP32),
     (''remw'', OP_REM RV64I_OP32), (''remuw'', OP_REMU RV64I_OP32),
     (''muld'', OP_MUL RV128I_OP64), (''divd'', OP_DIV RV128I_OP64),
     (''divud'', OP_DIVU RV128I_OP64), (''remd'', OP_REM RV128I_OP64),
     (''remud'', OP_REMU RV128I_OP64), (''syscall'', OP_SYSCALL), (''ecall'', OP_ECALL),
     (''ebreak'', OP_EBREAK), (''wfi'', OP_WFI), (''system'', OP_SYSTEM)]"

definition opcode :: "string \<Rightarrow> Token" where
  "opcode word =
     (case map_of opcode_list word of
        Some opc \<Rightarrow> (Token_new TK_OPCODE)\<lparr>tk_value := word, tk_payload := OpcodePtr opc\<rparr>
      | None \<Rightarrow> (Token_new TK_SYMBOL)\<lparr>tk_value := word\<rparr>)"

end
