(* ===== verification/Fixups.thy ===== *)
theory Fixups
  imports Opcodes
begin

text \<open>
  The work that waits for addresses: the closures scheduled by \<^verbatim>\<open>opcodes.cpp\<close>,
  \<^verbatim>\<open>directive.cpp\<close> and \<^verbatim>\<open>assemble.cpp\<close>, each as an operation on the state at the end of
  the assembly, and \<^verbatim>\<open>Assembler::finish_scheduled_work\<close>, which runs them by symbol.
\<close>

section \<open>Cells of a section\<close>

text \<open>
  \<^verbatim>\<open>at_location\<close> looks up the first byte with \<^verbatim>\<open>vector::at\<close>, whose index has 64 bits,
  and makes a reference to four bytes there. Reading or writing past the end through the
  reference is undefined.
\<close>

definition at_location :: "SymbolLocation \<Rightarrow> u64 \<Rightarrow> nat M" where
  "at_location loc off =
     bindM (getM (\<lambda>s. the_section s (loc_section loc))) (\<lambda>sec.
     bindM (getM (\<lambda>s. location_address s loc)) (\<lambda>addr.
       let i = unat (ucast (addr + ucast off - m_base_address sec) :: u64)
       in if i < length (sec_output sec) then returnM i else throwM OutOfRange))"

abbreviation instruction_at :: "SymbolLocation \<Rightarrow> u64 \<Rightarrow> nat M" where
  "instruction_at \<equiv> at_location"

definition patch32 :: "nat \<Rightarrow> (u32 \<Rightarrow> u32) \<Rightarrow> u8 list \<Rightarrow> u8 list" where
  "patch32 i f bs = write32 i (f (read32 i bs)) bs"

definition cell_access :: "SymbolLocation \<Rightarrow> nat \<Rightarrow> unit M" where
  "cell_access loc i = bindM (getM (\<lambda>s. the_section s (loc_section loc))) (\<lambda>sec.
     if i + 4 \<le> length (sec_output sec) then returnM ()
     else throwM (Undefined ''access past the end of a section''))"

definition read_cell :: "SymbolLocation \<Rightarrow> nat \<Rightarrow> u32 M" where
  "read_cell loc i =
     thenM (cell_access loc i) (getM (\<lambda>s. read32 i (sec_output (the_section s (loc_section loc)))))"

definition patch_cell :: "SymbolLocation \<Rightarrow> nat \<Rightarrow> (u32 \<Rightarrow> u32) \<Rightarrow> unit M" where
  "patch_cell loc i f =
     thenM (cell_access loc i)
       (modifyM (\<lambda>s. put_section (loc_section loc)
          (let sec = the_section s (loc_section loc)
           in sec\<lparr>sec_output := patch32 i f (sec_output sec)\<rparr>) s))"

text \<open>The distance from a place to a symbol.\<close>

definition distance :: "SymbolLocation \<Rightarrow> SymbolLocation \<Rightarrow> Assembler \<Rightarrow> u128" where
  "distance loc tgt s = location_address s tgt - location_address s loc"

definition low32 :: "u128 \<Rightarrow> int" where "low32 w = sint (ucast w :: u32)"
definition low64 :: "u128 \<Rightarrow> int" where "low64 w = sint (ucast w :: u64)"

section \<open>The scheduled operations\<close>

definition is_relatively_close :: "int \<Rightarrow> bool" where
  "is_relatively_close diff \<longleftrightarrow> - 2147483648 \<le> diff \<and> diff \<le> 2147483647"

definition bounds_check_jump :: "int \<Rightarrow> unit M" where
  "bounds_check_jump diff =
     (if diff < -2048 \<or> diff > 2047
      then token_exception ((set_u128 (word_of_int diff) (Token_new TK_SYMBOL))
             \<lparr>tk_value := int_to_string diff\<rparr>)
      else returnM ())"

text \<open>
  \<^verbatim>\<open>set_uint32\<close>: a pair of \<^verbatim>\<open>LUI\<close> and \<^verbatim>\<open>ADDI\<close>. The sum is 32-bit arithmetic, as in
  \<open>build_uint32\<close>.
\<close>

definition set_uint32 :: "SymbolLocation \<Rightarrow> u64 \<Rightarrow> u32 \<Rightarrow> unit M" where
  "set_uint32 loc off v =
     bindM (instruction_at loc off) (\<lambda>i1.
     bindM (instruction_at loc (off + 4)) (\<lambda>i2.
     thenM (patch_cell loc i2 (set_Itype_imm (sint v)))
     (bindM (read_cell loc i2) (\<lambda>w2.
       patch_cell loc i1 (set_Utype_imm (sint (signed_drop_bit 12 (v + Itype_imm w2))))))))"

definition fix_la :: "SymbolLocation \<Rightarrow> SymbolLocation \<Rightarrow> unit M" where
  "fix_la loc tgt =
     bindM (instruction_at loc 0) (\<lambda>i1.
     bindM (instruction_at loc 4) (\<lambda>i2.
     bindM (getM (\<lambda>s. low64 (distance loc tgt s))) (\<lambda>diff.
     bindM (getM (\<lambda>s. location_address s tgt)) (\<lambda>addr.
       if is_relatively_close diff then
         thenM (patch_cell loc i2 (set_Itype_imm diff))
         (thenM (patch_cell loc i1 (set_opcode (uint RV32I_AUIPC)))
         (bindM (read_cell loc i2) (\<lambda>w2.
           patch_cell loc i1 (set_Utype_imm (drop_bit 12 (diff + uint (Itype_imm w2)))))))
       else
         thenM (patch_cell loc i2 (set_Itype_imm (uint addr)))
         (bindM (read_cell loc i2) (\<lambda>w2.
           patch_cell loc i1 (set_Utype_imm
             (uint (drop_bit 12 (addr + ucast (Itype_imm w2)))))))))))"

definition fix_laq :: "SymbolLocation \<Rightarrow> SymbolLocation \<Rightarrow> unit M" where
  "fix_laq loc tgt =
     bindM (getM (\<lambda>s. location_address s tgt)) (\<lambda>addr.
       thenM (set_uint32 loc 0 (ucast (drop_bit 96 addr)))
       (thenM (set_uint32 loc (2 * 4) (ucast (drop_bit 64 addr)))
       (thenM (set_uint32 loc (6 * 4) (ucast (drop_bit 32 addr)))
         (set_uint32 loc (10 * 4) (ucast addr)))))"

definition fix_branch :: "SymbolLocation \<Rightarrow> SymbolLocation \<Rightarrow> unit M" where
  "fix_branch loc tgt =
     bindM (instruction_at loc 0) (\<lambda>i.
     bindM (getM (\<lambda>s. low32 (distance loc tgt s))) (\<lambda>diff.
       patch_cell loc i (set_Btype_imm diff)))"

definition fix_farcall :: "SymbolLocation \<Rightarrow> SymbolLocation \<Rightarrow> unit M" where
  "fix_farcall loc tgt =
     bindM (instruction_at loc 0) (\<lambda>i1.
     bindM (instruction_at loc 4) (\<lambda>i2.
     bindM (getM (\<lambda>s. location_address s tgt)) (\<lambda>addr.
       thenM (patch_cell loc i1 (set_Utype_imm (uint (drop_bit 12 addr))))
         (patch_cell loc i2 (set_Itype_imm (uint addr))))))"

definition fix_jump :: "SymbolLocation \<Rightarrow> SymbolLocation \<Rightarrow> unit M" where
  "fix_jump loc tgt =
     bindM (instruction_at loc 0) (\<lambda>i.
     bindM (getM (\<lambda>s. low64 (distance loc tgt s))) (\<lambda>diff.
       thenM (bounds_check_jump diff) (patch_cell loc i (set_Jtype_imm diff))))"

text \<open>The symbol is a reference into the table.\<close>

definition update_symbol :: "string \<Rightarrow> (SymbolLocation \<Rightarrow> SymbolLocation) \<Rightarrow> unit M" where
  "update_symbol name f = modifyM (\<lambda>s. s\<lparr>m_lookup :=
     map (\<lambda>(n, loc). (n, if n = name then f loc else loc)) (m_lookup s)\<rparr>)"

definition STT_OBJECT :: u32 where "STT_OBJECT = 1"
definition STT_FUNC :: u32 where "STT_FUNC = 2"

definition fix_size :: "SymbolLocation \<Rightarrow> SymbolLocation \<Rightarrow> string \<Rightarrow> SymbolLocation \<Rightarrow> unit M" where
  "fix_size loc dataloc name tgt =
     bindM (at_location loc 0) (\<lambda>i.
     bindM (getM (\<lambda>s. location_address s tgt)) (\<lambda>addr.
     bindM (getM (\<lambda>s. location_address s dataloc)) (\<lambda>dataaddr.
     bindM (getM (\<lambda>s. location_address s loc)) (\<lambda>locaddr.
       let v = (if addr < dataaddr then ucast (dataaddr - addr) else ucast (addr - 4 - locaddr))
       in thenM (patch_cell loc i (\<lambda>_. v))
            (update_symbol name (\<lambda>l. l\<lparr>loc_size := ucast v\<rparr>))))))"

fun run_op :: "string \<Rightarrow> SymbolLocation \<Rightarrow> scheduled_op \<Rightarrow> unit M" where
  "run_op name tgt (Op_endfunc loc) =
     bindM (getM (distance tgt loc)) (\<lambda>diff.
       update_symbol name (\<lambda>l. l\<lparr>loc_size := ucast diff, loc_type := STT_FUNC\<rparr>))"
| "run_op name tgt (Op_set_type t) = update_symbol name (\<lambda>l. l\<lparr>loc_type := t\<rparr>)"
| "run_op name tgt (Op_size loc dataloc) = fix_size loc dataloc name tgt"
| "run_op name tgt (Op_la loc) = fix_la loc tgt"
| "run_op name tgt (Op_laq loc) = fix_laq loc tgt"
| "run_op name tgt (Op_branch loc) = fix_branch loc tgt"
| "run_op name tgt (Op_farcall loc) = fix_farcall loc tgt"
| "run_op name tgt (Op_call loc) = fix_jump loc tgt"
| "run_op name tgt (Op_jmp loc) = fix_jump loc tgt"

text \<open>
  \<^verbatim>\<open>finish_scheduled_work\<close>. The operations change a symbol's type and size only, so the
  symbol's place can be read once.
\<close>

definition run_ops :: "string \<times> scheduled_op list \<Rightarrow> unit M" where
  "run_ops = (\<lambda>(name, ops).
     bindM (getM (\<lambda>s. find_symbol s name)) (\<lambda>f.
       case f of
         Some tgt \<Rightarrow> forM ops (run_op name tgt)
       | None \<Rightarrow> throwM (RuntimeError (''Unknown symbol scheduled: '' @ name))))"

definition finish_scheduled_work :: "unit M" where
  "finish_scheduled_work = bindM (getM m_schedule) (\<lambda>sched. forM sched run_ops)"

end
