(* ===== verification/OpcodeFacts.thy ===== *)
theory OpcodeFacts
  imports Opcodes
begin

text \<open>
  What every instruction handler keeps: the invariant of the assembler, its place among
  the tokens, and the sections, symbols and globals, which a handler only reads; what it
  schedules belongs to the place where its instructions will be put and stays within
  them; and every word it returns has the length of a full instruction.
\<close>

section \<open>Relations that handlers keep\<close>

text \<open>
  A handler is composed of reading tokens, evaluating constants and scheduling a fixup
  at the current place. A relation that these keep is kept by every handler; \<open>ok\<close> says
  which fixups it allows.
\<close>

fun handler_fixups :: "Opcode \<Rightarrow> (SymbolLocation \<Rightarrow> scheduled_op) set" where
  "handler_fixups OP_LA = {Op_la}"
| "handler_fixups OP_LAQ = {Op_laq}"
| "handler_fixups OP_BEQ = {Op_branch}"
| "handler_fixups OP_BNE = {Op_branch}"
| "handler_fixups OP_BLT = {Op_branch}"
| "handler_fixups OP_BGE = {Op_branch}"
| "handler_fixups OP_BLTU = {Op_branch}"
| "handler_fixups OP_BGEU = {Op_branch}"
| "handler_fixups OP_FARCALL = {Op_farcall}"
| "handler_fixups OP_CALL = {Op_call}"
| "handler_fixups OP_JMP = {Op_jmp}"
| "handler_fixups _ = {}"

text \<open>The opcodes that only fix the arguments of a shared helper.\<close>

lemmas wrapper_defs =
  OP_LB_handler_def OP_LH_handler_def OP_LW_handler_def OP_LD_handler_def
  OP_LBU_handler_def OP_LHU_handler_def OP_LWU_handler_def OP_LQ_handler_def
  OP_SB_handler_def OP_SH_handler_def OP_SW_handler_def OP_SD_handler_def
  OP_SQ_handler_def OP_BEQ_handler_def OP_BNE_handler_def OP_BLT_handler_def
  OP_BGE_handler_def OP_BLTU_handler_def OP_BGEU_handler_def OP_ADD_handler_def
  OP_SLL_handler_def OP_SLT_handler_def OP_SLTU_handler_def OP_SRL_handler_def
  OP_AND_handler_def OP_OR_handler_def OP_XOR_handler_def OP_SUB_handler_def
  OP_MUL_handler_def OP_DIV_handler_def OP_DIVU_handler_def OP_REM_handler_def
  OP_REMU_handler_def

lemmas handler_defs =
  OP_NOP_handler_def OP_LI_handler_def OP_SET_handler_def OP_LA_handler_def
  OP_LAQ_handler_def load_helper_def OP_LDU_handler_def store_helper_def branch_helper_def
  OP_FARCALL_handler_def OP_CALL_handler_def OP_JALR_handler_def OP_RET_handler_def
  OP_JMP_handler_def OP_MOV_handler_def OP_INC_handler_def single_def op_imm_helper_def
  op_f7_helper_def OP_SYSCALL_handler_def OP_ECALL_handler_def OP_EBREAK_handler_def
  OP_WFI_handler_def OP_SYSTEM_handler_def optional_constant_def optional_register_def
  argument_mismatch_def Let_def

locale handler_relation = state_preorder R
  for R :: "Assembler \<Rightarrow> Assembler \<Rightarrow> bool" +
  fixes ok :: "(SymbolLocation \<Rightarrow> scheduled_op) \<Rightarrow> bool"
  assumes R_next_token: "keeps R next_token"
    and R_resolve: "keeps R resolve_constants"
    and R_schedule: "ok mk \<Longrightarrow> keeps R (schedule_here lbl mk)"
begin

lemma R_token_exception: "keeps R (token_exception tk)"
  unfolding token_exception_def by (rule keeps_throw)

lemma R_next_tk: "keeps R (next_tk T)"
  unfolding next_tk_def argument_mismatch_def
  by (intro keeps_intros R_next_token R_token_exception)

lemma R_handler:
  assumes "\<forall>mk \<in> handler_fixups opc. ok mk"
  shows "keeps R (opcode_handler opc)"
  using assms
  by (cases opc; simp only: opcode_handler.simps wrapper_defs handler_defs)
    (intro keeps_intros R_next_token R_next_tk R_token_exception R_resolve R_schedule; simp)+

end

section \<open>The invariant and the cursor\<close>

text \<open>Reading tokens moves the cursor and does nothing else.\<close>

definition moves :: "Assembler \<Rightarrow> Assembler \<Rightarrow> bool" where
  "moves s s' \<longleftrightarrow> (\<exists>i \<ge> index s. s' = s\<lparr>index := i\<rparr>)"

lemma next_token_moves: "keeps moves next_token"
  by (auto simp: keeps_def next_token_def moves_def split: if_splits)
    (metis Suc_n_not_le_n nat_le_linear)

lemma resolve_constants_moves: "keeps moves resolve_constants"
proof (rule keepsI)
  fix s a s'
  assume "resolve_constants s = Inr (a, s')"
  then obtain imm s1 where imm: "next_tk TK_CONSTANT s = Inr (imm, s1)"
    and "(case resolve_loop NONE False (u128_of imm) 0 (drop (index s1) (tokens s1)) of
            Inl e \<Rightarrow> Inl e
          | Inr (acc, n) \<Rightarrow> Inr (set_u128 acc imm, s1\<lparr>index := index s1 + n\<rparr>)) = Inr (a, s')"
    unfolding resolve_constants_def bindM_Inr_iff by blast
  then obtain n where s': "s' = s1\<lparr>index := index s1 + n\<rparr>"
    by (auto split: sum.splits)
  from imm obtain tk where "next_token s = Inr (tk, s1)"
    by (auto simp: next_tk_def bindM_Inr_iff argument_mismatch_def token_exception_def
        split: if_splits)
  with next_token_moves obtain i where "index s \<le> i" "s1 = s\<lparr>index := i\<rparr>"
    unfolding keeps_def moves_def by blast
  with s' show "moves s s'" unfolding moves_def by (intro exI [of _ "i + n"]) simp
qed

lemma keeps_moves: "keeps moves m \<Longrightarrow> (\<And>s i. R s (s\<lparr>index := i\<rparr>)) \<Longrightarrow> keeps R m"
  unfolding keeps_def moves_def by blast

lemma schedule_here_evolves:
  assumes "\<And>loc. op_sections (mk loc) = {loc_section loc}"
  shows "keeps evolves (schedule_here lbl mk)"
proof (rule keepsI)
  fix s a s'
  assume "schedule_here lbl mk s = Inr (a, s')"
  then have "schedule (tk_value lbl) (mk (current_location s)) s = Inr (a, s')"
    by (simp add: schedule_here_def bindM_def)
  then show "evolves s s'"
    by (rule schedule_evolves [rotated]) (simp add: assms wf_assembler_def)
qed

lemma schedule_here_advances: "keeps advances (schedule_here lbl mk)"
  unfolding schedule_here_def by (intro cursor.keeps_intros schedule_advances)

interpretation handler_evolution:
  handler_relation evolves "\<lambda>mk. \<forall>loc. op_sections (mk loc) = {loc_section loc}"
  by unfold_locales
    (auto intro: next_token_evolves resolve_constants_evolves schedule_here_evolves)

interpretation handler_cursor: handler_relation advances "\<lambda>_. True"
  by unfold_locales
    (auto intro: next_token_advances resolve_constants_advances schedule_here_advances)

lemma opcode_handler_evolves: "keeps evolves (opcode_handler opc)"
  by (rule handler_evolution.R_handler) (cases opc; simp)

lemma opcode_handler_advances: "keeps advances (opcode_handler opc)"
  by (rule handler_cursor.R_handler) simp

section \<open>What a handler plans\<close>

text \<open>
  The place a fixup patches and how many bytes it reaches from there. Between two states,
  a handler leaves the tables alone except for the schedule, to which it appends fixups
  of the current place that reach at most \<open>k\<close> bytes.
\<close>

fun op_place :: "scheduled_op \<Rightarrow> SymbolLocation option" where
  "op_place (Op_endfunc l) = None"
| "op_place (Op_set_type t) = None"
| "op_place (Op_size l d) = Some l"
| "op_place (Op_la l) = Some l"
| "op_place (Op_laq l) = Some l"
| "op_place (Op_branch l) = Some l"
| "op_place (Op_farcall l) = Some l"
| "op_place (Op_call l) = Some l"
| "op_place (Op_jmp l) = Some l"

fun op_span :: "scheduled_op \<Rightarrow> nat" where
  "op_span (Op_endfunc l) = 0"
| "op_span (Op_set_type t) = 0"
| "op_span (Op_size l d) = 4"
| "op_span (Op_la l) = 8"
| "op_span (Op_laq l) = 48"
| "op_span (Op_branch l) = 4"
| "op_span (Op_farcall l) = 8"
| "op_span (Op_call l) = 4"
| "op_span (Op_jmp l) = 4"

definition ops_for :: "Assembler \<Rightarrow> string \<Rightarrow> scheduled_op list" where
  "ops_for s n = (case om_find (m_schedule s) n of Some ops \<Rightarrow> ops | None \<Rightarrow> [])"

definition plans :: "nat \<Rightarrow> Assembler \<Rightarrow> Assembler \<Rightarrow> bool" where
  "plans k s s' \<longleftrightarrow>
     options s' = options s \<and> m_sections s' = m_sections s \<and> m_lookup s' = m_lookup s \<and>
     m_current_section s' = m_current_section s \<and> m_globals s' = m_globals s \<and>
     (\<forall>n. \<exists>new. ops_for s' n = ops_for s n @ new \<and>
        (\<forall>opn \<in> set new. op_place opn = Some (current_location s) \<and> op_span opn \<le> k))"

lemma plans_location: "plans k s s' \<Longrightarrow> current_location s' = current_location s"
  by (simp add: plans_def current_location_def current_section_def the_section_def find_section_def)

lemma plans_cursor:
  "options s' = options s \<Longrightarrow> m_sections s' = m_sections s \<Longrightarrow> m_lookup s' = m_lookup s \<Longrightarrow>
   m_current_section s' = m_current_section s \<Longrightarrow> m_globals s' = m_globals s \<Longrightarrow>
   m_schedule s' = m_schedule s \<Longrightarrow> plans k s s'"
  by (auto simp: plans_def ops_for_def)

lemma plans_trans:
  assumes "plans k s t" and "plans k t u"
  shows "plans k s u"
proof -
  have "\<exists>new. ops_for u n = ops_for s n @ new \<and>
        (\<forall>opn \<in> set new. op_place opn = Some (current_location s) \<and> op_span opn \<le> k)" for n
  proof -
    obtain a where a: "ops_for t n = ops_for s n @ a"
        "\<forall>opn \<in> set a. op_place opn = Some (current_location s) \<and> op_span opn \<le> k"
      using assms(1) unfolding plans_def by blast
    obtain b where b: "ops_for u n = ops_for t n @ b"
        "\<forall>opn \<in> set b. op_place opn = Some (current_location t) \<and> op_span opn \<le> k"
      using assms(2) unfolding plans_def by blast
    from a b plans_location [OF assms(1)] show ?thesis by (intro exI [of _ "a @ b"]) auto
  qed
  with assms show ?thesis by (simp add: plans_def)
qed

lemma schedule_here_plans:
  assumes "\<forall>loc. op_place (mk loc) = Some loc \<and> op_span (mk loc) \<le> k"
  shows "keeps (plans k) (schedule_here lbl mk)"
proof (rule keepsI)
  fix s a s'
  assume "schedule_here lbl mk s = Inr (a, s')"
  then have s': "s' = s\<lparr>m_schedule :=
      om_put (tk_value lbl) (ops_for s (tk_value lbl) @ [mk (current_location s)]) (m_schedule s)\<rparr>"
    by (simp add: schedule_here_def bindM_def schedule_def ops_for_def)
  show "plans k s s'"
    using assms unfolding plans_def s' by (simp add: ops_for_def om_find_put)
qed

interpretation handler_plan: handler_relation "plans k"
    "\<lambda>mk. \<forall>loc. op_place (mk loc) = Some loc \<and> op_span (mk loc) \<le> k" for k
proof unfold_locales
  show "plans k s s" for s by (simp add: plans_cursor)
  show "plans k s u" if "plans k s t" "plans k t u" for s t u
    using that by (rule plans_trans)
  show "keeps (plans k) next_token" "keeps (plans k) resolve_constants"
    by (rule keeps_moves [OF next_token_moves] keeps_moves [OF resolve_constants_moves];
        simp add: plans_cursor)+
qed (rule schedule_here_plans)

section \<open>What a handler returns\<close>

definition yields :: "('a \<Rightarrow> bool) \<Rightarrow> 'a M \<Rightarrow> bool" where
  "yields P m \<longleftrightarrow> (\<forall>s a s'. m s = Inr (a, s') \<longrightarrow> P a)"

lemma yieldsD: "yields P m \<Longrightarrow> m s = Inr (a, s') \<Longrightarrow> P a"
  by (auto simp: yields_def)

lemma yields_return: "P a \<Longrightarrow> yields P (returnM a)"
  by (simp add: yields_def)

lemma yields_throw: "yields P (throwM e)"
  by (simp add: yields_def)

lemma yields_bind: "(\<And>a. yields P (f a)) \<Longrightarrow> yields P (bindM m f)"
  unfolding yields_def bindM_Inr_iff by blast

lemma yields_bind_Q: "yields Q m \<Longrightarrow> (\<And>a. Q a \<Longrightarrow> yields P (f a)) \<Longrightarrow> yields P (bindM m f)"
  unfolding yields_def bindM_Inr_iff by blast

lemma yields_if: "(b \<Longrightarrow> yields P m) \<Longrightarrow> (\<not> b \<Longrightarrow> yields P n) \<Longrightarrow> yields P (if b then m else n)"
  by simp

lemma yields_token_exception: "yields P (token_exception tk)"
  by (simp add: yields_def token_exception_def)

text \<open>Writing any field but the opcode leaves the two lowest bits.\<close>

lemma is_long_set_field [simp]: "2 \<le> lo \<Longrightarrow> is_long (set_field lo n v w) \<longleftrightarrow> is_long w"
proof -
  assume "2 \<le> lo"
  then have "set_field lo n v w AND mask 2 = w AND mask 2"
    by (intro bit_word_eqI) (auto simp: bit_simps bit_set_field)
  then show ?thesis by (simp add: is_long_def mask_eq_exp_minus_1)
qed

lemma is_long_fields [simp]:
  "is_long (set_rd v w) = is_long w" "is_long (set_funct3 v w) = is_long w"
  "is_long (set_rs1 v w) = is_long w" "is_long (set_rs2 v w) = is_long w"
  "is_long (set_funct7 v w) = is_long w" "is_long (set_Itype_imm v w) = is_long w"
  "is_long (set_Utype_imm v w) = is_long w" "is_long (set_Stype_imm v w) = is_long w"
  "is_long (set_Btype_imm v w) = is_long w" "is_long (set_Jtype_imm v w) = is_long w"
  by (simp_all add: field_defs set_Stype_imm_def set_Btype_imm_def set_Jtype_imm_def)

lemma is_long_opcodes [simp]:
  "is_long RV32I_LOAD" "is_long RV32I_STORE" "is_long RV32I_BRANCH" "is_long RV32I_JALR"
  "is_long RV32I_JAL" "is_long RV32I_OP_IMM" "is_long RV32I_OP" "is_long RV32I_SYSTEM"
  "is_long RV32I_LUI" "is_long RV32I_AUIPC" "is_long RV64I_OP_IMM32" "is_long RV64I_OP32"
  "is_long RV128I_OP_IMM64" "is_long RV128I_OP64"
  by (simp_all add: is_long_def opcode_values)

lemma is_long_set_opcode: "is_long opc \<Longrightarrow> is_long (set_opcode (uint opc) w)"
proof -
  assume "is_long opc"
  then have "opc AND mask 2 = mask 2" by (simp add: is_long_def mask_eq_exp_minus_1)
  moreover have "set_opcode (uint opc) w AND mask 2 = opc AND mask 2"
    unfolding set_opcode_def by (rule bit_word_eqI) (auto simp: bit_simps bit_set_field)
  ultimately show ?thesis by (simp add: is_long_def mask_eq_exp_minus_1)
qed

text \<open>The instances of the templates are over opcodes of full length, as in the table.\<close>

fun template_ok :: "Opcode \<Rightarrow> bool" where
  "template_ok (OP_ADD opc) = is_long opc"
| "template_ok (OP_SLL opc) = is_long opc"
| "template_ok (OP_SLT opc) = is_long opc"
| "template_ok (OP_SLTU opc) = is_long opc"
| "template_ok (OP_SRL opc) = is_long opc"
| "template_ok (OP_AND opc) = is_long opc"
| "template_ok (OP_OR opc) = is_long opc"
| "template_ok (OP_XOR opc) = is_long opc"
| "template_ok (OP_SUB opc) = is_long opc"
| "template_ok (OP_MUL opc) = is_long opc"
| "template_ok (OP_DIV opc) = is_long opc"
| "template_ok (OP_DIVU opc) = is_long opc"
| "template_ok (OP_REM opc) = is_long opc"
| "template_ok (OP_REMU opc) = is_long opc"
| "template_ok _ = True"

lemma opcode_list_template_ok: "(n, opc) \<in> set opcode_list \<Longrightarrow> template_ok opc"
proof -
  have "list_all (template_ok \<circ> snd) opcode_list" by (simp add: opcode_list_def)
  then show "(n, opc) \<in> set opcode_list \<Longrightarrow> template_ok opc" by (auto simp: list_all_iff)
qed

definition code_words :: "nat \<Rightarrow> InstructionList \<Rightarrow> bool" where
  "code_words k il \<longleftrightarrow> (\<forall>w \<in> set il. is_long w) \<and> k \<le> length il"

lemma code_words_append:
  "code_words j xs \<Longrightarrow> code_words k ys \<Longrightarrow> code_words (j + k) (xs @ ys)"
  by (auto simp: code_words_def)

lemma code_words_mono: "code_words k il \<Longrightarrow> j \<le> k \<Longrightarrow> code_words j il"
  by (simp add: code_words_def)

lemma build_uint32_words: "code_words 1 (build_uint32 reg v)"
  by (simp add: build_uint32_def Let_def code_words_def)

lemma shift_add_long [simp]: "is_long (shift_instr dst)" "is_long (add_instr dst temp)"
  by (simp_all add: shift_instr_def add_instr_def)

lemma set_instrs_words: "code_words 1 (set_instrs dst temp v)"
proof -
  have rounds: "code_words 1 (fst p) \<Longrightarrow> code_words 1 (fst (foldl (set_round dst temp) p ls))" for p ls
  proof (induction ls arbitrary: p)
    case Nil
    then show ?case by simp
  next
    case (Cons l ls)
    have "code_words 1 (fst (set_round dst temp p l))"
      using Cons.prems build_uint32_words [of temp l]
      by (auto simp: set_round_def split_beta code_words_def)
    from Cons.IH [OF this] show ?case by simp
  qed
  have "code_words 1 (fst (build_uint32 dst (limb v 3), scast (limb v 3) :: u128))"
    by (simp only: fst_conv build_uint32_words)
  from rounds [OF this] show ?thesis
    by (simp only: set_instrs_def build_uint32_words split: if_split) simp
qed

lemma build_uint32_max: "length (build_uint32 reg 0x7FFFFFFF) = 2"
  by (simp add: build_uint32_def Let_def u_imm.get_put i_imm.get_put)

lemma laq_instrs_words: "code_words 14 (laq_instrs dst temp)"
  using build_uint32_words [of dst "0x7FFFFFFF"] build_uint32_words [of temp "0x7FFFFFFF"]
  by (auto simp: laq_instrs_def code_words_def build_uint32_max length_concat eval_nat_numeral)

text \<open>How many words a handler returns at least: as many as its fixups reach.\<close>

fun handler_words :: "Opcode \<Rightarrow> nat" where
  "handler_words OP_LA = 2"
| "handler_words OP_LAQ = 14"
| "handler_words OP_FARCALL = 2"
| "handler_words _ = 1"

lemma handler_fixups_span:
  "\<forall>mk \<in> handler_fixups opc. \<forall>loc.
     op_place (mk loc) = Some loc \<and> op_span (mk loc) \<le> 4 * handler_words opc"
  by (cases opc; simp)

lemma opcode_handler_plans: "keeps (plans (4 * handler_words opc)) (opcode_handler opc)"
  by (rule handler_plan.R_handler) (rule handler_fixups_span)

lemma op_imm_helper_long: "is_long opc \<Longrightarrow> yields is_long (op_imm_helper opc f3)"
  unfolding op_imm_helper_def argument_mismatch_def optional_register_def
  by (intro yields_bind yields_if yields_token_exception yields_return)
    (auto simp: source_registers_def register_opcode_def is_long_set_opcode split: option.splits)

lemma op_f7_helper_long: "is_long opc \<Longrightarrow> yields is_long (op_f7_helper opc f3 f7)"
  unfolding op_f7_helper_def
  by (intro yields_bind yields_return) (auto simp: source_registers_def split: option.splits)

lemma single_words: "yields is_long m \<Longrightarrow> yields (code_words 1) (single m)"
  unfolding single_def
  by (erule yields_bind_Q) (simp add: yields_return code_words_def)

lemmas yields_intros =
  yields_return yields_throw yields_if yields_token_exception

lemma OP_CALL_words: "yields (code_words 1) OP_CALL_handler"
proof -
  have "yields is_long (if b then bindM (next_tk TK_SYMBOL) (\<lambda>lbl.
            thenM (schedule_here lbl Op_call) (returnM instr))
          else if c then bindM (next_tk TK_CONSTANT) (\<lambda>imm.
            returnM (set_Jtype_imm (i64_of imm) instr))
          else bindM next_token token_exception)" if "is_long instr" for b c instr
    using that by (intro yields_if yields_bind yields_return yields_token_exception) simp_all
  note branches = this [of "set_rd 1 RV32I_JAL"]
  show ?thesis
    unfolding OP_CALL_handler_def Let_def
    by (rule yields_bind, rule yields_bind, rule yields_bind_Q [OF branches], simp)
      (auto intro!: yields_bind yields_return simp: code_words_def split: option.splits)
qed

lemma plain_handler_words:
  "yields (code_words 1) OP_NOP_handler"
  "yields (code_words 2) OP_LA_handler"
  "yields (code_words 1) (load_helper f3)"
  "yields (code_words 1) OP_LDU_handler"
  "yields (code_words 1) (store_helper f3)"
  "yields (code_words 1) (branch_helper f3)"
  "yields (code_words 2) OP_FARCALL_handler"
  "yields (code_words 1) OP_JALR_handler"
  "yields (code_words 1) OP_RET_handler"
  "yields (code_words 1) OP_JMP_handler"
  "yields (code_words 1) OP_MOV_handler"
  "yields (code_words 1) OP_INC_handler"
  "yields (code_words 1) OP_SYSCALL_handler"
  "yields (code_words 1) OP_ECALL_handler"
  "yields (code_words 1) OP_EBREAK_handler"
  "yields (code_words 1) OP_WFI_handler"
  "yields (code_words 1) OP_SYSTEM_handler"
  unfolding handler_defs
  by ((intro yields_bind yields_return yields_throw, simp add: code_words_def split: option.split)
    | rule yields_throw)+

lemma constant_handler_words:
  "yields (code_words 1) OP_LI_handler"
  "yields (code_words 1) OP_SET_handler"
  "yields (code_words 14) OP_LAQ_handler"
  unfolding OP_LI_handler_def OP_SET_handler_def OP_LAQ_handler_def
  by (intro yields_bind yields_return build_uint32_words set_instrs_words laq_instrs_words)+

lemma opcode_handler_words:
  "template_ok opc \<Longrightarrow> yields (code_words (handler_words opc)) (opcode_handler opc)"
  by (cases opc; simp only: opcode_handler.simps wrapper_defs handler_words.simps template_ok.simps)
    (intro plain_handler_words constant_handler_words OP_CALL_words single_words
      op_imm_helper_long op_f7_helper_long; assumption)+

end
