(* ===== verification/FixupFacts.thy ===== *)
theory FixupFacts
  imports Fixups OpcodeFacts
begin

text \<open>
  What the scheduled operations do: they rewrite cells inside the sections and the type
  and size of symbols, and nothing else, so that every address found while they run is
  an address of the finished program; and each leaves an instruction that decodes to the
  distance or the address of its symbol.
\<close>

section \<open>Addresses and lengths stay\<close>

definition shape :: "Section \<Rightarrow> nat \<times> Section" where
  "shape sec = (length (sec_output sec), sec\<lparr>sec_output := []\<rparr>)"

definition place :: "SymbolLocation \<Rightarrow> string \<times> u64" where
  "place l = (loc_section l, loc_offset l)"

text \<open>Everything but the bytes of the sections and the attributes of the symbols.\<close>

definition layout where
  "layout s =
     (s\<lparr>m_sections := [], m_lookup := []\<rparr>,
      \<lambda>n. map_option shape (find_section s n),
      \<lambda>n. map_option place (find_symbol s n))"

definition resolves :: "Assembler \<Rightarrow> Assembler \<Rightarrow> bool" where
  "resolves s s' \<longleftrightarrow> layout s' = layout s \<and> (wf_assembler s \<longrightarrow> wf_assembler s')"

interpretation resolution: state_preorder resolves
  by unfold_locales (auto simp: resolves_def)

lemma resolves_section:
  assumes "resolves s s'"
  shows "map_option shape (find_section s' n) = map_option shape (find_section s n)"
  using assms by (simp add: resolves_def layout_def fun_eq_iff)

lemma resolves_symbol:
  assumes "resolves s s'"
  shows "map_option place (find_symbol s' n) = map_option place (find_symbol s n)"
  using assms by (simp add: resolves_def layout_def fun_eq_iff)

lemma shape_eqD:
  assumes "shape sec' = shape sec"
  shows "length (sec_output sec') = length (sec_output sec)"
    and "m_base_address sec' = m_base_address sec" and "m_idx sec' = m_idx sec"
    and "m_name sec' = m_name sec"
  using assms by (cases sec; cases sec'; simp add: shape_def)+

lemma resolves_the_section:
  assumes "resolves s s'"
  shows "shape (the_section s' n) = shape (the_section s n)"
  using resolves_section [OF assms, of n]
  by (cases "find_section s n"; cases "find_section s' n") (simp_all add: the_section_def)

lemma resolves_address:
  "resolves s s' \<Longrightarrow> location_address s' loc = location_address s loc"
  using shape_eqD(2) [OF resolves_the_section [of s s' "loc_section loc"]]
  by (simp add: location_address_def Section_address_at_def)

lemma resolves_length:
  "resolves s s' \<Longrightarrow> length (sec_output (the_section s' n)) = length (sec_output (the_section s n))"
  by (rule shape_eqD(1) [OF resolves_the_section])

section \<open>Every scheduled operation resolves\<close>

lemma at_location_keeps: "keeps resolves (at_location loc off)"
  unfolding at_location_def Let_def by (intro resolution.keeps_intros)

lemma cell_access_keeps: "keeps resolves (cell_access loc i)"
  unfolding cell_access_def by (intro resolution.keeps_intros)

lemma read_cell_keeps: "keeps resolves (read_cell loc i)"
  unfolding read_cell_def by (intro resolution.keeps_intros cell_access_keeps)

lemma length_patch32: "i + 4 \<le> length bs \<Longrightarrow> length (patch32 i f bs) = length bs"
  by (simp add: patch32_def length_write32 cell_in_def)

text \<open>Replacing the bytes of a section that exists by as many others.\<close>

lemma put_bytes_resolves:
  assumes "find_section s n = Some sec" and "length bs = length (sec_output sec)"
  shows "resolves s (put_section n (sec\<lparr>sec_output := bs\<rparr>) s)"
proof -
  let ?s = "put_section n (sec\<lparr>sec_output := bs\<rparr>) s"
  have "?s\<lparr>m_sections := [], m_lookup := []\<rparr> = s\<lparr>m_sections := [], m_lookup := []\<rparr>"
    by (simp add: put_section_def)
  then have "layout ?s = layout s"
    using assms by (auto simp: layout_def fun_eq_iff find_put_section shape_def)
  moreover have "wf_assembler ?s" if "wf_assembler s"
    using wf_section_ok [OF that assms(1)] assms
    by (intro wf_put_section [OF that assms(1)]) (simp_all add: section_ok_def)
  ultimately show ?thesis by (simp add: resolves_def)
qed

lemma patch_cell_run:
  assumes "patch_cell loc i f s = Inr (a, s')"
  obtains sec where "find_section s (loc_section loc) = Some sec"
    and "i + 4 \<le> length (sec_output sec)"
    and "s' = put_section (loc_section loc)
           (sec\<lparr>sec_output := patch32 i f (sec_output sec)\<rparr>) s"
proof -
  let ?sec = "the_section s (loc_section loc)"
  from assms have len: "i + 4 \<le> length (sec_output ?sec)"
    and s': "s' = put_section (loc_section loc)
           (?sec\<lparr>sec_output := patch32 i f (sec_output ?sec)\<rparr>) s"
    by (auto simp: patch_cell_def cell_access_def bindM_Inr_iff Let_def split: if_splits)
  from len have "find_section s (loc_section loc) = Some ?sec"
    by (auto simp: the_section_def Section_new_def split: option.splits)
  with len s' that show thesis by blast
qed

lemma patch_cell_keeps: "keeps resolves (patch_cell loc i f)"
proof (rule keepsI)
  fix s a s'
  assume "patch_cell loc i f s = Inr (a, s')"
  then show "resolves s s'"
    by (rule patch_cell_run) (auto intro: put_bytes_resolves simp: length_patch32)
qed

lemma map_of_update_all:
  "map_of (map (\<lambda>(n, l). (n, if n = name then f l else l)) xs) m =
     map_option (\<lambda>l. if m = name then f l else l) (map_of xs m)"
  by (induction xs) auto

lemma update_symbol_keeps:
  assumes "\<And>l. place (f l) = place l"
  shows "keeps resolves (update_symbol name f)"
  unfolding update_symbol_def
proof (rule resolution.keeps_modify)
  fix s :: Assembler
  let ?s = "s\<lparr>m_lookup := map (\<lambda>(n, l). (n, if n = name then f l else l)) (m_lookup s)\<rparr>"
  have "map_option place (find_symbol ?s m) = map_option place (find_symbol s m)" for m
    by (cases "find_symbol s m") (simp_all add: find_symbol_def map_of_update_all assms)
  then have "layout ?s = layout s"
    by (simp add: layout_def fun_eq_iff find_section_def)
  moreover have "wf_assembler ?s" if "wf_assembler s"
  proof -
    have "loc_section (f l) = loc_section l" for l
      using assms [of l] by (simp add: place_def)
    with that show ?thesis
      by (auto simp: wf_assembler_def section_names_def comp_def split_beta split: if_splits)
  qed
  ultimately show "resolves s ?s" by (simp add: resolves_def)
qed

lemmas cell_keeps = at_location_keeps read_cell_keeps patch_cell_keeps

lemma set_uint32_keeps: "keeps resolves (set_uint32 loc off v)"
  unfolding set_uint32_def by (intro resolution.keeps_intros cell_keeps)

lemma run_op_resolves: "keeps resolves (run_op name tgt opn)"
  by (cases opn; simp only: run_op.simps fix_size_def fix_la_def fix_laq_def fix_branch_def
      fix_farcall_def fix_jump_def bounds_check_jump_def token_exception_def Let_def)
    (intro resolution.keeps_intros cell_keeps set_uint32_keeps update_symbol_keeps;
      simp add: place_def)+

lemma finish_scheduled_work_resolves: "keeps resolves finish_scheduled_work"
  unfolding finish_scheduled_work_def run_ops_def split_beta
  by (intro resolution.keeps_intros run_op_resolves)

section \<open>What each operation writes\<close>

definition bytes_of :: "Assembler \<Rightarrow> SymbolLocation \<Rightarrow> u8 list" where
  "bytes_of s loc = sec_output (the_section s (loc_section loc))"

definition with_bytes :: "SymbolLocation \<Rightarrow> (u8 list \<Rightarrow> u8 list) \<Rightarrow> Assembler \<Rightarrow> Assembler" where
  "with_bytes loc f s = put_section (loc_section loc)
     ((the_section s (loc_section loc))\<lparr>sec_output := f (bytes_of s loc)\<rparr>) s"

text \<open>The cell at an offset from a location, and that all its bytes exist.\<close>

definition cell_at :: "SymbolLocation \<Rightarrow> u64 \<Rightarrow> nat" where
  "cell_at loc off = unat (loc_offset loc + off)"

definition reaches :: "Assembler \<Rightarrow> SymbolLocation \<Rightarrow> nat \<Rightarrow> bool" where
  "reaches s loc n \<longleftrightarrow> unat (loc_offset loc) + n \<le> length (bytes_of s loc) \<and>
     unat (loc_offset loc) + n < 2 ^ 64"

lemma reaches_code [code]:
  "reaches s loc n \<longleftrightarrow> unat (loc_offset loc) + n \<le> length (bytes_of s loc) \<and>
     int (unat (loc_offset loc) + n) < 2 ^ 64"
proof -
  have "k < 2 ^ 64 \<longleftrightarrow> int k < 2 ^ 64" for k :: nat by simp
  then show ?thesis by (simp only: reaches_def)
qed

lemma cell_at_offset:
  assumes "reaches s loc n" and "unat off < n"
  shows "cell_at loc off = unat (loc_offset loc) + unat off"
  using assms by (simp add: cell_at_def reaches_def unat_word_ariths)

lemma reaches_cell:
  assumes "reaches s loc n" and "unat off + 4 \<le> n"
  shows "cell_in (bytes_of s loc) (cell_at loc off)"
  using assms cell_at_offset [OF assms(1), of off]
  by (simp add: reaches_def cell_in_def)

lemma ucast_offsets: "(ucast (ucast o1 + ucast o2 :: u128) :: u64) = o1 + o2"
  by transfer (simp add: take_bit_add)

lemma at_location_index: "(ucast (base + ucast o1 + ucast o2 - base :: u128) :: u64) = o1 + o2"
  using ucast_offsets [of o1 o2] by (simp add: algebra_simps)

lemma at_location_run:
  "at_location loc off s =
     (if cell_at loc off < length (bytes_of s loc) then Inr (cell_at loc off, s) else Inl OutOfRange)"
  by (simp add: at_location_def bindM_def Let_def location_address_def Section_address_at_def
      at_location_index [simplified] cell_at_def bytes_of_def)

lemma bytes_with_bytes [simp]:
  "bytes_of (with_bytes loc f s) loc = f (bytes_of s loc)"
  by (simp add: with_bytes_def bytes_of_def)

lemma om_put_put: "om_put k v (om_put k w m) = om_put k v m"
  by (induction m) auto

lemma with_bytes_with_bytes: "with_bytes loc g (with_bytes loc f s) = with_bytes loc (g \<circ> f) s"
  by (simp add: with_bytes_def bytes_of_def put_section_def om_put_put the_section_def
      find_section_def om_find_put)

lemma patch_cell_in:
  "cell_in (bytes_of s loc) i \<Longrightarrow> patch_cell loc i f s = Inr ((), with_bytes loc (patch32 i f) s)"
  by (simp add: patch_cell_def cell_access_def bindM_def cell_in_def bytes_of_def with_bytes_def
      Let_def)

lemma read_cell_in:
  "cell_in (bytes_of s loc) i \<Longrightarrow> read_cell loc i s = Inr (read32 i (bytes_of s loc), s)"
  by (simp add: read_cell_def cell_access_def bindM_def cell_in_def bytes_of_def)

lemma patch32_cells: "patch32 i f bs = cells.patch i f bs"
  by (simp add: patch32_def cells.patch_def)

lemma cell_in_patch32 [simp]: "cell_in bs i \<Longrightarrow> cell_in (patch32 i f bs) j = cell_in bs j"
  unfolding patch32_cells by (rule cells.valid_patch)

lemma read_patch32 [simp]: "cell_in bs i \<Longrightarrow> read32 i (patch32 i f bs) = f (read32 i bs)"
  unfolding patch32_cells by (rule cells.read_patch)

lemma read_patch32_apart:
  "cell_in bs i \<Longrightarrow> cell_in bs j \<Longrightarrow> cells_apart i j \<Longrightarrow> read32 j (patch32 i f bs) = read32 j bs"
  unfolding patch32_cells by (rule cells.read_patch_apart)

lemma fix_branch_run:
  assumes "reaches s loc 4"
  shows "fix_branch loc tgt s =
    Inr ((), with_bytes loc (patch32 (cell_at loc 0) (set_Btype_imm (low32 (distance loc tgt s)))) s)"
  using reaches_cell [OF assms, of 0] assms
  by (simp add: fix_branch_def bindM_def at_location_run patch_cell_in cell_in_def)

lemma fix_jump_run:
  assumes "reaches s loc 4"
  shows "fix_jump loc tgt s =
    (let diff = low64 (distance loc tgt s)
     in if diff < -2048 \<or> diff > 2047
        then Inl (RuntimeError (''Token: [Symbol] '' @ int_to_string diff))
        else Inr ((), with_bytes loc (patch32 (cell_at loc 0) (set_Jtype_imm diff)) s))"
  using reaches_cell [OF assms, of 0] assms
  by (simp add: fix_jump_def bindM_def at_location_run patch_cell_in cell_in_def
      bounds_check_jump_def token_exception_def Let_def Token_to_string_def)

lemma fix_farcall_run:
  assumes "reaches s loc 8"
  shows "fix_farcall loc tgt s =
    Inr ((), with_bytes loc
      (patch32 (cell_at loc 4) (set_Itype_imm (uint (location_address s tgt))) \<circ>
       patch32 (cell_at loc 0) (set_Utype_imm (uint (drop_bit 12 (location_address s tgt))))) s)"
  using reaches_cell [OF assms, of 0] reaches_cell [OF assms, of 4]
  by (simp add: fix_farcall_def bindM_def at_location_run patch_cell_in with_bytes_with_bytes)
    (simp add: cell_in_def)

end
