(* ===== verification/CodeGen.thy ===== *)
theory CodeGen
  imports Machine FixupFacts
begin

text \<open>
  What the emitted instruction sequences compute on the machine: constants built by
  \<^verbatim>\<open>build_uint32\<close> and \<^verbatim>\<open>set\<close>, and the addresses that the fixups of
  \<^verbatim>\<open>la\<close>, \<^verbatim>\<open>farcall\<close>, jumps and branches put into their instructions.
\<close>

section \<open>Single instructions\<close>

lemma exec_LUI:
  "Rtype_opcode w = RV32I_LUI \<Longrightarrow>
   exec w m = Some (advance (set_reg (rd_of w) (scast (Utype_upper_imm w)) m))"
  by (simp add: exec_def Let_def)

lemma exec_AUIPC:
  "Rtype_opcode w = RV32I_AUIPC \<Longrightarrow>
   exec w m = Some (advance (set_reg (rd_of w) (pc m + scast (Utype_upper_imm w)) m))"
  by (simp add: exec_def Let_def opcode_values)

lemma exec_ADDI:
  "Rtype_opcode w = RV32I_OP_IMM \<Longrightarrow> Rtype_funct3 w = 0 \<Longrightarrow>
   exec w m = Some (advance (set_reg (rd_of w) (get_reg (rs1_of w) m + scast (Itype_signed_imm w)) m))"
  by (simp add: exec_def Let_def opcode_values)

lemma exec_SLLI:
  "Rtype_opcode w = RV32I_OP_IMM \<Longrightarrow> Rtype_funct3 w = 1 \<Longrightarrow>
   exec w m = Some (advance (set_reg (rd_of w)
     (push_bit (unat (Itype_shift128_imm w)) (get_reg (rs1_of w) m)) m))"
  by (simp add: exec_def Let_def opcode_values)

lemma exec_ADD:
  "Rtype_opcode w = RV32I_OP \<Longrightarrow> Rtype_funct3 w = 0 \<Longrightarrow> Rtype_funct7 w = 0 \<Longrightarrow>
   exec w m = Some (advance (set_reg (rd_of w) (get_reg (rs1_of w) m + get_reg (rs2_of w) m) m))"
  by (simp add: exec_def Let_def opcode_values)

lemma exec_JALR:
  "Rtype_opcode w = RV32I_JALR \<Longrightarrow> Rtype_funct3 w = 0 \<Longrightarrow>
   exec w m = Some ((set_reg (rd_of w) (pc m + 4) m)
     \<lparr>pc := (get_reg (rs1_of w) m + scast (Itype_signed_imm w)) AND NOT 1\<rparr>)"
  by (simp add: exec_def Let_def opcode_values)

section \<open>Upper and lower parts\<close>

text \<open>
  The code splits a number into the part for \<^verbatim>\<open>LUI\<close> or \<^verbatim>\<open>AUIPC\<close> and the sign-extended
  twelve bits for \<^verbatim>\<open>ADDI\<close>: it adds the unsigned low part before it shifts, which
  carries exactly when the signed low part is negative.
\<close>

definition upper_part :: "int \<Rightarrow> int" where
  "upper_part x = drop_bit 12 (x + take_bit 12 x)"

lemma signed_low: "signed_take_bit 11 (x::int) = (x + 2048) mod 4096 - 2048"
  by (simp add: signed_take_bit_eq_take_bit_shift take_bit_eq_mod)

lemma upper_lower: "4096 * upper_part x + signed_take_bit 11 x = x"
proof -
  define q lo where "q = x div 4096" and "lo = x mod 4096"
  have x: "x = 4096 * q + lo" and lo: "0 \<le> lo" "lo < 4096" by (simp_all add: q_def lo_def)
  have up: "upper_part x = q + (2 * lo) div 4096"
  proof -
    have "x + x mod 4096 = 2 * lo + 4096 * q" using x by (simp add: lo_def)
    then have "upper_part x = (2 * lo + 4096 * q) div 4096"
      by (simp add: upper_part_def drop_bit_eq_div take_bit_eq_mod)
    then show ?thesis by simp
  qed
  have down: "(x + 2048) mod 4096 = (lo + 2048) mod 4096"
    unfolding lo_def by (simp add: mod_add_left_eq)
  show ?thesis
  proof (cases "lo < 2048")
    case True
    then have "(2 * lo) div 4096 = 0" "(lo + 2048) mod 4096 = lo + 2048"
      using lo by (simp_all add: div_pos_pos_trivial mod_pos_pos_trivial)
    with x up down show ?thesis by (simp add: signed_low)
  next
    case False
    then have "(2 * lo) div 4096 = 1" using lo by (intro int_div_pos_eq [of _ _ _ "2 * lo - 4096"]) simp_all
    moreover have "(lo + 2048) mod 4096 = lo - 2048"
      using False lo by (intro int_mod_pos_eq [of _ _ 1]) simp_all
    ultimately show ?thesis using x up down by (simp add: signed_low)
  qed
qed

lemma upper_part_fits:
  assumes "- (2 ^ 31) \<le> x" and "x < 2 ^ 31 - 2048"
  shows "- (2 ^ 19) \<le> upper_part x" and "upper_part x < 2 ^ 19"
proof -
  have "- 2048 \<le> signed_take_bit 11 x" "signed_take_bit 11 x < 2048"
    unfolding signed_low by simp_all
  with upper_lower [of x] assms have "- (2 ^ 31) - 2048 < 4096 * upper_part x" "4096 * upper_part x < 2 ^ 31"
    by linarith+
  then show "- (2 ^ 19) \<le> upper_part x" "upper_part x < 2 ^ 19" by simp_all
qed

lemma signed_take_bit_fits:
  "- (2 ^ n) \<le> x \<Longrightarrow> x < 2 ^ n \<Longrightarrow> signed_take_bit n (x::int) = x"
  by (simp add: signed_take_bit_int_eq_self)

lemma upper_lower_sum:
  assumes "- (2 ^ 31) \<le> x" and "x < 2 ^ 31 - 2048"
  shows "signed_take_bit 31 (push_bit 12 (upper_part x)) + signed_take_bit 11 x = x"
proof -
  have "signed_take_bit 31 (push_bit 12 (upper_part x)) = 4096 * upper_part x"
    using upper_part_fits [OF assms] by (subst signed_take_bit_fits) (simp_all add: push_bit_eq_mult)
  with upper_lower [of x] show ?thesis by simp
qed

section \<open>32-bit constants\<close>

text \<open>The sequence leaves a value in a register and touches no other.\<close>

definition loads :: "int \<Rightarrow> u128 \<Rightarrow> u32 list \<Rightarrow> bool" where
  "loads r v ws \<longleftrightarrow> (\<forall>m. exec_all ws m =
     Some ((set_reg (nat r) v m)\<lparr>pc := pc m + 4 * of_nat (length ws)\<rparr>))"

lemma build_upper:
  assumes "- (2 ^ 31) \<le> sint (v::u32)" and "sint v < 2 ^ 31 - 2048"
  shows "sint (signed_drop_bit 12 (v + take_bit 12 v) :: u32) = upper_part (sint v)"
proof -
  have low: "uint (take_bit 12 v) = take_bit 12 (sint v)"
    by (simp add: unsigned_take_bit_eq sint_uint take_bit_signed_take_bit)
  have bound: "0 \<le> take_bit 12 (sint v)" "take_bit 12 (sint v) < 4096"
    by (simp_all add: take_bit_eq_mod)
  have "4096 * upper_part (sint v) \<le> sint v + 2048"
    using upper_lower [of "sint v"] by (simp add: signed_low)
  have "v + take_bit 12 v = word_of_int (sint v + take_bit 12 (sint v))"
    by (simp flip: low)
  then have "sint (v + take_bit 12 v) = signed_take_bit 31 (sint v + take_bit 12 (sint v))"
    by (simp only: sint_sbintrunc') simp
  moreover have "sint v + take_bit 12 (sint v) < 2 ^ 31"
  proof -
    have "sint v + take_bit 12 (sint v) < 4096 * (upper_part (sint v) + 1)"
      unfolding upper_part_def drop_bit_eq_div by simp
    also have "\<dots> \<le> 2 ^ 31" using upper_part_fits(2) [OF assms] by simp
    finally show ?thesis .
  qed
  moreover have "- (2 ^ 31) \<le> sint v + take_bit 12 (sint v)"
    using assms(1) bound(1) by linarith
  ultimately have "sint (v + take_bit 12 v) = sint v + take_bit 12 (sint v)"
    by (simp only: signed_take_bit_fits)
  then show ?thesis by (simp add: upper_part_def sint_signed_drop_bit_eq)
qed

lemma take_bit_12_mask: "(v::u32) AND 0xFFF = take_bit 12 v"
  by (simp add: take_bit_eq_mask mask_eq_exp_minus_1)

lemma upper_field_zero:
  assumes "- (2 ^ 19) \<le> u" and "u < 2 ^ 19" and "take_bit 20 (word_of_int u :: u32) = 0"
  shows "u = 0"
proof -
  have "uint (take_bit 20 (word_of_int u :: u32)) = take_bit 20 u"
    by (simp add: unsigned_take_bit_eq uint_word_of_int_eq)
  with assms(3) have "u mod 2 ^ 20 = 0" by (simp add: take_bit_eq_mod)
  then have "2 ^ 20 dvd u" by (simp add: mod_eq_0_iff_dvd)
  then obtain k where "u = 2 ^ 20 * k" by (rule dvdE)
  with assms(1,2) show ?thesis by simp
qed

lemma build_uint32_parts:
  fixes v :: u32
  assumes "- (2 ^ 31) \<le> sint v" and "sint v < 2 ^ 31 - 2048"
  shows "build_uint32 r v =
    (let i1 = set_Itype_imm (sint v) (set_rd r RV32I_OP_IMM);
         i2 = set_Utype_imm (upper_part (sint v)) (set_rd r RV32I_LUI)
     in if upper_part (sint v) \<noteq> 0
        then i2 # (if take_bit 12 v \<noteq> 0 then [set_rs1 r i1] else [])
        else [i1])"
proof -
  have "take_bit 20 (word_of_int (upper_part (sint v)) :: u32) = 0 \<longleftrightarrow> upper_part (sint v) = 0"
    using upper_field_zero upper_part_fits [OF assms] by auto
  moreover have "word_of_int (sint v) = v" by simp
  ultimately show ?thesis
    by (simp only: build_uint32_def Let_def i_imm.get_put u_imm.get_put
        take_bit_12_mask build_upper [OF assms])
qed

lemma set_reg_set_reg [simp]: "set_reg n v (set_reg n w m) = set_reg n v m"
  by (simp add: set_reg_def)

lemma get_set_reg: "get_reg n (set_reg k v m) = (if n = k \<and> n \<noteq> 0 then v else get_reg n m)"
  by (simp add: get_reg_def set_reg_def)

lemma machine_pc [simp]:
  "pc (set_reg n v m) = pc m" "pc (advance m) = pc m + 4"
  "set_reg n v (advance m) = advance (set_reg n v m)" "get_reg n (advance m) = get_reg n m"
  "get_reg n (m\<lparr>pc := p\<rparr>) = get_reg n m" "set_reg n v (m\<lparr>pc := p\<rparr>) = (set_reg n v m)\<lparr>pc := p\<rparr>"
  by (simp_all add: set_reg_def advance_def get_reg_def)

lemma build_uint32_loads:
  fixes v :: u32
  assumes r: "0 < r" "r < 32" and v: "sint v < 2 ^ 31 - 2048"
  shows "loads r (scast v) (build_uint32 r v)"
proof -
  have lo: "- (2 ^ 31) \<le> sint v" using sint_greater_eq [of v] by simp
  note parts = build_uint32_parts [OF lo v, of r]
  let ?u = "upper_part (sint v)" and ?l = "signed_take_bit 11 (sint v)"
  have sum: "signed_take_bit 31 (push_bit 12 ?u) + ?l = sint v"
    by (rule upper_lower_sum [OF lo v])
  have sumw: "word_of_int (signed_take_bit 31 (push_bit 12 ?u)) + word_of_int ?l = (scast v :: u128)"
    by (simp only: scast_sint sum flip: of_int_add)
  have nr: "nat r \<noteq> 0" using r by simp
  consider "?u = 0" | "?u \<noteq> 0" "take_bit 12 v = 0" | "?u \<noteq> 0" "take_bit 12 v \<noteq> 0" by blast
  then show ?thesis
  proof cases
    case 1
    with sumw have "word_of_int ?l = (scast v :: u128)" by simp
    with 1 r show ?thesis
      by (simp add: loads_def parts exec_ADDI get_reg_def advance_def)
  next
    case 2
    have "uint (take_bit 12 v) = take_bit 12 (sint v)"
      by (simp add: unsigned_take_bit_eq sint_uint take_bit_signed_take_bit)
    with 2(2) have "sint v mod 4096 = 0" by (simp add: take_bit_eq_mod)
    then have "(sint v + 2048) mod 4096 = 2048" by (simp add: mod_add_left_eq [symmetric])
    then have "?l = 0" by (simp add: signed_low)
    with sumw have "word_of_int (signed_take_bit 31 (push_bit 12 ?u)) = (scast v :: u128)"
      by (simp only: of_int_0 add_0_right)
    with 2 r show ?thesis
      by (simp add: loads_def parts exec_LUI advance_def)
  next
    case 3
    with sumw r nr show ?thesis
      by (simp add: loads_def parts exec_LUI exec_ADDI advance_def get_set_reg)
  qed
qed

section \<open>Fixups that land\<close>

lemma low32_fits: "- (2 ^ 31) \<le> sint w \<Longrightarrow> sint w < 2 ^ 31 \<Longrightarrow> low32 w = sint w"
proof -
  assume b: "- (2 ^ 31) \<le> sint w" "sint w < 2 ^ 31"
  have "low32 w = signed_take_bit 31 (uint w)"
    by (simp add: low32_def sint_uint unsigned_ucast_eq signed_take_bit_take_bit)
  also have "\<dots> = signed_take_bit 31 (sint w)"
    by (simp add: sint_uint min_def)
  also have "\<dots> = sint w" using b by (rule signed_take_bit_fits)
  finally show ?thesis .
qed

lemma low64_fits: "- (2 ^ 63) \<le> sint w \<Longrightarrow> sint w < 2 ^ 63 \<Longrightarrow> low64 w = sint w"
proof -
  assume b: "- (2 ^ 63) \<le> sint w" "sint w < 2 ^ 63"
  have "low64 w = signed_take_bit 63 (uint w)"
    by (simp add: low64_def sint_uint unsigned_ucast_eq signed_take_bit_take_bit)
  also have "\<dots> = signed_take_bit 63 (sint w)"
    by (simp add: sint_uint min_def)
  also have "\<dots> = sint w" using b by (rule signed_take_bit_fits)
  finally show ?thesis .
qed

text \<open>The place plus the distance is the symbol.\<close>

lemma place_plus_distance: "location_address s loc + distance loc tgt s = location_address s tgt"
  by (simp add: distance_def)

lemma scast_decoded: "sint x = sint (w::u128) \<Longrightarrow> (scast x :: u128) = w"
proof -
  assume e: "sint x = sint w"
  have "(scast x :: u128) = word_of_int (sint w)" by (simp only: scast_sint e)
  then show ?thesis by simp
qed

text \<open>A branch keeps everything but the offset.\<close>

lemma set_Btype_imm_other [simp]:
  "Rtype_opcode (set_Btype_imm v w) = Rtype_opcode w"
  "Rtype_funct3 (set_Btype_imm v w) = Rtype_funct3 w"
  "Rtype_rs1 (set_Btype_imm v w) = Rtype_rs1 w"
  "Rtype_rs2 (set_Btype_imm v w) = Rtype_rs2 w"
  by (simp_all add: set_Btype_imm_def field_defs)

lemma fix_branch_word:
  assumes "reaches s loc 4" and "fix_branch loc tgt s = Inr (a, s')"
  shows "read32 (cell_at loc 0) (bytes_of s' loc) =
    set_Btype_imm (low32 (distance loc tgt s)) (read32 (cell_at loc 0) (bytes_of s loc))"
proof -
  have "s' = with_bytes loc (patch32 (cell_at loc 0) (set_Btype_imm (low32 (distance loc tgt s)))) s"
    using assms by (simp add: fix_branch_run)
  moreover have "cell_in (bytes_of s loc) (cell_at loc 0)"
    using assms(1) by (rule reaches_cell) simp
  ultimately show ?thesis by simp
qed

lemma fix_branch_lands:
  assumes "reaches s loc 4" and "even (sint (distance loc tgt s))"
    and "- (2 ^ 12) \<le> sint (distance loc tgt s)" and "sint (distance loc tgt s) < 2 ^ 12"
  obtains s' where "fix_branch loc tgt s = Inr ((), s')"
    and "location_address s loc + scast (Btype_signed_imm (read32 (cell_at loc 0) (bytes_of s' loc)))
         = location_address s tgt"
proof -
  let ?d = "distance loc tgt s"
  have low: "low32 ?d = sint ?d" using assms(3,4) by (intro low32_fits) simp_all
  have "cell_in (bytes_of s loc) (cell_at loc 0)" using reaches_cell [OF assms(1), of 0] by simp
  moreover have "(scast (Btype_signed_imm (set_Btype_imm (sint ?d) w)) :: u128) = ?d" for w
    using Btype_signed_imm_set [OF assms(2)] signed_take_bit_fits [of 12 "sint ?d"] assms(3,4)
    by (intro scast_decoded) simp
  ultimately show thesis
    using place_plus_distance [of s loc tgt]
    by (intro that [OF fix_branch_run [OF assms(1)]]) (simp add: low)
qed

lemma fix_jump_lands:
  assumes "reaches s loc 4" and "even (sint (distance loc tgt s))"
    and "- 2048 \<le> sint (distance loc tgt s)" and "sint (distance loc tgt s) \<le> 2047"
  obtains s' where "fix_jump loc tgt s = Inr ((), s')"
    and "location_address s loc + scast (Jtype_jump_offset (read32 (cell_at loc 0) (bytes_of s' loc)))
         = location_address s tgt"
proof -
  let ?d = "distance loc tgt s"
  have low: "low64 ?d = sint ?d" using assms(3,4) by (intro low64_fits) simp_all
  have "cell_in (bytes_of s loc) (cell_at loc 0)" using reaches_cell [OF assms(1), of 0] by simp
  moreover have "(scast (Jtype_jump_offset (set_Jtype_imm (sint ?d) w)) :: u128) = ?d" for w
    using Jtype_jump_offset_set [OF assms(2)] signed_take_bit_fits [of 19 "sint ?d"] assms(3,4)
    by (intro scast_decoded) simp
  moreover have "fix_jump loc tgt s =
      Inr ((), with_bytes loc (patch32 (cell_at loc 0) (set_Jtype_imm (sint ?d))) s)"
    using fix_jump_run [OF assms(1), of tgt] assms(3,4) by (simp add: low Let_def)
  ultimately show thesis
    using place_plus_distance [of s loc tgt] by (intro that) (assumption, simp)
qed

text \<open>The pair that \<^verbatim>\<open>la\<close> emits, after its fixup has run with a symbol that is near.\<close>

lemma cells_apart_4: "reaches s loc 8 \<Longrightarrow> cells_apart (cell_at loc 0) (cell_at loc 4)"
  using cell_at_offset [of s loc 8 0] cell_at_offset [of s loc 8 4]
  by (simp add: cells_apart_def)

lemma cells_apart_4': "reaches s loc 8 \<Longrightarrow> cells_apart (cell_at loc 4) (cell_at loc 0)"
  using cells_apart_4 by (rule cells.apart_sym)

lemma uint_Itype_set: "uint (Itype_imm (set_Itype_imm v w)) = take_bit 12 v"
  by (simp add: unsigned_take_bit_eq uint_word_of_int_eq)

lemma fix_la_near:
  assumes reach: "reaches s loc 8"
    and near: "- (2 ^ 31) \<le> sint (distance loc tgt s)" "sint (distance loc tgt s) < 2 ^ 31"
  shows "fix_la loc tgt s = Inr ((), with_bytes loc
    (patch32 (cell_at loc 0) (set_Utype_imm (upper_part (sint (distance loc tgt s)))) \<circ>
     patch32 (cell_at loc 0) (set_opcode (uint RV32I_AUIPC)) \<circ>
     patch32 (cell_at loc 4) (set_Itype_imm (sint (distance loc tgt s)))) s)"
proof -
  let ?d = "sint (distance loc tgt s)"
  have c: "cell_in (bytes_of s loc) (cell_at loc 0)" "cell_in (bytes_of s loc) (cell_at loc 4)"
    using reaches_cell [OF reach, of 0] reaches_cell [OF reach, of 4] by simp_all
  have low: "low64 (distance loc tgt s) = ?d" using near by (intro low64_fits) simp_all
  have "drop_bit 12 (?d + uint (Itype_imm (set_Itype_imm ?d w))) = upper_part ?d" for w
    by (simp only: upper_part_def uint_Itype_set)
  then show ?thesis
    using c near cells_apart_4 [OF reach]
    by (simp add: fix_la_def bindM_def at_location_run low is_relatively_close_def patch_cell_in
        read_cell_in with_bytes_with_bytes read_patch32_apart comp_assoc del: get_same_fields)
      (simp add: cell_in_def)
qed

text \<open>The two words at a location.\<close>

definition pair_at :: "SymbolLocation \<Rightarrow> Assembler \<Rightarrow> u32 list" where
  "pair_at loc s = [read32 (cell_at loc 0) (bytes_of s loc), read32 (cell_at loc 4) (bytes_of s loc)]"

lemma pair_patched:
  assumes "reaches s loc 8"
  shows "pair_at loc (with_bytes loc (patch32 (cell_at loc 0) f \<circ> patch32 (cell_at loc 0) g \<circ>
            patch32 (cell_at loc 4) h) s) =
         [f (g (read32 (cell_at loc 0) (bytes_of s loc))), h (read32 (cell_at loc 4) (bytes_of s loc))]"
    and "pair_at loc (with_bytes loc (patch32 (cell_at loc 4) h \<circ> patch32 (cell_at loc 0) f) s) =
         [f (read32 (cell_at loc 0) (bytes_of s loc)), h (read32 (cell_at loc 4) (bytes_of s loc))]"
  using reaches_cell [OF assms, of 0] reaches_cell [OF assms, of 4]
    cells_apart_4 [OF assms] cells_apart_4' [OF assms]
  by (simp_all add: pair_at_def read_patch32_apart)

definition la_pair :: "int \<Rightarrow> u32 list" where
  "la_pair r = [set_rd r RV32I_LUI, set_rs1 r (set_rd r RV32I_OP_IMM)]"

lemma opcode_auipc [simp]: "take_bit 7 RV32I_AUIPC = RV32I_AUIPC"
  by (simp add: opcode_values)

lemma sum_is_word:
  "a + b = sint (w::u128) \<Longrightarrow> word_of_int a + word_of_int b = w"
  by (metis of_int_add scast_id scast_sint)

lemma la_lands:
  assumes r: "0 < r" "r < 32" and reach: "reaches s loc 8" and pair: "pair_at loc s = la_pair r"
    and near: "- (2 ^ 31) \<le> sint (distance loc tgt s)" "sint (distance loc tgt s) < 2 ^ 31 - 2048"
    and pc: "pc m = location_address s loc"
  obtains s' where "fix_la loc tgt s = Inr ((), s')"
    and "exec_all (pair_at loc s') m =
           Some ((set_reg (nat r) (location_address s tgt) m)\<lparr>pc := pc m + 8\<rparr>)"
proof -
  let ?d = "distance loc tgt s"
  let ?w1 = "set_Utype_imm (upper_part (sint ?d)) (set_opcode (uint RV32I_AUIPC) (set_rd r RV32I_LUI))"
  let ?w2 = "set_Itype_imm (sint ?d) (set_rs1 r (set_rd r RV32I_OP_IMM))"
  have run: "fix_la loc tgt s = Inr ((), with_bytes loc
    (patch32 (cell_at loc 0) (set_Utype_imm (upper_part (sint ?d))) \<circ>
     patch32 (cell_at loc 0) (set_opcode (uint RV32I_AUIPC)) \<circ>
     patch32 (cell_at loc 4) (set_Itype_imm (sint ?d))) s)"
    using near by (intro fix_la_near [OF reach]) simp_all
  have sum: "word_of_int (signed_take_bit 31 (push_bit 12 (upper_part (sint ?d))))
      + word_of_int (signed_take_bit 11 (sint ?d)) = ?d"
    by (rule sum_is_word [OF upper_lower_sum [OF near]])
  have "exec_all [?w1, ?w2] m = Some ((set_reg (nat r) (pc m +
      (word_of_int (signed_take_bit 31 (push_bit 12 (upper_part (sint ?d))))
      + word_of_int (signed_take_bit 11 (sint ?d)))) m)\<lparr>pc := pc m + 8\<rparr>)"
    using r by (simp add: exec_AUIPC exec_ADDI advance_def get_set_reg add.assoc)
  then have "exec_all [?w1, ?w2] m = Some ((set_reg (nat r) (location_address s tgt) m)\<lparr>pc := pc m + 8\<rparr>)"
    by (simp only: sum pc place_plus_distance)
  moreover have "pair_at loc (with_bytes loc
    (patch32 (cell_at loc 0) (set_Utype_imm (upper_part (sint ?d))) \<circ>
     patch32 (cell_at loc 0) (set_opcode (uint RV32I_AUIPC)) \<circ>
     patch32 (cell_at loc 4) (set_Itype_imm (sint ?d))) s) = [?w1, ?w2]"
    using pair by (simp only: pair_patched(1) [OF reach]) (simp add: pair_at_def la_pair_def)
  ultimately show thesis using run by (intro that) (assumption, simp only:)
qed

section \<open>Far calls\<close>

text \<open>
  A far call shifts the address without the carry, so it arrives 4096 bytes short of a
  symbol whose address has bit 11 set.
\<close>

definition farcall_pair :: "int \<Rightarrow> u32 list" where
  "farcall_pair r = [set_rd r RV32I_LUI, set_rd 1 (set_rs1 r RV32I_JALR)]"

lemma farcall_sum:
  fixes x :: int
  assumes "0 \<le> x" and "x < 2 ^ 31"
  shows "signed_take_bit 31 (push_bit 12 (drop_bit 12 x)) + signed_take_bit 11 x =
         (if x mod 4096 < 2048 then x else x - 4096)"
proof -
  have "push_bit 12 (drop_bit 12 x) = 4096 * (x div 4096)"
    by (simp add: push_bit_eq_mult drop_bit_eq_div)
  moreover have "4096 * (x div 4096) \<le> x" "0 \<le> x div 4096" using assms(1) by simp_all
  ultimately have up: "signed_take_bit 31 (push_bit 12 (drop_bit 12 x)) = 4096 * (x div 4096)"
    using assms by (subst signed_take_bit_fits) simp_all
  have split: "x = 4096 * (x div 4096) + x mod 4096" by simp
  have low: "(x + 2048) mod 4096 = (x mod 4096 + 2048) mod 4096" by (simp add: mod_add_left_eq)
  show ?thesis
  proof (cases "x mod 4096 < 2048")
    case True
    then have "(x mod 4096 + 2048) mod 4096 = x mod 4096 + 2048" by (intro mod_pos_pos_trivial) simp_all
    with True up split low show ?thesis by (simp add: signed_low)
  next
    case False
    then have "(x mod 4096 + 2048) mod 4096 = x mod 4096 - 2048"
      by (intro int_mod_pos_eq [of _ _ 1]) simp_all
    with False up split low show ?thesis by (simp add: signed_low)
  qed
qed

definition farcall_target :: "u128 \<Rightarrow> u128" where
  "farcall_target addr = (if uint addr mod 4096 < 2048 then addr else addr - 4096)"

lemma clear_bit_0: "\<not> bit w 0 \<Longrightarrow> w AND NOT 1 = (w::u128)"
  by (rule bit_word_eqI) (auto simp: bit_simps intro: gr0I)

lemma farcall_word:
  assumes "uint (addr::u128) < 2 ^ 31"
  shows "word_of_int (signed_take_bit 31 (push_bit 12 (uint (drop_bit 12 addr)))) +
         word_of_int (signed_take_bit 11 (uint addr)) = farcall_target addr"
proof -
  have "uint (drop_bit 12 addr) = drop_bit 12 (uint addr)"
  proof -
    have "take_bit 128 (uint addr) = uint addr"
      using unsigned_less [of addr] by (intro take_bit_int_eq_self) simp_all
    then show ?thesis by (simp add: unsigned_drop_bit_eq)
  qed
  then have "signed_take_bit 31 (push_bit 12 (uint (drop_bit 12 addr))) + signed_take_bit 11 (uint addr)
      = (if uint addr mod 4096 < 2048 then uint addr else uint addr - 4096)"
    using farcall_sum [of "uint addr"] assms by simp
  then have "word_of_int (signed_take_bit 31 (push_bit 12 (uint (drop_bit 12 addr)))) +
      word_of_int (signed_take_bit 11 (uint addr)) =
      (word_of_int (if uint addr mod 4096 < 2048 then uint addr else uint addr - 4096) :: u128)"
    by (simp only: flip: of_int_add)
  then show ?thesis by (simp add: farcall_target_def)
qed

lemma farcall_lands:
  assumes r: "0 < r" "r < 32" and reach: "reaches s loc 8" and pair: "pair_at loc s = farcall_pair r"
    and addr: "uint (location_address s tgt) < 2 ^ 31" "even (uint (location_address s tgt))"
  obtains s' m' where "fix_farcall loc tgt s = Inr ((), s')" and "exec_all (pair_at loc s') m = Some m'"
    and "pc m' = farcall_target (location_address s tgt)" and "get_reg 1 m' = pc m + 8"
proof -
  let ?a = "location_address s tgt"
  let ?w1 = "set_Utype_imm (uint (drop_bit 12 ?a)) (set_rd r RV32I_LUI)"
  let ?w2 = "set_Itype_imm (uint ?a) (set_rd 1 (set_rs1 r RV32I_JALR))"
  let ?hi = "word_of_int (signed_take_bit 31 (push_bit 12 (uint (drop_bit 12 ?a)))) :: u128"
  have even: "farcall_target ?a AND NOT 1 = farcall_target ?a"
  proof (rule clear_bit_0)
    have "\<not> bit (uint ?a) 0" using addr(2) by (simp only: bit_0) simp
    then have "\<not> bit ?a 0" by (simp add: bit_uint_iff)
    moreover have "bit (?a - 4096) 0 = bit ?a 0" by (simp add: bit_0)
    ultimately show "\<not> bit (farcall_target ?a) 0" by (simp add: farcall_target_def)
  qed
  define m' where "m' = (set_reg 1 (pc m + 8) (set_reg (nat r) ?hi m))\<lparr>pc := farcall_target ?a\<rparr>"
  have "exec_all [?w1, ?w2] m = Some ((set_reg 1 (pc m + 8) (set_reg (nat r) ?hi m))
      \<lparr>pc := (?hi + word_of_int (signed_take_bit 11 (uint ?a))) AND NOT 1\<rparr>)"
    using r by (simp add: exec_LUI exec_JALR get_set_reg advance_def) (simp add: add.commute)
  then have "exec_all [?w1, ?w2] m = Some m'"
    by (simp only: farcall_word [OF addr(1)] even m'_def)
  moreover have "pair_at loc (with_bytes loc
      (patch32 (cell_at loc 4) (set_Itype_imm (uint ?a)) \<circ>
       patch32 (cell_at loc 0) (set_Utype_imm (uint (drop_bit 12 ?a)))) s) = [?w1, ?w2]"
    using pair by (simp only: pair_patched(2) [OF reach]) (simp add: pair_at_def farcall_pair_def)
  ultimately show thesis
    using fix_farcall_run [OF reach, of tgt]
    by (intro that [of _ m']) (assumption, simp only:, simp_all add: m'_def get_set_reg)
qed

section \<open>Wide constants\<close>

definition tame :: "u32 \<Rightarrow> bool" where
  "tame l \<longleftrightarrow> sint l < 2 ^ 31 - 2048"

definition limb_sum :: "u128 \<Rightarrow> u128" where
  "limb_sum v = foldl (\<lambda>a i. push_bit 32 a + scast (limb v i)) (scast (limb v 3)) [2, 1, 0]"

text \<open>
  A run that leaves \<open>v\<close> in \<open>dst\<close>, changes at most \<open>dst\<close> and \<open>temp\<close>, and goes on after
  the sequence.
\<close>

definition leaves :: "int \<Rightarrow> int \<Rightarrow> u128 \<Rightarrow> u32 list \<Rightarrow> bool" where
  "leaves dst temp v ws \<longleftrightarrow> (\<forall>m. \<exists>m'. exec_all ws m = Some m' \<and> get_reg (nat dst) m' = v \<and>
     pc m' = pc m + 4 * of_nat (length ws) \<and>
     (\<forall>n. n \<noteq> nat dst \<longrightarrow> n \<noteq> nat temp \<longrightarrow> get_reg n m' = get_reg n m))"

lemma loads_leaves: "0 < r \<Longrightarrow> loads r v ws \<Longrightarrow> leaves r temp v ws"
  by (auto simp: loads_def leaves_def get_set_reg)

lemma exec_shift:
  "0 < dst \<Longrightarrow> dst < 32 \<Longrightarrow>
   exec (shift_instr dst) m = Some (advance (set_reg (nat dst) (push_bit 32 (get_reg (nat dst) m)) m))"
proof -
  assume d: "0 < dst" "dst < 32"
  have "unat (Itype_shift128_imm (set_Itype_imm 32 w)) = 32" for w
    by (simp add: Itype_shift128_imm_def)
  with d show ?thesis
    by (simp add: shift_instr_def exec_SLLI)
qed

lemma exec_add:
  "0 < dst \<Longrightarrow> dst < 32 \<Longrightarrow> 0 < temp \<Longrightarrow> temp < 32 \<Longrightarrow>
   exec (add_instr dst temp) m =
     Some (advance (set_reg (nat dst) (get_reg (nat dst) m + get_reg (nat temp) m) m))"
  by (simp add: add_instr_def exec_ADD)

text \<open>One round: the next limb is added to what is there, shifted.\<close>

lemma set_round_leaves:
  assumes regs: "0 < dst" "dst < 32" "0 < temp" "temp < 32" "dst \<noteq> temp"
    and prev: "leaves dst temp v res" and so_far: "so_far = 0 \<longrightarrow> v = 0" and l: "tame l"
  shows "leaves dst temp (push_bit 32 v + scast l) (fst (set_round dst temp (res, so_far) l))"
  unfolding leaves_def
proof
  fix m
  obtain m1 where m1: "exec_all res m = Some m1" "get_reg (nat dst) m1 = v"
      "pc m1 = pc m + 4 * of_nat (length res)"
      "\<forall>n. n \<noteq> nat dst \<longrightarrow> n \<noteq> nat temp \<longrightarrow> get_reg n m1 = get_reg n m"
    using prev unfolding leaves_def by blast
  have "loads temp (scast l) (build_uint32 temp l)"
    using regs l by (intro build_uint32_loads) (simp_all add: tame_def)
  then have b: "exec_all (build_uint32 temp l) m1 = Some ((set_reg (nat temp) (scast l) m1)
      \<lparr>pc := pc m1 + 4 * of_nat (length (build_uint32 temp l))\<rparr>)"
    unfolding loads_def by blast
  have ne: "nat dst \<noteq> nat temp" "nat dst \<noteq> 0" "nat temp \<noteq> 0" using regs by simp_all
  show "\<exists>m'. exec_all (fst (set_round dst temp (res, so_far) l)) m = Some m' \<and>
      get_reg (nat dst) m' = push_bit 32 v + scast l \<and>
      pc m' = pc m + 4 * of_nat (length (fst (set_round dst temp (res, so_far) l))) \<and>
      (\<forall>n. n \<noteq> nat dst \<longrightarrow> n \<noteq> nat temp \<longrightarrow> get_reg n m' = get_reg n m)"
  proof (cases "so_far = 0")
    case True
    with so_far have "v = 0" by simp
    with True m1 b regs ne show ?thesis
      by (simp add: set_round_def exec_all_append exec_add get_set_reg algebra_simps)
  next
    case False
    with m1 b regs ne show ?thesis
      by (simp add: set_round_def exec_all_append exec_add exec_shift get_set_reg algebra_simps)
  qed
qed

definition tracks :: "u128 \<Rightarrow> u128 \<Rightarrow> bool" where
  "tracks so_far v \<longleftrightarrow> (\<forall>k. push_bit k so_far = 0 \<longrightarrow> push_bit k v = 0)"

lemma tracks_round: "tracks so_far v \<Longrightarrow> tracks (push_bit 32 so_far OR scast l) (push_bit 32 v + scast l)"
  unfolding tracks_def by (simp add: push_bit_or push_bit_add or_eq_0_iff)

lemma set_rounds_leave:
  assumes regs: "0 < dst" "dst < 32" "0 < temp" "temp < 32" "dst \<noteq> temp"
  shows "\<forall>l \<in> set ls. tame l \<Longrightarrow> leaves dst temp v res \<Longrightarrow> tracks so_far v \<Longrightarrow>
    leaves dst temp (foldl (\<lambda>a l. push_bit 32 a + scast l) v ls)
      (fst (foldl (set_round dst temp) (res, so_far) ls))"
proof (induction ls arbitrary: v res so_far)
  case Nil
  then show ?case by simp
next
  case (Cons l ls)
  let ?p = "set_round dst temp (res, so_far) l"
  have "so_far = 0 \<longrightarrow> v = 0" using Cons.prems(3) [unfolded tracks_def, rule_format, of 0] by simp
  then have "leaves dst temp (push_bit 32 v + scast l) (fst ?p)"
    using Cons.prems by (intro set_round_leaves [OF regs]) simp_all
  moreover have "tracks (snd ?p) (push_bit 32 v + scast l)"
    using tracks_round [OF Cons.prems(3)] by (simp add: set_round_def)
  ultimately show ?case
    using Cons.IH [of "push_bit 32 v + scast l" "fst ?p" "snd ?p"] Cons.prems(1) by simp
qed

lemma set_instrs_leave:
  assumes regs: "0 < dst" "dst < 32" "0 < temp" "temp < 32" "dst \<noteq> temp"
    and wide: "0x100000000 \<le> v" and limbs: "\<forall>i < 4. tame (limb v i)"
  shows "leaves dst temp (limb_sum v) (set_instrs dst temp v)"
proof -
  have t: "tame (limb v 3)" "\<forall>l \<in> set [limb v 2, limb v 1, limb v 0]. tame l" using limbs by simp_all
  have "loads dst (scast (limb v 3)) (build_uint32 dst (limb v 3))"
    using regs t(1) by (intro build_uint32_loads) (simp_all add: tame_def)
  then have "leaves dst temp (scast (limb v 3)) (build_uint32 dst (limb v 3))"
    using regs(1) by (rule loads_leaves [rotated])
  moreover have "tracks (scast (limb v 3)) (scast (limb v 3))" by (simp add: tracks_def)
  ultimately have "leaves dst temp
      (foldl (\<lambda>a l. push_bit 32 a + scast l) (scast (limb v 3)) [limb v 2, limb v 1, limb v 0])
      (fst (foldl (set_round dst temp) (build_uint32 dst (limb v 3), scast (limb v 3))
        [limb v 2, limb v 1, limb v 0]))"
    by (intro set_rounds_leave [OF regs t(2)])
  moreover have "\<not> v < 0x100000000" using wide by simp
  ultimately show ?thesis by (simp only: set_instrs_def limb_sum_def if_False foldl_Cons foldl_Nil)
qed

text \<open>When no limb has its sign bit set, the sum is the number itself.\<close>

lemma scast_positive: "\<not> bit (l::u32) 31 \<Longrightarrow> (scast l :: u128) = ucast l"
proof (rule bit_word_eqI)
  fix n
  assume l: "\<not> bit l 31"
  have "\<not> bit l n" if "31 \<le> n"
  proof
    assume b: "bit l n"
    then have "n < 32" by (auto dest: bit_imp_le_length)
    with that have "n = 31" by simp
    with b l show False by simp
  qed
  then show "bit (scast l :: u128) n = bit (ucast l :: u128) n" if "n < LENGTH(128)"
    using that l by (auto simp: bit_simps min_def)
qed

lemma add_disjoint_limb: "push_bit 32 (a::u128) + ucast (l::u32) = push_bit 32 a OR ucast l"
  by (rule disjunctive_add) (auto simp: bit_simps dest: bit_imp_le_length)

lemma limb_sum_id:
  assumes "\<forall>i < 4. \<not> bit (limb v i) 31"
  shows "limb_sum v = v"
proof -
  have "scast (limb v 3) = (ucast (limb v 3) :: u128)" "scast (limb v 2) = (ucast (limb v 2) :: u128)"
      "scast (limb v 1) = (ucast (limb v 1) :: u128)" "scast (limb v 0) = (ucast (limb v 0) :: u128)"
    using assms by (simp_all add: scast_positive)
  then have "limb_sum v = push_bit 32 (push_bit 32 (push_bit 32 (ucast (limb v 3)) OR ucast (limb v 2))
      OR ucast (limb v 1)) OR ucast (limb v 0)"
    by (simp only: limb_sum_def foldl_Cons foldl_Nil add_disjoint_limb)
  also have "\<dots> = v"
    unfolding limb_def
  proof (rule bit_word_eqI, goal_cases)
    case (1 n)
    then show ?case
      by (cases "n < 32"; cases "n < 64"; cases "n < 96") (simp_all add: bit_simps, arith+)
  qed
  finally show ?thesis .
qed

end
