(* ===== verification/WideAddresses.thy ===== *)
theory WideAddresses
  imports CodeGen
begin

text \<open>
  The instruction words at a location, one after the other, and what the fixup of
  \<^verbatim>\<open>laq\<close> makes of the fourteen words it was scheduled for.
\<close>

section \<open>Words at a location\<close>

definition words_at :: "nat \<Rightarrow> SymbolLocation \<Rightarrow> Assembler \<Rightarrow> u32 list" where
  "words_at k loc s = map (\<lambda>i. read32 (unat (loc_offset loc) + 4 * i) (bytes_of s loc)) [0..<k]"

lemma length_words_at [simp]: "length (words_at k loc s) = k"
  by (simp add: words_at_def)

lemma cell_of_word:
  assumes "reaches s loc (4 * k)" and "i < k"
  shows "cell_at loc (of_nat (4 * i)) = unat (loc_offset loc) + 4 * i"
    and "cell_in (bytes_of s loc) (unat (loc_offset loc) + 4 * i)"
proof -
  have "4 * i < 2 ^ 64" using assms by (simp add: reaches_def)
  then have u: "unat (of_nat (4 * i) :: u64) = 4 * i"
    by (simp only: unsigned_of_nat) (simp add: take_bit_nat_eq_self)
  show c: "cell_at loc (of_nat (4 * i)) = unat (loc_offset loc) + 4 * i"
    using cell_at_offset [OF assms(1), of "of_nat (4 * i)"] assms(2) u by simp
  show "cell_in (bytes_of s loc) (unat (loc_offset loc) + 4 * i)"
    using reaches_cell [OF assms(1), of "of_nat (4 * i)"] assms(2) u unfolding c by simp
qed

lemma pair_at_words: "reaches s loc 8 \<Longrightarrow> pair_at loc s = words_at 2 loc s"
  using cell_of_word(1) [of s loc 2 0] cell_of_word(1) [of s loc 2 1]
  by (simp add: pair_at_def words_at_def upt_conv_Cons)

text \<open>Patching the cell of one word changes that word.\<close>

definition patch_word :: "SymbolLocation \<Rightarrow> nat \<Rightarrow> (u32 \<Rightarrow> u32) \<Rightarrow> Assembler \<Rightarrow> Assembler" where
  "patch_word loc i f = with_bytes loc (patch32 (unat (loc_offset loc) + 4 * i) f)"

lemma patch_word_run:
  assumes "reaches s loc (4 * k)" and "i < k"
  shows "patch_cell loc (unat (loc_offset loc) + 4 * i) f s = Inr ((), patch_word loc i f s)"
    and "read_cell loc (unat (loc_offset loc) + 4 * i) s = Inr (words_at k loc s ! i, s)"
    and "instruction_at loc (of_nat (4 * i)) s = Inr (unat (loc_offset loc) + 4 * i, s)"
  using cell_of_word [OF assms] assms(2)
  by (simp_all add: patch_word_def patch_cell_in read_cell_in at_location_run words_at_def cell_in_def)

lemma patch_word_reaches:
  assumes "reaches s loc (4 * k)" and "i < k"
  shows "reaches (patch_word loc i f s) loc (4 * k)"
proof -
  have "length (patch32 (unat (loc_offset loc) + 4 * i) f (bytes_of s loc)) = length (bytes_of s loc)"
    using cell_of_word(2) [OF assms] by (simp add: length_patch32 cell_in_def)
  then show ?thesis using assms(1) by (simp add: patch_word_def reaches_def)
qed

lemma words_patch:
  assumes "reaches s loc (4 * k)" and "i < k"
  shows "words_at k loc (patch_word loc i f s) = (words_at k loc s)[i := f (words_at k loc s ! i)]"
proof (rule nth_equalityI)
  fix j assume "j < length (words_at k loc (patch_word loc i f s))"
  then have j: "j < k" by simp
  note ci = cell_of_word(2) [OF assms] and cj = cell_of_word(2) [OF assms(1) j]
  show "words_at k loc (patch_word loc i f s) ! j = (words_at k loc s)[i := f (words_at k loc s ! i)] ! j"
  proof (cases "j = i")
    case True
    with ci j show ?thesis by (simp add: words_at_def patch_word_def)
  next
    case False
    then have "cells_apart (unat (loc_offset loc) + 4 * i) (unat (loc_offset loc) + 4 * j)"
      by (auto simp: cells_apart_def)
    with False ci cj j assms(2) show ?thesis
      by (simp add: words_at_def patch_word_def read_patch32_apart)
  qed
qed simp

section \<open>\<^verbatim>\<open>set_uint32\<close>\<close>

text \<open>The pair of instructions with a value in it.\<close>

definition load_pair :: "int \<Rightarrow> u32 \<Rightarrow> u32 list" where
  "load_pair r v = [set_Utype_imm (upper_part (sint v)) (set_rd r RV32I_LUI),
     set_Itype_imm (sint v) (set_rs1 r (set_rd r RV32I_OP_IMM))]"

lemma load_pair_loads:
  assumes "0 < r" "r < 32" and "tame v"
  shows "loads r (scast v) (load_pair r v)"
proof -
  have "- (2 ^ 31) \<le> sint v" using sint_greater_eq [of v] by simp
  then have "word_of_int (signed_take_bit 31 (push_bit 12 (upper_part (sint v)))) +
      word_of_int (signed_take_bit 11 (sint v)) = (scast v :: u128)"
    using assms(3) by (simp only: scast_sint tame_def upper_lower_sum flip: of_int_add)
  then show ?thesis
    using assms by (simp add: loads_def load_pair_def exec_LUI exec_ADDI advance_def get_set_reg)
qed

lemma set_uint32_run:
  assumes r: "reaches s loc (4 * k)" and i: "Suc i < k"
  obtains s' where "set_uint32 loc (of_nat (4 * i)) v s = Inr ((), s')" and "reaches s' loc (4 * k)"
    and "words_at k loc s' = (words_at k loc s)[Suc i := set_Itype_imm (sint v) (words_at k loc s ! Suc i),
      i := set_Utype_imm (sint (signed_drop_bit 12 (v + take_bit 12 v))) (words_at k loc s ! i)]"
proof -
  have i0: "i < k" using i by simp
  let ?s1 = "patch_word loc (Suc i) (set_Itype_imm (sint v)) s"
  let ?up = "set_Utype_imm (sint (signed_drop_bit 12 (v + take_bit 12 v)))"
  let ?s2 = "patch_word loc i ?up ?s1"
  have off: "(of_nat (4 * i) :: u64) + 4 = of_nat (4 * Suc i)" by simp
  have r1: "reaches ?s1 loc (4 * k)" by (rule patch_word_reaches [OF r i])
  have w1: "words_at k loc ?s1 = (words_at k loc s)[Suc i := set_Itype_imm (sint v) (words_at k loc s ! Suc i)]"
    by (rule words_patch [OF r i])
  have "set_uint32 loc (of_nat (4 * i)) v s = Inr ((), ?s2)"
    unfolding set_uint32_def off
    by (simp only: bindM_def patch_word_run(3) [OF r i0] patch_word_run(3) [OF r i]
        patch_word_run(1) [OF r i] patch_word_run(2) [OF r1 i] patch_word_run(1) [OF r1 i0] w1
        sum.case prod.case)
      (use i in simp)
  moreover have "reaches ?s2 loc (4 * k)" by (rule patch_word_reaches [OF r1 i0])
  moreover have "words_at k loc ?s2 = (words_at k loc s)[Suc i := set_Itype_imm (sint v) (words_at k loc s ! Suc i),
      i := ?up (words_at k loc s ! i)]"
    using i by (simp add: words_patch [OF r1 i0] w1)
  ultimately show thesis by (rule that)
qed

lemma set_uint32_words:
  assumes r: "reaches s loc (4 * k)" and i: "Suc i < k" and v: "tame v"
  obtains s' where "set_uint32 loc (of_nat (4 * i)) v s = Inr ((), s')" and "reaches s' loc (4 * k)"
    and "words_at k loc s' = (words_at k loc s)[Suc i := set_Itype_imm (sint v) (words_at k loc s ! Suc i),
      i := set_Utype_imm (upper_part (sint v)) (words_at k loc s ! i)]"
proof -
  have up: "sint (signed_drop_bit 12 (v + take_bit 12 v) :: u32) = upper_part (sint v)"
    by (rule build_upper) (use v sint_greater_eq [of v] in \<open>simp_all add: tame_def\<close>)
  show thesis by (rule set_uint32_run [OF r i, where v = v, unfolded up]) (rule that)
qed

text \<open>Without any condition on the address the fixup of \<^verbatim>\<open>laq\<close> runs through.\<close>

lemma fix_laq_returns:
  assumes r: "reaches s loc 56"
  shows "\<exists>s'. fix_laq loc tgt s = Inr ((), s')"
proof -
  let ?l = "\<lambda>i. limb (location_address s tgt) i"
  have r0: "reaches s loc (4 * 14)" using r by simp
  have n: "Suc 0 < (14 :: nat)" "Suc 2 < (14 :: nat)" "Suc 6 < (14 :: nat)" "Suc 10 < (14 :: nat)" by simp_all
  obtain s1 where s1: "set_uint32 loc (of_nat (4 * 0)) (?l 3) s = Inr ((), s1)" and r1: "reaches s1 loc (4 * 14)"
    by (rule set_uint32_run [OF r0 n(1)])
  obtain s2 where s2: "set_uint32 loc (of_nat (4 * 2)) (?l 2) s1 = Inr ((), s2)" and r2: "reaches s2 loc (4 * 14)"
    by (rule set_uint32_run [OF r1 n(2)])
  obtain s3 where s3: "set_uint32 loc (of_nat (4 * 6)) (?l 1) s2 = Inr ((), s3)" and r3: "reaches s3 loc (4 * 14)"
    by (rule set_uint32_run [OF r2 n(3)])
  obtain s4 where s4: "set_uint32 loc (of_nat (4 * 10)) (?l 0) s3 = Inr ((), s4)"
    by (rule set_uint32_run [OF r3 n(4)])
  have "fix_laq loc tgt s = Inr ((), s4)"
    using s1 s2 s3 s4 by (simp add: fix_laq_def bindM_def limb_def)
  then show ?thesis ..
qed

section \<open>\<^verbatim>\<open>laq\<close>\<close>

lemma build_uint32_template:
  "build_uint32 r 0x7FFFFFFF =
     [set_Utype_imm (- 524288) (set_rd r RV32I_LUI), set_Itype_imm 0x7FFFFFFF (set_rs1 r (set_rd r RV32I_OP_IMM))]"
proof -
  have comm: "set_rs1 r (set_Itype_imm v w) = set_Itype_imm v (set_rs1 r w)" for v w
    by (simp add: set_rs1_def set_Itype_imm_def set_field_commute)
  show ?thesis
    by (simp add: build_uint32_def comm)
qed

lemma laq_template:
  "laq_instrs dst temp = build_uint32 dst 0x7FFFFFFF @
     build_uint32 temp 0x7FFFFFFF @ [shift_instr dst, add_instr dst temp] @
     build_uint32 temp 0x7FFFFFFF @ [shift_instr dst, add_instr dst temp] @
     build_uint32 temp 0x7FFFFFFF @ [shift_instr dst, add_instr dst temp]"
  by (simp add: laq_instrs_def eval_nat_numeral)

text \<open>The words with an address in them.\<close>

definition laq_words :: "int \<Rightarrow> int \<Rightarrow> u128 \<Rightarrow> u32 list" where
  "laq_words dst temp v =
     load_pair dst (limb v 3) @
     load_pair temp (limb v 2) @ [shift_instr dst, add_instr dst temp] @
     load_pair temp (limb v 1) @ [shift_instr dst, add_instr dst temp] @
     load_pair temp (limb v 0) @ [shift_instr dst, add_instr dst temp]"

lemma load_pair_over:
  "set_Itype_imm (sint v) (set_Itype_imm x w) = set_Itype_imm (sint v) w"
  "set_Utype_imm y (set_Utype_imm x w) = set_Utype_imm y w"
  by (simp_all add: set_Itype_imm_def set_Utype_imm_def set_set_field)

lemma fix_laq_words:
  assumes r: "reaches s loc 56" and w: "words_at 14 loc s = laq_instrs dst temp"
    and tame: "\<forall>i < 4. tame (limb (location_address s tgt) i)"
  obtains s' where "fix_laq loc tgt s = Inr ((), s')"
    and "words_at 14 loc s' = laq_words dst temp (location_address s tgt)"
proof -
  let ?a = "location_address s tgt"
  have t: "tame (limb ?a 3)" "tame (limb ?a 2)" "tame (limb ?a 1)" "tame (limb ?a 0)" using tame by simp_all
  have r0: "reaches s loc (4 * 14)" using r by simp
  have n: "Suc 0 < (14 :: nat)" "Suc 2 < (14 :: nat)" "Suc 6 < (14 :: nat)" "Suc 10 < (14 :: nat)" by simp_all
  obtain s1 where s1: "set_uint32 loc (of_nat (4 * 0)) (limb ?a 3) s = Inr ((), s1)" and r1: "reaches s1 loc (4 * 14)"
    and w1: "words_at 14 loc s1 = (words_at 14 loc s)[Suc 0 := set_Itype_imm (sint (limb ?a 3)) (words_at 14 loc s ! Suc 0),
      0 := set_Utype_imm (upper_part (sint (limb ?a 3))) (words_at 14 loc s ! 0)]"
    by (rule set_uint32_words [OF r0 n(1) t(1)])
  obtain s2 where s2: "set_uint32 loc (of_nat (4 * 2)) (limb ?a 2) s1 = Inr ((), s2)" and r2: "reaches s2 loc (4 * 14)"
    and w2: "words_at 14 loc s2 = (words_at 14 loc s1)[Suc 2 := set_Itype_imm (sint (limb ?a 2)) (words_at 14 loc s1 ! Suc 2),
      2 := set_Utype_imm (upper_part (sint (limb ?a 2))) (words_at 14 loc s1 ! 2)]"
    by (rule set_uint32_words [OF r1 n(2) t(2)])
  obtain s3 where s3: "set_uint32 loc (of_nat (4 * 6)) (limb ?a 1) s2 = Inr ((), s3)" and r3: "reaches s3 loc (4 * 14)"
    and w3: "words_at 14 loc s3 = (words_at 14 loc s2)[Suc 6 := set_Itype_imm (sint (limb ?a 1)) (words_at 14 loc s2 ! Suc 6),
      6 := set_Utype_imm (upper_part (sint (limb ?a 1))) (words_at 14 loc s2 ! 6)]"
    by (rule set_uint32_words [OF r2 n(3) t(3)])
  obtain s4 where s4: "set_uint32 loc (of_nat (4 * 10)) (limb ?a 0) s3 = Inr ((), s4)"
    and w4: "words_at 14 loc s4 = (words_at 14 loc s3)[Suc 10 := set_Itype_imm (sint (limb ?a 0)) (words_at 14 loc s3 ! Suc 10),
      10 := set_Utype_imm (upper_part (sint (limb ?a 0))) (words_at 14 loc s3 ! 10)]"
    by (rule set_uint32_words [OF r3 n(4) t(4)])
  have "fix_laq loc tgt s = Inr ((), s4)"
    using s1 s2 s3 s4 by (simp add: fix_laq_def bindM_def limb_def)
  moreover have "words_at 14 loc s4 = laq_words dst temp ?a"
    unfolding w4 w3 w2 w1 w laq_template build_uint32_template laq_words_def load_pair_def
    by (simp add: load_pair_over numeral_nat)
  ultimately show thesis by (rule that)
qed

lemma round_leaves:
  assumes regs: "0 < dst" "dst < 32" "0 < temp" "temp < 32" "dst \<noteq> temp"
    and prev: "leaves dst temp v res" and l: "tame l"
  shows "leaves dst temp (push_bit 32 v + scast l) (res @ load_pair temp l @ [shift_instr dst, add_instr dst temp])"
  unfolding leaves_def
proof
  fix m
  obtain m1 where m1: "exec_all res m = Some m1" "get_reg (nat dst) m1 = v"
      "pc m1 = pc m + 4 * of_nat (length res)"
      "\<forall>n. n \<noteq> nat dst \<longrightarrow> n \<noteq> nat temp \<longrightarrow> get_reg n m1 = get_reg n m"
    using prev unfolding leaves_def by blast
  have "exec_all (load_pair temp l) m1 = Some ((set_reg (nat temp) (scast l) m1)
      \<lparr>pc := pc m1 + 4 * of_nat (length (load_pair temp l))\<rparr>)"
    using load_pair_loads [OF regs(3,4) l] unfolding loads_def by blast
  moreover have "nat dst \<noteq> nat temp" "nat dst \<noteq> 0" "nat temp \<noteq> 0" using regs by simp_all
  ultimately show "\<exists>m'. exec_all (res @ load_pair temp l @ [shift_instr dst, add_instr dst temp]) m = Some m' \<and>
      get_reg (nat dst) m' = push_bit 32 v + scast l \<and>
      pc m' = pc m + 4 * of_nat (length (res @ load_pair temp l @ [shift_instr dst, add_instr dst temp])) \<and>
      (\<forall>n. n \<noteq> nat dst \<longrightarrow> n \<noteq> nat temp \<longrightarrow> get_reg n m' = get_reg n m)"
    using m1 regs by (simp add: exec_all_append exec_add exec_shift get_set_reg algebra_simps)
qed

lemma laq_words_leave:
  assumes regs: "0 < dst" "dst < 32" "0 < temp" "temp < 32" "dst \<noteq> temp"
    and tame: "\<forall>i < 4. tame (limb v i)"
  shows "leaves dst temp (limb_sum v) (laq_words dst temp v)"
proof -
  have t: "tame (limb v 3)" "tame (limb v 2)" "tame (limb v 1)" "tame (limb v 0)" using tame by simp_all
  have "leaves dst temp (scast (limb v 3)) (load_pair dst (limb v 3))"
    by (rule loads_leaves [OF regs(1) load_pair_loads [OF regs(1,2) t(1)]])
  note round_leaves [OF regs round_leaves [OF regs round_leaves [OF regs this t(2)] t(3)] t(4)]
  then show ?thesis by (simp add: limb_sum_def laq_words_def)
qed

end
