(* ===== verification/PseudoOps.thy ===== *)
theory PseudoOps
  imports AssemblerInvariant
begin

text \<open>
  \<^verbatim>\<open>pseudo_ops.cpp\<close>: data and reservations, files included as bytes, and the table of
  the pseudo-ops; and \<^verbatim>\<open>load_file\<close> of \<^verbatim>\<open>main.cpp\<close>, over an environment that stands for
  the files of the machine.
\<close>

section \<open>The environment\<close>

text \<open>
  What the program asks of the system: for a path that can be opened, the size that
  \<^verbatim>\<open>ftell\<close> reports at its end and the bytes that can be read; \<^verbatim>\<open>dirname\<close>;
  \<^verbatim>\<open>realpath\<close>, which may fail; and the order in which the hash table of symbols with the
  given entries is iterated, which the standard library leaves open.
\<close>

record Environment =
  env_open :: "string \<Rightarrow> (nat \<times> string) option"
  env_dirname :: "string \<Rightarrow> string"
  env_realpath :: "string \<Rightarrow> string option"
  env_iteration :: "(string \<times> SymbolLocation) list \<Rightarrow> (string \<times> SymbolLocation) list"

definition get_realpath :: "Environment \<Rightarrow> string \<Rightarrow> string option" where
  "get_realpath env path = env_realpath env (env_dirname env path)"

definition load_file :: "Environment \<Rightarrow> string \<Rightarrow> string option \<Rightarrow> string result" where
  "load_file env filename rpath =
     (let f = (case env_open env (c_str filename) of
                 Some f \<Rightarrow> Some f
               | None \<Rightarrow> (case rpath of
                   Some rp \<Rightarrow> env_open env (c_str (rp @ ''/'' @ filename))
                 | None \<Rightarrow> None))
      in case f of
           None \<Rightarrow> Inl (RuntimeError (''Could not open file: '' @ filename))
         | Some (sz, contents) \<Rightarrow>
             if sz \<noteq> length (take sz contents)
             then Inl (RuntimeError (''Error when reading from file: '' @ filename))
             else Inr (take sz contents))"

section \<open>The handlers\<close>

text \<open>
  A constant is emitted at its width, in memory order, after aligning to it; \<^verbatim>\<open>db\<close>
  neither aligns nor attaches the waiting labels. \<^verbatim>\<open>dq\<close> takes the low 64 bits.
\<close>

definition DATA_128_handler :: "unit M" where
  "DATA_128_handler =
     bindM (next_tk TK_CONSTANT) (\<lambda>constant.
     thenM (align_with_labels 16)
       (add_output OT_DATA (le_bytes 16 (ucast (u64_of constant)))))"

definition DATA_64_handler :: "unit M" where
  "DATA_64_handler =
     bindM (next_tk TK_CONSTANT) (\<lambda>constant.
     thenM (align_with_labels 8)
       (add_output OT_DATA (le_bytes 8 (ucast (u64_of constant)))))"

definition DATA_32_handler :: "unit M" where
  "DATA_32_handler =
     bindM (next_tk TK_CONSTANT) (\<lambda>constant.
     thenM (align_with_labels 4)
       (add_output OT_DATA (le_bytes 4 (ucast (ucast (u64_of constant) :: u32)))))"

definition DATA_16_handler :: "unit M" where
  "DATA_16_handler =
     bindM (next_tk TK_CONSTANT) (\<lambda>constant.
     thenM (align_with_labels 2)
       (add_output OT_DATA (le_bytes 2 (ucast (ucast (u64_of constant) :: u16)))))"

definition DATA_8_handler :: "unit M" where
  "DATA_8_handler =
     bindM (next_tk TK_CONSTANT) (\<lambda>constant.
       add_output OT_DATA (le_bytes 1 (ucast (ucast (u64_of constant) :: u8))))"

text \<open>Reservations; the product wraps around in 64 bits.\<close>

definition RESV_8_handler :: "unit M" where
  "RESV_8_handler =
     bindM (next_tk TK_CONSTANT) (\<lambda>times. allocate (u64_of times))"

definition RESV_16_handler :: "unit M" where
  "RESV_16_handler =
     bindM (next_tk TK_CONSTANT) (\<lambda>times.
     thenM (align_with_labels 2) (allocate (u64_of times * 2)))"

definition RESV_32_handler :: "unit M" where
  "RESV_32_handler =
     bindM (next_tk TK_CONSTANT) (\<lambda>times.
     thenM (align_with_labels 4) (allocate (u64_of times * 4)))"

definition RESV_64_handler :: "unit M" where
  "RESV_64_handler =
     bindM (next_tk TK_CONSTANT) (\<lambda>times.
     thenM (align_with_labels 8) (allocate (u64_of times * 8)))"

definition RESV_128_handler :: "unit M" where
  "RESV_128_handler =
     bindM (next_tk TK_CONSTANT) (\<lambda>times.
     thenM (align_with_labels 16) (allocate (u64_of times * 16)))"

definition INCBIN_handler :: "Environment \<Rightarrow> unit M" where
  "INCBIN_handler env =
     bindM (next_tk TK_STRING) (\<lambda>filename.
     bindM (getM m_realpath) (\<lambda>rpath.
     bindM (liftR (load_file env (tk_value filename) rpath)) (\<lambda>contents.
     thenM (align_with_labels 1)
       (add_output OT_DATA (map char_byte contents)))))"

fun pseudo_handler :: "Environment \<Rightarrow> PseudoOp \<Rightarrow> unit M" where
  "pseudo_handler env DATA_8 = DATA_8_handler"
| "pseudo_handler env DATA_16 = DATA_16_handler"
| "pseudo_handler env DATA_32 = DATA_32_handler"
| "pseudo_handler env DATA_64 = DATA_64_handler"
| "pseudo_handler env DATA_128 = DATA_128_handler"
| "pseudo_handler env RESV_8 = RESV_8_handler"
| "pseudo_handler env RESV_16 = RESV_16_handler"
| "pseudo_handler env RESV_32 = RESV_32_handler"
| "pseudo_handler env RESV_64 = RESV_64_handler"
| "pseudo_handler env RESV_128 = RESV_128_handler"
| "pseudo_handler env INCBIN = INCBIN_handler env"

section \<open>The table\<close>

definition pseudo_list :: "(string \<times> PseudoOp) list" where
  "pseudo_list =
    [(''db'', DATA_8), (''dh'', DATA_16), (''dw'', DATA_32), (''dd'', DATA_64),
     (''dq'', DATA_128), (''resb'', RESV_8), (''resh'', RESV_16), (''resw'', RESV_32),
     (''resd'', RESV_64), (''resq'', RESV_128), (''incbin'', INCBIN)]"

definition pseudo_op :: "string \<Rightarrow> Token" where
  "pseudo_op word =
     (case map_of pseudo_list word of
        Some p \<Rightarrow> (Token_new TK_PSEUDOOP)\<lparr>tk_value := word, tk_payload := PseudoOpPtr p\<rparr>
      | None \<Rightarrow> (Token_new TK_SYMBOL)\<lparr>tk_value := word\<rparr>)"

section \<open>What the handlers keep\<close>

lemmas pseudo_defs =
  DATA_128_handler_def DATA_64_handler_def DATA_32_handler_def DATA_16_handler_def
  DATA_8_handler_def RESV_8_handler_def RESV_16_handler_def RESV_32_handler_def
  RESV_64_handler_def RESV_128_handler_def INCBIN_handler_def

lemma pseudo_handler_evolves: "keeps evolves (pseudo_handler env p)"
  by (cases p; simp only: pseudo_handler.simps pseudo_defs)
    (intro evolution.keeps_intros primitive_evolves)+

lemma pseudo_handler_advances: "keeps advances (pseudo_handler env p)"
  by (cases p; simp only: pseudo_handler.simps pseudo_defs)
    (intro cursor.keeps_intros primitive_advances)+

end
