(* ===== verification/Registers.thy ===== *)
theory Registers
  imports Tokens
begin

text \<open>
  \<^verbatim>\<open>registers.cpp\<close>: the names of the 32 integer registers, the ABI names and the
  numbered ones, and the lookup that makes a register or a symbol token of a word.
  \<^verbatim>\<open>Registers::print_all\<close> only prints to standard error and is left out.
\<close>

definition reg_list :: "(string \<times> nat) list" where
  "reg_list = [
     (''zero'',0), (''ra'',  1), (''sp'',  2), (''gp'',  3),
     (''tp'',  4), (''t0'',  5), (''t1'',  6), (''t2'',  7),
     (''fp'',  8), (''s0'',  8), (''s1'',  9),
     (''a0'', 10), (''a1'', 11), (''a2'', 12), (''a3'', 13),
     (''a4'', 14), (''a5'', 15), (''a6'', 16), (''a7'', 17),
     (''s2'', 18), (''s3'', 19), (''s4'', 20), (''s5'', 21),
     (''s6'', 22), (''s7'', 23), (''s8'', 24), (''s9'', 25),
     (''s10'', 26), (''s11'', 27),
     (''t3'', 28), (''t4'', 29), (''t5'', 30), (''t6'', 31),
     (''x0'', 0),   (''x1'', 1),   (''x2'', 2),   (''x3'', 3),
     (''x4'', 4),   (''x5'', 5),   (''x6'', 6),   (''x7'', 7),
     (''x8'', 8),   (''x9'', 9),  (''x10'', 10), (''x11'', 11),
     (''x12'', 12), (''x13'', 13), (''x14'', 14), (''x15'', 15),
     (''x16'', 16), (''x17'', 17), (''x18'', 18), (''x19'', 19),
     (''x20'', 20), (''x21'', 21), (''x22'', 22), (''x23'', 23),
     (''x24'', 24), (''x25'', 25), (''x26'', 26), (''x27'', 27),
     (''x28'', 28), (''x29'', 29), (''x30'', 30), (''x31'', 31)]"

definition to_reg :: "string \<Rightarrow> Token" where
  "to_reg s =
     (let tk = (Token_new TK_UNSPEC)\<lparr>tk_value := s\<rparr>
      in case map_of reg_list s of
           Some n \<Rightarrow> set_u64 (of_nat n) (tk\<lparr>tk_type := TK_REGISTER\<rparr>)
         | None \<Rightarrow> tk\<lparr>tk_type := TK_SYMBOL\<rparr>)"

lemma distinct_reg_names: "distinct (map fst reg_list)"
  by code_simp

lemma reg_list_range: "list_all (\<lambda>(s, n). n < 32) reg_list"
  by code_simp

lemma reg_lookup_range: "map_of reg_list s = Some n \<Longrightarrow> n < 32"
  using reg_list_range by (auto simp: list_all_iff dest: map_of_SomeD)

lemma all_registers_named: "list_all (\<lambda>n. n \<in> snd ` set reg_list) [0..<32]"
  by code_simp

lemma to_reg_type:
  "tk_type (to_reg s) = (if map_of reg_list s = None then TK_SYMBOL else TK_REGISTER)"
  by (simp add: to_reg_def Let_def split: option.splits)

lemma to_reg_value: "tk_value (to_reg s) = s"
  by (simp add: to_reg_def Let_def split: option.splits)

lemma to_reg_number:
  assumes "map_of reg_list s = Some n"
  shows "u128_of (to_reg s) = of_nat n"
proof -
  have "n < 32" using assms by (rule reg_lookup_range)
  then have n64: "n < 2 ^ 64" by simp
  have "u128_of (to_reg s) = ucast (of_nat n :: u64)"
    using assms by (simp add: to_reg_def Let_def u128_of_def)
  also have "\<dots> = of_nat n"
    using n64 by (simp add: unsigned_of_nat take_bit_nat_eq_self)
  finally show ?thesis .
qed

lemma to_reg_wf: "wf_token (to_reg s)"
proof (cases "map_of reg_list s")
  case None
  then show ?thesis by (simp add: to_reg_def wf_token_def Let_def)
next
  case (Some n)
  have "n < 32" using Some by (rule reg_lookup_range)
  then have "(of_nat n :: u128) < 32"
    by (simp add: word_less_nat_alt unsigned_of_nat take_bit_nat_eq_self)
  with Some show ?thesis
    by (simp add: wf_token_def to_reg_number) (simp add: to_reg_def Let_def)
qed

lemma reg_table_numbers: "snd ` set reg_list = {..<32}"
proof
  show "snd ` set reg_list \<subseteq> {..<32}"
    using reg_list_range by (auto simp: list_all_iff)
  show "{..<32} \<subseteq> snd ` set reg_list"
    using all_registers_named by (auto simp: list_all_iff)
qed

lemma to_reg_i64:
  assumes "map_of reg_list s = Some n"
  shows "i64_of (to_reg s) = int n"
proof -
  have "n < 32" using assms by (rule reg_lookup_range)
  then have "signed_take_bit 63 (int n) = int n"
    by (simp add: signed_take_bit_int_eq_self)
  then show ?thesis
    using assms by (simp add: to_reg_def Let_def signed_of_nat)
qed

end
