(* ===== verification/Numbers.thy ===== *)
theory Numbers
  imports Prelude
begin

text \<open>
  The number conversions of the C and C++ standard library that the tokenizer calls,
  \<^verbatim>\<open>std::stoull\<close> and \<^verbatim>\<open>atoi\<close>, and \<^verbatim>\<open>hex128.cpp\<close>, the printer of 128-bit
  hexadecimal numbers. The printer and the scanner are inverse to each other.
\<close>

section \<open>Scanning numbers\<close>

definition is_space :: "char \<Rightarrow> bool" where
  "is_space c \<longleftrightarrow> (let n = (of_char c :: nat) in n = 32 \<or> (9 \<le> n \<and> n \<le> 13))"

definition digit_value :: "nat \<Rightarrow> char \<Rightarrow> nat option" where
  "digit_value base c =
     (let n = (of_char c :: nat);
          v = (if 48 \<le> n \<and> n \<le> 57 then n - 48
               else if 97 \<le> n \<and> n \<le> 122 then n - 87
               else if 65 \<le> n \<and> n \<le> 90 then n - 55
               else base)
      in if v < base then Some v else None)"

text \<open>The value of the digits in front, and whether there is one at all.\<close>

fun scan_digits :: "nat \<Rightarrow> nat \<Rightarrow> string \<Rightarrow> nat" where
  "scan_digits base acc [] = acc"
| "scan_digits base acc (c # cs) =
     (case digit_value base c of None \<Rightarrow> acc | Some d \<Rightarrow> scan_digits base (acc * base + d) cs)"

fun starts_digit :: "nat \<Rightarrow> string \<Rightarrow> bool" where
  "starts_digit base [] = False"
| "starts_digit base (c # cs) = (digit_value base c \<noteq> None)"

text \<open>An optional sign, after white space: whether it is a minus, and what follows.\<close>

fun scan_sign :: "string \<Rightarrow> bool \<times> string" where
  "scan_sign [] = (False, [])"
| "scan_sign (c # cs) =
     (if c = CHR ''-'' then (True, cs) else if c = CHR ''+'' then (False, cs) else (False, c # cs))"

text \<open>Base 16 allows a prefix \<^verbatim>\<open>0x\<close>, when a digit follows it.\<close>

fun skip_prefix :: "nat \<Rightarrow> string \<Rightarrow> string" where
  "skip_prefix base (c # d # cs) =
     (if base = 16 \<and> c = CHR ''0'' \<and> (d = CHR ''x'' \<or> d = CHR ''X'') \<and> starts_digit 16 cs
      then cs else c # d # cs)"
| "skip_prefix base s = s"

text \<open>
  \<^verbatim>\<open>std::stoull(s, nullptr, base)\<close>: no digit is an \<^verbatim>\<open>invalid_argument\<close>, a value beyond
  64 bits an \<^verbatim>\<open>out_of_range\<close>, a minus sign negates in 64 bits, and characters after the
  number are ignored. A NUL is neither a digit, a sign nor white space, so the scan ends
  where the C string does.
\<close>

definition stoull :: "string \<Rightarrow> nat \<Rightarrow> u64 result" where
  "stoull s base =
     (let (neg, s1) = scan_sign (dropWhile is_space s);
          s2 = skip_prefix base s1
      in if \<not> starts_digit base s2 then Inl InvalidArgument
         else let n = scan_digits base 0 s2
              in if n \<ge> 2 ^ 64 then Inl OutOfRange
                 else Inr (if neg then - of_nat n else of_nat n))"

lemma stoull_code [code]:
  "stoull s base =
     (let (neg, s1) = scan_sign (dropWhile is_space s);
          s2 = skip_prefix base s1
      in if \<not> starts_digit base s2 then Inl InvalidArgument
         else let n = scan_digits base 0 s2
              in if int n \<ge> 2 ^ 64 then Inl OutOfRange
                 else Inr (if neg then - of_nat n else of_nat n))"
proof -
  have "n \<ge> 2 ^ 64 \<longleftrightarrow> int n \<ge> 2 ^ 64" for n by simp
  then show ?thesis by (simp only: stoull_def)
qed

text \<open>
  \<^verbatim>\<open>atoi\<close>, as the C library of the target computes it: \<^verbatim>\<open>strtol\<close> in base 10, which
  stops at the ends of the 64-bit range, cut to the 32 bits of an \<^verbatim>\<open>int\<close>.
\<close>

definition atoi :: "string \<Rightarrow> int" where
  "atoi s =
     (let (neg, s1) = scan_sign (dropWhile is_space s);
          n = int (scan_digits 10 0 s1);
          v = (if neg then max (- (2 ^ 63)) (- n) else min (2 ^ 63 - 1) n)
      in signed_take_bit 31 v)"

lemma scan_digits_append:
  assumes "list_all (\<lambda>c. digit_value base c \<noteq> None) ds"
  shows "scan_digits base acc (ds @ s) = scan_digits base (scan_digits base acc ds) s"
  using assms by (induction ds arbitrary: acc) (auto split: option.splits)

lemma starts_digit_append: "ds \<noteq> [] \<Longrightarrow> starts_digit base (ds @ s) = starts_digit base ds"
  by (cases ds) simp_all

section \<open>Printing hexadecimal numbers\<close>

definition hex_lut :: string where
  "hex_lut = ''0123456789ABCDEF''"

definition hex_digit_at :: "u128 \<Rightarrow> nat \<Rightarrow> char" where
  "hex_digit_at v sh = hex_lut ! unat (drop_bit sh v AND 0xF)"

text \<open>
  The number of digits: from the highest of the twelve upper bytes that is not zero, and
  at least 8; then two digits for each byte, most significant first, at the front of the
  buffer.
\<close>

definition hex_len :: "u128 \<Rightarrow> nat" where
  "hex_len v =
     (case find (\<lambda>i. drop_bit ((15 - i) * 8) v AND 0xFF \<noteq> 0) [0..<16 - 8 div 2] of
        Some i \<Rightarrow> 32 - i * 2 | None \<Rightarrow> 8)"

definition hex_bytes :: "nat \<Rightarrow> u128 \<Rightarrow> string" where
  "hex_bytes m v =
     concat (map (\<lambda>i. [hex_digit_at v ((m - 1 - i) * 8 + 4), hex_digit_at v ((m - 1 - i) * 8 + 0)])
              [0..<m])"

definition to_hex :: "string \<Rightarrow> u128 \<Rightarrow> string \<times> nat" where
  "to_hex buffer v =
     (if length buffer < 32 then (buffer, 0)
      else let len = hex_len v in (hex_bytes (len div 2) v @ drop len buffer, len))"

definition to_hex_string :: "u128 \<Rightarrow> string" where
  "to_hex_string v = fst (to_hex (replicate 32 (CHR 0x00)) v)"

lemma hex_bytes_0 [simp]: "hex_bytes 0 v = []"
  by (simp add: hex_bytes_def)

lemma hex_bytes_Suc:
  "hex_bytes (Suc m) v = hex_digit_at v (m * 8 + 4) # hex_digit_at v (m * 8) # hex_bytes m v"
proof -
  have "[0..<Suc m] = 0 # map Suc [0..<m]"
    by (simp add: map_Suc_upt upt_conv_Cons del: upt_Suc)
  then show ?thesis
    by (simp add: hex_bytes_def comp_def del: upt_Suc)
qed

lemma length_hex_bytes [simp]: "length (hex_bytes m v) = 2 * m"
  by (induction m) (simp_all add: hex_bytes_Suc)

lemma hex_lut_values:
  "list_all (\<lambda>n. digit_value 16 (hex_lut ! n) = Some n \<and> hex_lut ! n \<noteq> CHR 0x00) [0..<16]"
  by code_simp

lemma nibble_as_take_bit: "(w::u128) AND 0xF = take_bit 4 w"
  by (simp add: take_bit_eq_mask mask_eq_exp_minus_1)

lemma nibble_value: "unat (drop_bit sh v AND 0xF :: u128) = unat v div 2 ^ sh mod 16"
proof -
  have "unat (drop_bit sh v AND 0xF) = take_bit 4 (drop_bit sh (unat v))"
    unfolding nibble_as_take_bit
    by (simp add: unsigned_take_bit_eq unsigned_drop_bit_eq)
  then show ?thesis by (simp add: take_bit_eq_mod drop_bit_eq_div)
qed

lemma hex_digit_at_value:
  "digit_value 16 (hex_digit_at v sh) = Some (unat v div 2 ^ sh mod 16)"
  "hex_digit_at v sh \<noteq> CHR 0x00"
  using hex_lut_values by (simp_all add: hex_digit_at_def list_all_iff nibble_value)

text \<open>Scanning the digits that were printed gives the number back.\<close>

lemma scan_hex_bytes:
  "scan_digits 16 acc (hex_bytes m v) = acc * 2 ^ (8 * m) + unat v mod 2 ^ (8 * m)"
proof (induction m arbitrary: acc)
  case 0
  then show ?case by simp
next
  case (Suc m)
  define a b where "a = unat v div 2 ^ (m * 8 + 4) mod 16" and "b = unat v div 2 ^ (m * 8) mod 16"
  have byte: "unat v div 2 ^ (8 * m) mod 256 = a * 16 + b"
  proof -
    have "unat v div 2 ^ (8 * m) mod (16 * 16) =
            16 * (unat v div 2 ^ (8 * m) div 16 mod 16) + unat v div 2 ^ (8 * m) mod 16"
      by (rule mod_mult2_eq)
    then show ?thesis
      by (simp add: a_def b_def power_add mult.commute [of m] flip: div_mult2_eq)
  qed
  have "unat v mod 2 ^ (8 * Suc m) = unat v mod (2 ^ (8 * m) * 256)"
    by (simp add: power_add mult.commute)
  also have "\<dots> = 2 ^ (8 * m) * (unat v div 2 ^ (8 * m) mod 256) + unat v mod 2 ^ (8 * m)"
    by (rule mod_mult2_eq)
  finally have split: "unat v mod 2 ^ (8 * Suc m) = 2 ^ (8 * m) * (a * 16 + b) + unat v mod 2 ^ (8 * m)"
    unfolding byte .
  have "scan_digits 16 acc (hex_bytes (Suc m) v) =
          ((acc * 16 + a) * 16 + b) * 2 ^ (8 * m) + unat v mod 2 ^ (8 * m)"
    by (simp add: hex_bytes_Suc hex_digit_at_value Suc.IH a_def b_def)
  also have "\<dots> = acc * 2 ^ (8 * Suc m) + unat v mod 2 ^ (8 * Suc m)"
    unfolding split by (simp add: power_add algebra_simps)
  finally show ?case .
qed

lemma hex_bytes_chars:
  "list_all (\<lambda>c. digit_value 16 c \<noteq> None \<and> c \<noteq> CHR 0x00) (hex_bytes m v)"
  by (induction m) (simp_all add: hex_bytes_Suc hex_digit_at_value)

lemma c_str_hex_bytes: "c_str (hex_bytes m v @ replicate n (CHR 0x00)) = hex_bytes m v"
proof -
  have "\<And>c. c \<in> set (hex_bytes m v) \<Longrightarrow> c \<noteq> CHR 0x00"
    using hex_bytes_chars [of m v] by (auto simp: list_all_iff)
  then have "c_str (hex_bytes m v @ replicate n (CHR 0x00))
      = hex_bytes m v @ takeWhile (\<lambda>c. c \<noteq> CHR 0x00) (replicate n (CHR 0x00))"
    unfolding c_str_def by (intro takeWhile_append2)
  then show ?thesis by (cases n) simp_all
qed

lemma byte_value: "unat (drop_bit sh v AND 0xFF :: u128) = unat v div 2 ^ sh mod 256"
proof -
  have "(w::u128) AND 0xFF = take_bit 8 w" for w
    by (simp add: take_bit_eq_mask mask_eq_exp_minus_1)
  then have "unat (drop_bit sh v AND 0xFF) = take_bit 8 (drop_bit sh (unat v))"
    by (simp add: unsigned_take_bit_eq unsigned_drop_bit_eq)
  then show ?thesis by (simp add: take_bit_eq_mod drop_bit_eq_div)
qed

lemma upper_bytes_zero:
  assumes "i \<le> 16" and "\<forall>j<i. drop_bit ((15 - j) * 8) (v::u128) AND 0xFF = 0"
  shows "unat v < 2 ^ (8 * (16 - i))"
  using assms
proof (induction i)
  case 0
  show ?case using unat_less_exp [of v] by simp
next
  case (Suc i)
  define k where "k = (15 - i) * 8"
  have "8 * (16 - i) = k + 8" using Suc.prems(1) by (simp add: k_def)
  with Suc have "unat v < 2 ^ (k + 8)" by simp
  then have "unat v div 2 ^ k < 256" by (simp add: power_add less_mult_imp_div_less mult.commute)
  moreover have "unat v div 2 ^ k mod 256 = 0"
    using Suc.prems(2) byte_value [of k v] by (simp add: k_def)
  ultimately have "unat v div 2 ^ k = 0" by simp
  then have "unat v < 2 ^ k" by (simp add: div_eq_0_iff)
  then show ?case using Suc.prems(1) by (simp add: k_def mult.commute)
qed

lemma hex_len_bound:
  obtains m where "hex_len v = 2 * m" and "4 \<le> m" and "m \<le> 16" and "unat v < 2 ^ (8 * m)"
proof (cases "find (\<lambda>i. drop_bit ((15 - i) * 8) v AND 0xFF \<noteq> 0) [0..<12]")
  case None
  then have "\<forall>j<12. drop_bit ((15 - j) * 8) v AND 0xFF = 0"
    by (auto simp: find_None_iff)
  then have "unat v < 2 ^ (8 * (16 - 12))" by (intro upper_bytes_zero) auto
  then show thesis using None by (intro that [of 4]) (simp_all add: hex_len_def)
next
  case (Some i)
  then have "i < 12" and "\<forall>j<i. drop_bit ((15 - j) * 8) v AND 0xFF = 0"
    by (auto simp: find_Some_iff)
  then have "unat v < 2 ^ (8 * (16 - i))" by (intro upper_bytes_zero) auto
  moreover have "hex_len v = 2 * (16 - i)"
    using Some \<open>i < 12\<close> by (simp add: hex_len_def)
  ultimately show thesis using \<open>i < 12\<close> by (intro that [of "16 - i"]) simp_all
qed

text \<open>
  What is printed: 8 to 32 digits, followed by NULs up to the 32 characters of the
  buffer, and the digits denote the number.
\<close>

lemma to_hex_string_eq:
  obtains m where "to_hex_string v = hex_bytes m v @ replicate (32 - 2 * m) (CHR 0x00)"
    and "4 \<le> m" and "m \<le> 16" and "unat v < 2 ^ (8 * m)"
proof -
  obtain m where m: "hex_len v = 2 * m" "4 \<le> m" "m \<le> 16" "unat v < 2 ^ (8 * m)"
    by (rule hex_len_bound)
  then have "to_hex_string v = hex_bytes m v @ replicate (32 - 2 * m) (CHR 0x00)"
    by (simp add: to_hex_string_def to_hex_def Let_def)
  with m show thesis by (intro that) simp_all
qed

lemma length_to_hex_string: "length (to_hex_string v) = 32"
  by (rule to_hex_string_eq [of v]) simp

end
