(* ===== verification/Tokenizer.thy ===== *)
theory Tokenizer
  imports Opcodes PseudoOps Registers Numbers
begin

text \<open>
  \<^verbatim>\<open>tokenizer.cpp\<close>: \<^verbatim>\<open>Assembler::parse\<close> makes one token of one word. The tests are
  made in the order of the code: the shape of the word decides between directive, label,
  string, character, operator and number, and the tables decide the rest.
\<close>

definition is_operator :: "string \<Rightarrow> bool" where
  "is_operator word \<longleftrightarrow>
     word = ''+'' \<or> word = ''-'' \<or> word = ''*'' \<or> word = ''/''
       \<or> word = ''<<'' \<or> word = ''>>'' \<or> word = ''%''
       \<or> word = ''|'' \<or> word = ''&'' \<or> word = ''^''
       \<or> word = ''~''"

definition is_number :: "char \<Rightarrow> bool" where
  "is_number c \<longleftrightarrow> c = CHR ''-'' \<or> c = CHR ''+'' \<or>
     (48 \<le> (of_char c :: nat) \<and> (of_char c :: nat) \<le> 57)"

text \<open>\<^verbatim>\<open>std::string::substr\<close> for a start that is inside the string.\<close>

definition substr :: "nat \<Rightarrow> nat \<Rightarrow> string \<Rightarrow> string" where
  "substr pos n s = take n (drop pos s)"

text \<open>The number branch: hexadecimal of up to 64 bits or more, binary, or decimal.\<close>

definition parse_number :: "string \<Rightarrow> Token \<Rightarrow> Token result" where
  "parse_number word tk =
     (if length word > 2 \<and> word ! 1 = CHR ''x'' then
        (if length word > 18 then
           let upsize = length word - 18;
               lower = drop (length word - 16) word;
               upper = substr 2 upsize word
           in bindR (stoull (c_str upper) 16) (\<lambda>u.
              bindR (stoull (c_str lower) 16) (\<lambda>l.
                Inr (set_u128 (push_bit 64 (ucast u) OR ucast l) tk)))
         else
           bindR (stoull (c_str (drop 2 word)) 16) (\<lambda>v. Inr (set_u64 v tk)))
      else if length word > 2 \<and> word ! 1 = CHR ''b'' then
        bindR (stoull (c_str (drop 2 word)) 2) (\<lambda>v. Inr (set_u64 v tk))
      else Inr (set_u64 (word_of_int (atoi (c_str word))) tk))"

definition parse_word :: "string \<Rightarrow> Token result" where
  "parse_word word =
     (if word = [] then Inl AssertionFailure
      else let tk = Token_new TK_SYMBOL in
      if hd word = CHR ''.'' then
        Inr (tk\<lparr>tk_type := TK_DIRECTIVE, tk_value := word\<rparr>)
      else if last word = CHR '':'' then
        Inr (tk\<lparr>tk_type := TK_LABEL, tk_value := substr 0 (length word - 1) word\<rparr>)
      else if hd word = CHR 0x22 then
        Inr (tk\<lparr>tk_type := TK_STRING,
               tk_value := (if length word < 2 then substr 1 (length word) word
                            else substr 1 (length word - 2) word)\<rparr>)
      else if hd word = CHR 0x27 then
        (if length word > 2 \<and> word ! 2 = CHR 0x27
         then Inr (set_u64 (word_of_int (char_int (word ! 1))) (tk\<lparr>tk_type := TK_CONSTANT\<rparr>))
         else Inl (RuntimeError (''Invalid character constant: '' @ word @ ''. Missing quote?'')))
      else if is_operator word then
        Inr (tk\<lparr>tk_type := TK_OPERATOR, tk_value := word\<rparr>)
      else if is_number (hd word) then
        bindR (parse_number word tk) (\<lambda>tk. Inr (tk\<lparr>tk_type := TK_CONSTANT, tk_value := word\<rparr>))
      else
        (let tk = opcode word in
         if is_symbol tk then
           (let tk = to_reg word in if is_symbol tk then Inr (pseudo_op word) else Inr tk)
         else Inr tk))"

text \<open>Whatever the token, its line is the line of the word.\<close>

definition parse :: "RawToken \<Rightarrow> Token result" where
  "parse rt = bindR (parse_word (rt_name rt)) (\<lambda>tk. Inr (tk\<lparr>tk_line := rt_line rt\<rparr>))"

section \<open>The tokens it makes\<close>

text \<open>
  The union of every token agrees with its type, and an opcode comes from the table.
\<close>

definition token_ok :: "Token \<Rightarrow> bool" where
  "token_ok tk \<longleftrightarrow> wf_token tk \<and> (\<forall>opc. tk_payload tk = OpcodePtr opc \<longrightarrow> opc \<in> snd ` set opcode_list)"

lemma token_ok_raw:
  "tk_payload tk = Raw w \<Longrightarrow> tk_type tk \<notin> {TK_OPCODE, TK_PSEUDOOP, TK_REGISTER} \<Longrightarrow> token_ok tk"
  by (simp add: token_ok_def wf_token_def payload_ok_raw)

lemma token_ok_line [simp]: "token_ok (tk\<lparr>tk_line := l\<rparr>) = token_ok tk"
  by (simp add: token_ok_def wf_token_def)

lemma token_ok_opcode: "\<not> is_symbol (opcode word) \<Longrightarrow> token_ok (opcode word)"
  by (auto simp: opcode_def is_symbol_def token_ok_def wf_token_def dest!: map_of_SomeD
      split: option.splits intro: rev_image_eqI)

lemma token_ok_register: "\<not> is_symbol (to_reg word) \<Longrightarrow> token_ok (to_reg word)"
  using to_reg_wf [of word]
  by (auto simp: token_ok_def to_reg_def Let_def is_symbol_def set_u64_def split: option.splits)

lemma token_ok_pseudo: "token_ok (pseudo_op word)"
  by (auto simp: pseudo_op_def token_ok_def wf_token_def split: option.splits)

lemma parse_number_ok:
  assumes "parse_number word (Token_new TK_SYMBOL) = Inr tk"
  shows "token_ok (tk\<lparr>tk_type := TK_CONSTANT, tk_value := v\<rparr>)"
proof -
  obtain w where "tk_payload tk = Raw w"
    using assms by (auto simp: parse_number_def Let_def bindR_Inr_iff split: if_splits)
  then show ?thesis by (intro token_ok_raw) simp_all
qed

lemma parse_word_ok: "parse_word word = Inr tk \<Longrightarrow> token_ok tk"
  by (auto simp: parse_word_def Let_def bindR_Inr_iff parse_number_ok token_ok_opcode
      token_ok_register token_ok_pseudo intro: token_ok_raw split: if_splits)

lemma parse_ok: "parse rt = Inr tk \<Longrightarrow> token_ok tk \<and> tk_line tk = rt_line rt"
  by (auto simp: parse_def bindR_Inr_iff parse_word_ok)

section \<open>Numbers are read back\<close>

text \<open>The word that a \<^verbatim>\<open>0x\<close> and printed digits make.\<close>

lemma stoull_hex_bytes:
  assumes "0 < m" and "m \<le> 8"
  shows "stoull (hex_bytes m v) 16 = Inr (of_nat (unat v mod 2 ^ (8 * m)))"
proof -
  obtain c d cs where b: "hex_bytes m v = c # d # cs"
    using assms(1) by (cases m) (simp_all add: hex_bytes_Suc)
  have c: "digit_value 16 c \<noteq> None" "digit_value 16 d \<noteq> None"
    using hex_bytes_chars [of m v] by (simp_all add: b)
  then have "\<not> is_space c" "c \<noteq> CHR ''-''" "c \<noteq> CHR ''+''" "d \<noteq> CHR ''x''" "d \<noteq> CHR ''X''"
    by (auto simp: is_space_def digit_value_def Let_def split: if_splits)
  with c have "stoull (hex_bytes m v) 16 =
      (let n = scan_digits 16 0 (hex_bytes m v) in if n \<ge> 2 ^ 64 then Inl OutOfRange else Inr (of_nat n))"
    by (simp add: stoull_def b Let_def del: scan_digits.simps)
  moreover have "unat v mod 2 ^ (8 * m) < 2 ^ 64"
  proof (rule less_le_trans)
    show "unat v mod 2 ^ (8 * m) < 2 ^ (8 * m)" by simp
    show "(2::nat) ^ (8 * m) \<le> 2 ^ 64" using assms(2) by (intro power_increasing) auto
  qed
  ultimately show ?thesis by (simp add: scan_hex_bytes)
qed

lemma hex_bytes_split:
  "hex_bytes (m + n) v = hex_bytes m (drop_bit (8 * n) v) @ hex_bytes n v"
proof (induction m)
  case 0
  then show ?case by simp
next
  case (Suc m)
  then show ?case
    by (simp add: hex_bytes_Suc hex_digit_at_def drop_bit_drop_bit algebra_simps)
qed

lemma hex_bytes_c_str [simp]: "c_str (hex_bytes m v) = hex_bytes m v"
  using c_str_hex_bytes [of m v 0] by simp

lemma c_str_printed:
  obtains m where "c_str (to_hex_string v) = hex_bytes m v"
    and "4 \<le> m" and "m \<le> 16" and "unat v < 2 ^ (8 * m)"
proof -
  obtain m where "to_hex_string v = hex_bytes m v @ replicate (32 - 2 * m) (CHR 0x00)"
    and "4 \<le> m" "m \<le> 16" "unat v < 2 ^ (8 * m)"
    by (rule to_hex_string_eq)
  with that show thesis by (metis c_str_hex_bytes)
qed

lemma unat_drop_bit: "unat (drop_bit n w) = unat w div 2 ^ n"
proof -
  have "unat (drop_bit n w) = drop_bit n (unat w)"
    by (simp only: unsigned_drop_bit_eq take_bit_length_unat order_refl)
  then show ?thesis by (simp only: drop_bit_eq_div)
qed

text \<open>Both halves of a wide number, put together.\<close>

lemma join_halves:
  "push_bit 64 (ucast (of_nat (unat (v::u128) div 2 ^ 64) :: u64)) OR ucast (of_nat (unat v mod 2 ^ 64) :: u64) = v"
proof -
  have "unat v div 2 ^ 64 = unat (drop_bit 64 v)" by (simp only: unat_drop_bit)
  then have "of_nat (unat v div 2 ^ 64) = (ucast (drop_bit 64 v) :: u64)"
    by (intro word_unat_eq_iff [THEN iffD2])
      (simp add: unsigned_of_nat unsigned_ucast_eq del: unsigned_drop_bit_eq)
  moreover have "of_nat (unat v mod 2 ^ 64) = (ucast v :: u64)"
    by (rule word_unat_eq_iff [THEN iffD2])
      (simp add: unsigned_of_nat unsigned_ucast_eq take_bit_eq_mod)
  moreover have "push_bit 64 (ucast (ucast (drop_bit 64 v) :: u64)) OR ucast (ucast v :: u64) = v"
    by (rule bit_word_eqI) (auto simp: bit_simps dest: bit_imp_le_length)
  ultimately show ?thesis by simp
qed

lemma parse_number_wide:
  assumes "8 < m" and "m \<le> 16" and "unat v < 2 ^ (8 * m)"
  shows "parse_number (CHR ''0'' # CHR ''x'' # hex_bytes m v) tk = Inr (set_u128 v tk)"
proof -
  define k where "k = m - 8"
  with assms have m: "m = k + 8" "0 < k" "k \<le> 8" by simp_all
  have "unat v div 2 ^ 64 < 2 ^ (8 * k)"
    using assms(3) by (simp add: m power_add less_mult_imp_div_less)
  then have "unat (drop_bit 64 v) mod 2 ^ (8 * k) = unat v div 2 ^ 64"
    by (simp only: unat_drop_bit mod_less)
  then have "stoull (hex_bytes k (drop_bit 64 v)) 16 = Inr (of_nat (unat v div 2 ^ 64))"
    using stoull_hex_bytes [OF m(2,3), of "drop_bit 64 v"] by simp
  moreover have "stoull (hex_bytes 8 v) 16 = Inr (of_nat (unat v mod 2 ^ 64))"
    using stoull_hex_bytes [of 8 v] by simp
  ultimately show ?thesis
    using m hex_bytes_split [of k 8 v] join_halves [of v]
    by (simp add: parse_number_def substr_def)
qed

lemma parse_number_narrow:
  assumes "0 < m" and "m \<le> 8" and "unat v < 2 ^ (8 * m)"
  shows "parse_number (CHR ''0'' # CHR ''x'' # hex_bytes m v) (Token_new TK_SYMBOL)
       = Inr (set_u128 v (Token_new TK_SYMBOL))"
proof -
  have "(2::nat) ^ (8 * m) \<le> 2 ^ 64" using assms(2) by (intro power_increasing) auto
  with assms(3) have "unat v div 2 ^ 64 = 0" "unat v mod 2 ^ 64 = unat v" by simp_all
  then have "ucast (of_nat (unat v) :: u64) = v" using join_halves [of v] by simp
  moreover have "stoull (hex_bytes m v) 16 = Inr (of_nat (unat v))"
    using stoull_hex_bytes [OF assms(1,2), of v] assms(3) by simp
  ultimately show ?thesis
    using assms(1,2) by (simp add: parse_number_def set_u64_def set_u128_def)
qed

lemma parse_printed_hex:
  "parse_word (''0x'' @ c_str (to_hex_string v)) =
     Inr ((set_u128 v (Token_new TK_CONSTANT))\<lparr>tk_value := ''0x'' @ c_str (to_hex_string v)\<rparr>)"
proof -
  obtain m where m: "c_str (to_hex_string v) = hex_bytes m v" "4 \<le> m" "m \<le> 16" "unat v < 2 ^ (8 * m)"
    by (rule c_str_printed)
  let ?w = "CHR ''0'' # CHR ''x'' # hex_bytes m v"
  have num: "parse_number ?w (Token_new TK_SYMBOL) = Inr (set_u128 v (Token_new TK_SYMBOL))"
    using m(2-4) parse_number_narrow [of m v] parse_number_wide [of m v "Token_new TK_SYMBOL"]
    by (cases "m \<le> 8") simp_all
  have "last ?w \<noteq> CHR '':''"
  proof -
    have "0 < length (hex_bytes m v)" using m(2) by simp
    then have "last ?w \<in> set (hex_bytes m v)" by (simp only: length_greater_0_conv) simp
    then have "digit_value 16 (last ?w) \<noteq> None"
      using hex_bytes_chars [of m v] by (auto simp: list_all_iff)
    then show ?thesis by (auto simp: digit_value_def Let_def)
  qed
  moreover have "length ?w > 2" using m(2) by simp
  then have "\<not> is_operator ?w" by (simp add: is_operator_def)
  ultimately show ?thesis
    using num by (simp add: parse_word_def m(1) is_number_def set_u128_def Token_new_def)
qed

end
