(* ===== verification/RawSplit.thy ===== *)
theory RawSplit
  imports Tokenizer
begin

text \<open>
  \<^verbatim>\<open>raw_split.cpp\<close>: \<^verbatim>\<open>Assembler::split\<close> runs over the characters of a source text with
  the word so far, the line number and three modes, for string literals, comments and
  escapes, and makes a token of every finished word.
\<close>

section \<open>The splitter\<close>

definition escape_character :: "char \<Rightarrow> char" where
  "escape_character echar =
     (if echar = CHR ''n'' then CHR 0x0A
      else if echar = CHR ''r'' then CHR 0x0D
      else if echar = CHR ''t'' then CHR 0x09
      else if echar = CHR ''b'' then CHR 0x08
      else if echar = CHR 0x5C then CHR 0x5C
      else if echar = CHR 0x27 then CHR 0x27
      else if echar = CHR 0x22 then CHR 0x22
      else if echar = CHR ''0'' then CHR 0x00
      else echar)"

record Splitter =
  sp_tokens :: "Token list"
  sp_word :: string
  sp_line :: u32
  begin_quotes :: bool
  begin_comment :: bool
  begin_escape :: bool

definition Splitter_new :: Splitter where
  "Splitter_new = \<lparr>sp_tokens = [], sp_word = [], sp_line = 1,
     begin_quotes = False, begin_comment = False, begin_escape = False\<rparr>"

definition push_word :: "Splitter \<Rightarrow> Splitter result" where
  "push_word st =
     bindR (parse \<lparr>rt_name = sp_word st, rt_line = sp_line st\<rparr>) (\<lambda>tk.
       Inr (st\<lparr>sp_tokens := sp_tokens st @ [tk], sp_word := []\<rparr>))"

definition FLUSH_WORD :: "Splitter \<Rightarrow> Splitter result" where
  "FLUSH_WORD st = (if sp_word st \<noteq> [] then push_word st else Inr st)"

definition append_char :: "char \<Rightarrow> Splitter \<Rightarrow> Splitter" where
  "append_char c st = st\<lparr>sp_word := sp_word st @ [c]\<rparr>"

definition next_line :: "Splitter \<Rightarrow> Splitter" where
  "next_line st = st\<lparr>sp_line := sp_line st + 1\<rparr>"

text \<open>One character, after the escape has been applied: inside quotes, a comment, or neither.\<close>

definition quoted_char :: "char \<Rightarrow> bool \<Rightarrow> Splitter \<Rightarrow> Splitter result" where
  "quoted_char c is_escaped st =
     (if c = CHR 0x5C then Inr (st\<lparr>begin_escape := True\<rparr>)
      else let st = append_char c st
           in if c = CHR 0x22 \<and> \<not> is_escaped
              then bindR (push_word st) (\<lambda>st. Inr (st\<lparr>begin_quotes := False\<rparr>))
              else Inr st)"

definition comment_char :: "char \<Rightarrow> Splitter \<Rightarrow> Splitter" where
  "comment_char c st =
     (if c = CHR 0x0A then next_line (st\<lparr>begin_comment := False\<rparr>) else st)"

definition plain_char :: "char \<Rightarrow> Splitter \<Rightarrow> Splitter result" where
  "plain_char c st =
     (if c = CHR '';'' then Inr (st\<lparr>begin_comment := True\<rparr>)
      else if c = CHR 0x5C then Inr (st\<lparr>begin_escape := True\<rparr>)
      else if c = CHR ''+'' \<or> c = CHR ''-'' \<or> c = CHR ''*'' then
        bindR (FLUSH_WORD st) (\<lambda>st. Inr (append_char c st))
      else if c = CHR '','' \<or> c = CHR '' '' \<or> c = CHR 0x09 \<or> c = CHR 0x0A \<or> c = CHR 0x0D then
        bindR (FLUSH_WORD st) (\<lambda>st. Inr (if c = CHR 0x0A then next_line st else st))
      else if c = CHR 0x22 then Inr (append_char c (st\<lparr>begin_quotes := True\<rparr>))
      else Inr (append_char c st))"

definition split_step :: "Splitter \<Rightarrow> char \<Rightarrow> Splitter result" where
  "split_step st c0 =
     (let is_escaped = begin_escape st;
          c = (if is_escaped then escape_character c0 else c0);
          st = st\<lparr>begin_escape := False\<rparr>
      in if begin_quotes st then quoted_char c is_escaped st
         else if begin_comment st then Inr (comment_char c st)
         else plain_char c st)"

fun split_run :: "Splitter \<Rightarrow> string \<Rightarrow> Splitter result" where
  "split_run st [] = Inr st"
| "split_run st (c # cs) = bindR (split_step st c) (\<lambda>st. split_run st cs)"

definition split :: "string \<Rightarrow> Token list result" where
  "split s = bindR (split_run Splitter_new s) (\<lambda>st.
     bindR (FLUSH_WORD st) (\<lambda>st. Inr (sp_tokens st)))"

section \<open>Every token is well-formed\<close>

lemma split_run_append: "split_run st (xs @ ys) = bindR (split_run st xs) (\<lambda>st. split_run st ys)"
proof (induction xs arbitrary: st)
  case Nil
  then show ?case by simp
next
  case (Cons x xs)
  then show ?case by (cases "split_step st x") simp_all
qed

definition splitter_ok :: "Splitter \<Rightarrow> bool" where
  "splitter_ok st \<longleftrightarrow> (\<forall>tk \<in> set (sp_tokens st). token_ok tk)"

definition gives_ok :: "Splitter result \<Rightarrow> bool" where
  "gives_ok r \<longleftrightarrow> (\<forall>st. r = Inr st \<longrightarrow> splitter_ok st)"

lemma gives_ok_Inr: "splitter_ok st \<Longrightarrow> gives_ok (Inr st)"
  by (simp add: gives_ok_def)

lemma gives_ok_if: "(b \<Longrightarrow> gives_ok r) \<Longrightarrow> (\<not> b \<Longrightarrow> gives_ok q) \<Longrightarrow> gives_ok (if b then r else q)"
  by simp

lemma gives_ok_bind: "gives_ok r \<Longrightarrow> (\<And>st. splitter_ok st \<Longrightarrow> gives_ok (f st)) \<Longrightarrow> gives_ok (bindR r f)"
  by (cases r) (simp_all add: gives_ok_def)

lemma push_word_ok: "splitter_ok st \<Longrightarrow> gives_ok (push_word st)"
  by (auto simp: push_word_def splitter_ok_def gives_ok_def bindR_Inr_iff dest: parse_ok)

lemma FLUSH_WORD_ok: "splitter_ok st \<Longrightarrow> gives_ok (FLUSH_WORD st)"
  unfolding FLUSH_WORD_def by (intro gives_ok_if push_word_ok gives_ok_Inr)

lemma splitter_ok_modes [simp]:
  "splitter_ok (st\<lparr>begin_quotes := b\<rparr>) = splitter_ok st"
  "splitter_ok (st\<lparr>begin_comment := b\<rparr>) = splitter_ok st"
  "splitter_ok (st\<lparr>begin_escape := b\<rparr>) = splitter_ok st"
  "splitter_ok (append_char c st) = splitter_ok st"
  "splitter_ok (next_line st) = splitter_ok st"
  by (simp_all add: splitter_ok_def append_char_def next_line_def)

lemmas gives_ok_intros =
  gives_ok_if gives_ok_bind gives_ok_Inr push_word_ok FLUSH_WORD_ok

lemma split_step_ok: "splitter_ok st \<Longrightarrow> gives_ok (split_step st c)"
  unfolding split_step_def quoted_char_def plain_char_def comment_char_def Let_def
  by (intro gives_ok_intros; simp)+

lemma split_run_ok: "splitter_ok st \<Longrightarrow> gives_ok (split_run st cs)"
proof (induction cs arbitrary: st)
  case Nil
  then show ?case by (simp add: gives_ok_Inr)
next
  case (Cons c cs)
  then show ?case by (simp add: gives_ok_bind split_step_ok)
qed

lemma split_ok:
  assumes "split s = Inr tks" and "tk \<in> set tks"
  shows "token_ok tk"
proof -
  obtain st st' where run: "split_run Splitter_new s = Inr st" and flush: "FLUSH_WORD st = Inr st'"
    and tks: "tks = sp_tokens st'"
    using assms(1) by (auto simp: split_def bindR_Inr_iff)
  have "splitter_ok Splitter_new" by (simp add: splitter_ok_def Splitter_new_def)
  then have "splitter_ok st" using split_run_ok run unfolding gives_ok_def by blast
  then have "splitter_ok st'" using FLUSH_WORD_ok flush unfolding gives_ok_def by blast
  with tks assms(2) show ?thesis by (simp add: splitter_ok_def)
qed

section \<open>Comments\<close>

text \<open>Outside string literals and comments, in the middle of no escape.\<close>

definition plain_mode :: "Splitter \<Rightarrow> bool" where
  "plain_mode st \<longleftrightarrow> \<not> begin_quotes st \<and> \<not> begin_comment st \<and> \<not> begin_escape st"

lemma split_step_plain: "plain_mode st \<Longrightarrow> split_step st c = plain_char c st"
  by (simp add: split_step_def plain_mode_def Let_def) (cases st; simp)

lemma split_run_comment:
  assumes "begin_comment st" and "\<not> begin_quotes st" and "\<not> begin_escape st"
    and "CHR 0x0A \<notin> set cs"
  shows "split_run st (cs @ CHR 0x0A # rest) = split_run (next_line (st\<lparr>begin_comment := False\<rparr>)) rest"
proof -
  have same: "st\<lparr>begin_escape := False\<rparr> = st" using assms(3) by (cases st) simp
  have "split_run st (cs @ rest') = split_run st rest'" for rest'
    using assms(4) by (induction cs)
      (auto simp: split_step_def comment_char_def Let_def assms(1-3) same)
  then show ?thesis
    by (simp only: split_run.simps split_step_def comment_char_def Let_def assms(1-3) same
        if_False if_True refl bindR_simps)
qed

text \<open>
  A comment leaves the splitter as it was, one line further on: in particular it does not
  end the word in front of it.
\<close>

lemma split_run_skips_comment:
  assumes "plain_mode st" and "CHR 0x0A \<notin> set cs"
  shows "split_run st (CHR '';'' # cs @ CHR 0x0A # rest) = split_run (next_line st) rest"
proof -
  have "split_step st (CHR '';'') = Inr (st\<lparr>begin_comment := True\<rparr>)"
    using assms(1) by (simp add: split_step_plain plain_char_def)
  moreover have "(st\<lparr>begin_comment := True\<rparr>)\<lparr>begin_comment := False\<rparr> = st"
    using assms(1) by (cases st) (simp add: plain_mode_def)
  ultimately show ?thesis
    using split_run_comment [of "st\<lparr>begin_comment := True\<rparr>" cs rest] assms
    by (simp add: plain_mode_def)
qed

section \<open>Words and separators\<close>

definition is_separator :: "char \<Rightarrow> bool" where
  "is_separator c \<longleftrightarrow> c \<in> {CHR '','', CHR '' '', CHR 0x09, CHR 0x0A, CHR 0x0D}"

definition is_word_char :: "char \<Rightarrow> bool" where
  "is_word_char c \<longleftrightarrow> \<not> is_separator c \<and>
     c \<notin> {CHR '';'', CHR 0x5C, CHR 0x22, CHR ''+'', CHR ''-'', CHR ''*''}"

lemma plain_word_char: "is_word_char c \<Longrightarrow> plain_char c st = Inr (append_char c st)"
  by (simp add: is_word_char_def is_separator_def plain_char_def)

lemma plain_separator:
  "is_separator c \<Longrightarrow> plain_char c st =
     bindR (FLUSH_WORD st) (\<lambda>st. Inr (if c = CHR 0x0A then next_line st else st))"
  by (auto simp: is_separator_def plain_char_def)

lemma plain_mode_append [simp]: "plain_mode (append_char c st) = plain_mode st"
  by (simp add: plain_mode_def append_char_def)

lemma split_run_word:
  "plain_mode st \<Longrightarrow> list_all is_word_char w \<Longrightarrow>
   split_run st (w @ rest) = split_run (st\<lparr>sp_word := sp_word st @ w\<rparr>) rest"
proof (induction w arbitrary: st)
  case Nil
  then show ?case by simp
next
  case (Cons c w)
  then have "split_run st ((c # w) @ rest) = split_run (append_char c st) (w @ rest)"
    by (simp add: split_step_plain plain_word_char)
  also have "\<dots> = split_run ((append_char c st)\<lparr>sp_word := sp_word (append_char c st) @ w\<rparr>) rest"
    using Cons by simp
  finally show ?case by (simp add: append_char_def)
qed

text \<open>A text of words, each with the separator that ends it, and the words with their lines.\<close>

definition separated :: "(string \<times> char) list \<Rightarrow> bool" where
  "separated ws \<longleftrightarrow> list_all (\<lambda>(w, c). w \<noteq> [] \<and> list_all is_word_char w \<and> is_separator c) ws"

definition text_of :: "(string \<times> char) list \<Rightarrow> string" where
  "text_of ws = concat (map (\<lambda>(w, c). w @ [c]) ws)"

fun raw_words :: "u32 \<Rightarrow> (string \<times> char) list \<Rightarrow> RawToken list" where
  "raw_words n [] = []"
| "raw_words n ((w, c) # ws) =
     \<lparr>rt_name = w, rt_line = n\<rparr> # raw_words (if c = CHR 0x0A then n + 1 else n) ws"

lemma split_run_separated:
  assumes "plain_mode st" and "sp_word st = []" and "separated ws"
  shows "bindR (split_run st (text_of ws)) (\<lambda>st. bindR (FLUSH_WORD st) (\<lambda>st. Inr (sp_tokens st))) =
         bindR (mapR parse (raw_words (sp_line st) ws)) (\<lambda>tks. Inr (sp_tokens st @ tks))"
  using assms
proof (induction ws arbitrary: st)
  case Nil
  then show ?case by (simp add: text_of_def FLUSH_WORD_def)
next
  case (Cons p ws)
  obtain w c where p: "p = (w, c)" by (cases p)
  let ?rt = "\<lparr>rt_name = w, rt_line = sp_line st\<rparr>"
  let ?st = "st\<lparr>sp_word := w\<rparr>"
  have w: "w \<noteq> []" "list_all is_word_char w" "is_separator c" and ws: "separated ws"
    using Cons.prems(3) by (simp_all add: p separated_def)
  have "split_run st (text_of (p # ws)) = split_run ?st (c # text_of ws)"
    using split_run_word [OF Cons.prems(1) w(2), of "c # text_of ws"] Cons.prems(2)
    by (simp add: text_of_def p)
  moreover have "plain_mode ?st" using Cons.prems(1) by (simp add: plain_mode_def)
  ultimately have run: "split_run st (text_of (p # ws)) =
      bindR (push_word ?st) (\<lambda>st. split_run (if c = CHR 0x0A then next_line st else st) (text_of ws))"
    using w by (simp add: split_step_plain plain_separator FLUSH_WORD_def)
      (cases "push_word ?st"; simp)
  show ?case
  proof (cases "parse ?rt")
    case (Inl e)
    then show ?thesis using run by (simp add: push_word_def p)
  next
    case (Inr tk)
    define st1 where "st1 = st\<lparr>sp_tokens := sp_tokens st @ [tk], sp_word := []\<rparr>"
    define st2 where "st2 = (if c = CHR 0x0A then next_line st1 else st1)"
    have "push_word ?st = Inr st1" using Inr by (simp add: push_word_def st1_def)
    then have "split_run st (text_of (p # ws)) = split_run st2 (text_of ws)"
      by (simp add: run st2_def)
    moreover have "plain_mode st2" "sp_word st2 = []"
        "sp_tokens st2 = sp_tokens st @ [tk]" "sp_line st2 = (if c = CHR 0x0A then sp_line st + 1 else sp_line st)"
      using Cons.prems(1,2) by (simp_all add: st2_def st1_def next_line_def plain_mode_def)
    ultimately show ?thesis
      using Cons.IH [of st2] ws Inr
      by (simp add: p bindR_assoc)
  qed
qed

lemma split_words:
  "separated ws \<Longrightarrow> split (text_of ws) = mapR parse (raw_words 1 ws)"
  using split_run_separated [of Splitter_new ws]
  by (simp add: split_def Splitter_new_def plain_mode_def)
    (cases "mapR parse (raw_words 1 ws)"; simp)

section \<open>String literals\<close>

text \<open>
  How a character of a string may be written between the quotes: as itself, or as an
  escape for it. A backslash cannot be written at all: its escape is taken for the
  beginning of another.
\<close>

fun literal_char :: "char \<Rightarrow> string \<Rightarrow> bool" where
  "literal_char c [d] \<longleftrightarrow> d = c \<and> c \<noteq> CHR 0x22 \<and> c \<noteq> CHR 0x5C"
| "literal_char c [b, d] \<longleftrightarrow> b = CHR 0x5C \<and> escape_character d = c \<and> c \<noteq> CHR 0x5C"
| "literal_char c _ \<longleftrightarrow> False"

definition quoted_mode :: "Splitter \<Rightarrow> bool" where
  "quoted_mode st \<longleftrightarrow> begin_quotes st \<and> \<not> begin_comment st \<and> \<not> begin_escape st"

lemma split_run_literal_char:
  assumes "quoted_mode st" and "literal_char c e"
  shows "split_run st (e @ rest) = split_run (append_char c st) rest"
proof -
  have st: "st\<lparr>begin_escape := False\<rparr> = st" "(st\<lparr>begin_escape := True\<rparr>)\<lparr>begin_escape := False\<rparr> = st"
    using assms(1) by (cases st; simp add: quoted_mode_def)+
  from assms(2) consider "e = [c]" "c \<noteq> CHR 0x22" "c \<noteq> CHR 0x5C"
    | d where "e = [CHR 0x5C, d]" "escape_character d = c" "c \<noteq> CHR 0x5C"
    by (cases "(c, e)" rule: literal_char.cases) auto
  then show ?thesis
    using assms(1) by cases
      (simp_all add: split_step_def quoted_char_def Let_def quoted_mode_def st)
qed

lemma split_run_literal:
  "list_all2 literal_char s es \<Longrightarrow> quoted_mode st \<Longrightarrow>
   split_run st (concat es @ rest) = split_run (st\<lparr>sp_word := sp_word st @ s\<rparr>) rest"
proof (induction arbitrary: st rule: list_all2_induct)
  case Nil
  then show ?case by simp
next
  case (Cons c cs e es)
  have "quoted_mode (append_char c st)"
    using Cons.prems by (simp add: quoted_mode_def append_char_def)
  then show ?case
    using Cons split_run_literal_char [of st c e "concat es @ rest"]
    by (simp add: append_char_def)
qed

lemma parse_string_word:
  "parse_word (CHR 0x22 # s @ [CHR 0x22]) = Inr ((Token_new TK_STRING)\<lparr>tk_value := s\<rparr>)"
  by (simp add: parse_word_def substr_def Token_new_def)

lemma split_string_literal:
  assumes "list_all2 literal_char s es"
  shows "split (CHR 0x22 # concat es @ [CHR 0x22]) =
    Inr [(Token_new TK_STRING)\<lparr>tk_line := 1, tk_value := s\<rparr>]"
proof -
  let ?st = "Splitter_new\<lparr>sp_word := [CHR 0x22], begin_quotes := True\<rparr>"
  have "split_step Splitter_new (CHR 0x22) = Inr ?st"
    by (simp add: split_step_def plain_char_def append_char_def Splitter_new_def Let_def)
  moreover have q: "quoted_mode ?st" by (simp add: quoted_mode_def Splitter_new_def)
  moreover have "split_step (?st\<lparr>sp_word := CHR 0x22 # s\<rparr>) (CHR 0x22) =
      Inr (Splitter_new\<lparr>sp_tokens := [(Token_new TK_STRING)\<lparr>tk_line := 1, tk_value := s\<rparr>]\<rparr>)"
    by (simp add: split_step_def quoted_char_def append_char_def Splitter_new_def Let_def
        push_word_def parse_def parse_string_word Token_new_def)
  ultimately show ?thesis
    using split_run_literal [OF assms q, of "[CHR 0x22]"]
    by (simp add: split_def FLUSH_WORD_def Splitter_new_def)
qed

end
