(* ===== verification/Directives.thy ===== *)
theory Directives
  imports RawSplit Fixups
begin

text \<open>
  \<^verbatim>\<open>directive.cpp\<close>: one operation for each directive, and the dispatch on its name. The
  nested assembly of an included file is an argument, since it is the loop that calls the
  directives.
\<close>

section \<open>The directives\<close>

definition dir_align :: "unit M" where
  "dir_align = bindM (next_tk TK_CONSTANT) (\<lambda>tk. align (u64_of tk))"

definition dir_endfunc :: "unit M" where
  "dir_endfunc =
     bindM (next_tk TK_SYMBOL) (\<lambda>tk.
     bindM (getM current_location) (\<lambda>loc. schedule (tk_value tk) (Op_endfunc loc)))"

definition dir_global :: "unit M" where
  "dir_global = bindM (next_tk TK_SYMBOL) (\<lambda>tk. make_global (tk_value tk))"

definition dir_include :: "Environment \<Rightarrow> (Token list \<Rightarrow> string option \<Rightarrow> unit M) \<Rightarrow> unit M" where
  "dir_include env asm =
     bindM (next_tk TK_STRING) (\<lambda>tk.
     bindM (getM m_realpath) (\<lambda>rpath.
     bindM (liftR (load_file env (tk_value tk) rpath)) (\<lambda>contents.
     bindM (liftR (split contents)) (\<lambda>tks.
       asm tks (get_realpath env (c_str (tk_value tk)))))))"

definition dir_section :: "unit M" where
  "dir_section = bindM (next_tk TK_DIRECTIVE) (\<lambda>tk. set_section (tk_value tk))"

definition dir_org :: "unit M" where
  "dir_org =
     bindM (next_tk TK_CONSTANT) (\<lambda>ba.
     bindM (getM (\<lambda>s. Section_size (current_section s))) (\<lambda>sz.
       if sz > 0
       then throwM (RuntimeError ''Cannot change base address when instructions already generated'')
       else on_current (\<lambda>sec. Inr (Section_set_base_address (u128_of ba) sec))))"

definition dir_type :: "unit M" where
  "dir_type =
     bindM (next_tk TK_SYMBOL) (\<lambda>tk.
     bindM (next_tk TK_SYMBOL) (\<lambda>info.
       if tk_value info = ''object'' then symbol_set_type (tk_value tk) STT_OBJECT
       else if tk_value info = ''func'' \<or> tk_value info = ''function''
       then symbol_set_type (tk_value tk) STT_FUNC
       else throwM (RuntimeError (''Unknown type: '' @ tk_value info))))"

text \<open>A cell for the size, filled in when the addresses are known.\<close>

definition dir_size :: "unit M" where
  "dir_size =
     bindM (next_tk TK_SYMBOL) (\<lambda>tk.
     bindM (getM current_location) (\<lambda>dataloc.
     thenM (align_with_labels 4)
     (bindM (getM current_location) (\<lambda>loc.
     thenM (schedule (tk_value tk) (Op_size loc dataloc))
       (add_output OT_DATA (le_bytes 4 0))))))"

definition dir_string :: "unit M" where
  "dir_string =
     bindM (next_tk TK_STRING) (\<lambda>str.
     thenM (align_with_labels 0)
       (add_output OT_DATA (map char_byte (tk_value str) @ [0])))"

definition dir_strlen :: "unit M" where
  "dir_strlen =
     bindM (next_tk TK_STRING) (\<lambda>str.
     thenM (align_with_labels 4)
       (add_output OT_DATA (le_bytes 4 (ucast (of_nat (length (tk_value str)) :: u32)))))"

definition dir_ascii :: "unit M" where
  "dir_ascii =
     bindM (next_tk TK_STRING) (\<lambda>str.
     thenM (align_with_labels 0) (add_output OT_DATA (map char_byte (tk_value str))))"

text \<open>An unknown directive is reported on standard error and otherwise ignored.\<close>

definition directive :: "Environment \<Rightarrow> (Token list \<Rightarrow> string option \<Rightarrow> unit M) \<Rightarrow> Token \<Rightarrow> unit M" where
  "directive env asm tk =
     (let v = tk_value tk in
      if v = ''.align'' then dir_align
      else if v = ''.endfunc'' then dir_endfunc
      else if v = ''.finish_labels'' then align_with_labels 0
      else if v = ''.global'' then dir_global
      else if v = ''.include'' then dir_include env asm
      else if v = ''.section'' then dir_section
      else if v = ''.org'' then dir_org
      else if v = ''.execonly'' then on_current (\<lambda>sec. Inr (Section_make_execonly sec))
      else if v = ''.readonly'' then on_current (\<lambda>sec. Inr (Section_make_readonly sec))
      else if v = ''.type'' then dir_type
      else if v = ''.size'' then dir_size
      else if v = ''.string'' then dir_string
      else if v = ''.strlen'' then dir_strlen
      else if v = ''.ascii'' then dir_ascii
      else returnM ())"

section \<open>What the directives keep\<close>

lemma schedule_current_evolves:
  assumes "\<And>loc. op_sections (mk loc) \<subseteq> {loc_section loc}"
  shows "keeps evolves (bindM (getM current_location) (\<lambda>loc. schedule n (mk loc)))"
proof (rule keepsI)
  fix s a s'
  assume "bindM (getM current_location) (\<lambda>loc. schedule n (mk loc)) s = Inr (a, s')"
  then have "schedule n (mk (current_location s)) s = Inr (a, s')" by (simp add: bindM_def)
  then show "evolves s s'"
    by (rule schedule_evolves [rotated])
      (use assms [of "current_location s"] in \<open>auto simp: wf_assembler_def\<close>)
qed

lemma symbol_set_type_evolves: "keeps evolves (symbol_set_type n t)"
  unfolding symbol_set_type_def keeps_def by (auto intro: schedule_evolves [rotated])

text \<open>Labels are attached in the current section, which stays the current one.\<close>

definition same_current :: "Assembler \<Rightarrow> Assembler \<Rightarrow> bool" where
  "same_current s s' \<longleftrightarrow> m_current_section s' = m_current_section s"

interpretation current: state_preorder same_current
  by unfold_locales (simp_all add: same_current_def)

lemma align_with_labels_current: "keeps same_current (align_with_labels a)"
proof -
  have "keeps same_current (add_symbol_here n)" for n
    by (auto simp: keeps_def add_symbol_here_def same_current_def split: option.splits)
  then show ?thesis
    unfolding align_with_labels_def Section_align_with_labels_def
    by (intro current.keeps_intros current.keeps_modify) (simp_all add: same_current_def)
qed

lemma dir_size_evolves: "keeps evolves dir_size"
proof (rule keepsI)
  fix s a s'
  assume "dir_size s = Inr (a, s')"
  then obtain tk s1 s2 s3 where tk: "next_tk TK_SYMBOL s = Inr (tk, s1)"
    and al: "align_with_labels 4 s1 = Inr ((), s2)"
    and sch: "schedule (tk_value tk) (Op_size (current_location s2) (current_location s1)) s2 = Inr ((), s3)"
    and out: "add_output OT_DATA (le_bytes 4 0) s3 = Inr (a, s')"
    by (auto simp: dir_size_def bindM_Inr_iff)
  have cur: "m_current_section s2 = m_current_section s1"
    using keepsD [OF align_with_labels_current al] by (simp add: same_current_def)
  have "evolves s2 s3"
    using sch by (rule schedule_evolves [rotated]) (simp add: cur [symmetric] wf_assembler_def)
  then show "evolves s s'"
    using keepsD [OF next_tk_evolves tk] keepsD [OF align_with_labels_evolves al]
      keepsD [OF add_output_evolves out] evolution.R_trans by blast
qed

lemma on_current_flag_evolves:
  "keeps evolves (on_current (\<lambda>sec. Inr (Section_make_execonly sec)))"
  "keeps evolves (on_current (\<lambda>sec. Inr (Section_make_readonly sec)))"
  "keeps evolves (on_current (\<lambda>sec. Inr (Section_set_base_address ba sec)))"
  by (intro on_current_evolves section_op_pure;
      simp add: Section_make_execonly_def Section_make_readonly_def Section_set_base_address_def)+

lemmas directive_defs =
  dir_align_def dir_endfunc_def dir_global_def dir_include_def dir_section_def dir_org_def
  dir_type_def dir_string_def dir_strlen_def dir_ascii_def

lemma directive_evolves:
  assumes "\<And>tks rp. keeps evolves (asm tks rp)"
  shows "keeps evolves (directive env asm tk)"
  unfolding directive_def Let_def directive_defs
  by (intro evolution.keeps_intros primitive_evolves on_current_flag_evolves dir_size_evolves
      symbol_set_type_evolves schedule_current_evolves assms) simp_all

lemma directive_advances:
  assumes "\<And>tks rp. keeps advances (asm tks rp)"
  shows "keeps advances (directive env asm tk)"
  unfolding directive_def Let_def directive_defs dir_size_def symbol_set_type_def
  by (intro cursor.keeps_intros primitive_advances on_current_advances assms)

end
