(* ===== verification/Assemble.thy ===== *)
theory Assemble
  imports Directives OpcodeFacts FixupFacts
begin

text \<open>
  \<^verbatim>\<open>Assembler::assemble\<close>, the loop over the tokens of a file and of the files it
  includes, and \<^verbatim>\<open>Assembler::finish\<close>: the remaining labels, the base addresses of the
  sections, and the scheduled work.
\<close>

section \<open>The token loop\<close>

text \<open>An opcode: align, ask the handler for the instructions, emit them.\<close>

definition emit_instr :: "u32 \<Rightarrow> unit M" where
  "emit_instr instr = add_output OT_CODE (take (instr_length instr) (instr_raw instr))"

definition assemble_opcode :: "Opcode \<Rightarrow> unit M" where
  "assemble_opcode opc =
     thenM (align_with_labels 4)
       (bindM (opcode_handler opc) (\<lambda>il. forM il emit_instr))"

definition assemble_token ::
    "Environment \<Rightarrow> (Token list \<Rightarrow> string option \<Rightarrow> unit M) \<Rightarrow> Token \<Rightarrow> unit M" where
  "assemble_token env asm tk =
     (case tk_type tk of
        TK_DIRECTIVE \<Rightarrow> directive env asm tk
      | TK_LABEL \<Rightarrow> add_label_soon (tk_value tk)
      | TK_OPCODE \<Rightarrow> (case tk_payload tk of
            OpcodePtr opc \<Rightarrow> assemble_opcode opc
          | _ \<Rightarrow> throwM (Undefined ''not a pointer to an opcode''))
      | TK_PSEUDOOP \<Rightarrow> (case tk_payload tk of
            PseudoOpPtr p \<Rightarrow> pseudo_handler env p
          | _ \<Rightarrow> throwM (Undefined ''not a pointer to a pseudo-op''))
      | _ \<Rightarrow> throwM (RuntimeError (''Unexpected token: '' @ Token_to_string tk)))"

text \<open>
  Every round takes at least one token, so that as many rounds as there are tokens are
  enough; the last equation is never used for a loop with tokens left.
\<close>

primrec token_loop :: "(Token \<Rightarrow> unit M) \<Rightarrow> nat \<Rightarrow> unit M" where
  "token_loop f 0 = bindM (getM done_tokens) (\<lambda>fin.
     if fin then returnM () else throwM (Undefined ''token loop''))"
| "token_loop f (Suc n) = bindM (getM done_tokens) (\<lambda>fin.
     if fin then returnM ()
     else bindM next_token (\<lambda>tk. thenM (f tk) (token_loop f n)))"

text \<open>
  \<^verbatim>\<open>assemble\<close>. An included file is assembled by a nested call; the nesting is bounded
  by \<open>depth\<close>, as it is by the stack.
\<close>

primrec assemble :: "Environment \<Rightarrow> nat \<Rightarrow> Token list \<Rightarrow> string option \<Rightarrow> unit M" where
  "assemble env 0 tv rpath = throwM StackOverflow"
| "assemble env (Suc depth) tv rpath =
     bindM (getM (\<lambda>s. (tokens s, index s, m_realpath s))) (\<lambda>(prev_tokens, prev_index, prev_rpath).
     thenM (modifyM (\<lambda>s. s\<lparr>tokens := tv, index := 0, m_realpath := rpath\<rparr>))
     (thenM (bindM (getM (\<lambda>s. opt_base (options s))) (\<lambda>base.
        if base AND 0xF = 0 then returnM () else throwM AssertionFailure))
     (thenM (token_loop (assemble_token env (assemble env depth)) (length tv))
       (modifyM (\<lambda>s. s\<lparr>tokens := prev_tokens, index := prev_index, m_realpath := prev_rpath\<rparr>)))))"

section \<open>Base addresses\<close>

definition page_realign :: "u128 \<Rightarrow> u128" where
  "page_realign base_addr = (base_addr + 0xFFF) AND NOT 0xFFF"

definition align_16 :: "u128 \<Rightarrow> u128" where
  "align_16 base_addr = (base_addr + 0xF) AND NOT 0xF"

text \<open>
  One round of \<^verbatim>\<open>resolve_base_addresses\<close>: first the address of the section, with the
  two flags, then the section with its address, and the next base address.
  \<^verbatim>\<open>was_readonly\<close> is cleared here and never set.
\<close>

definition base_start :: "Options \<Rightarrow> u128 \<times> bool \<times> bool \<Rightarrow> Section \<Rightarrow> u128 \<times> bool \<times> bool" where
  "base_start opt = (\<lambda>(base_addr, was_executable, was_readonly) sec.
     if \<not> m_has_base_addr sec then
       (if opt_section_attr_page_separation opt then
          (if was_executable \<and> \<not> sec_code sec
           then (page_realign base_addr, False, was_readonly)
           else if was_readonly \<and> \<not> sec_readonly sec
           then (page_realign base_addr, was_executable, False)
           else (base_addr, was_executable, was_readonly))
        else (base_addr, was_executable, was_readonly))
     else (m_base_address sec, sec_code sec, was_readonly))"

definition base_round :: "Options \<Rightarrow> u128 \<times> bool \<times> bool \<Rightarrow> Section \<Rightarrow> Section \<times> u128 \<times> bool \<times> bool" where
  "base_round opt acc sec =
     (case base_start opt acc sec of (base_addr, was_executable, was_readonly) \<Rightarrow>
        ((if \<not> m_has_base_addr sec then Section_set_base_address base_addr sec else sec),
         align_16 (base_addr + ucast (Section_size sec)), was_executable, was_readonly))"

definition section_at :: "nat \<Rightarrow> string M" where
  "section_at idx =
     bindM (getM (\<lambda>s. find (\<lambda>(n, sec). m_idx sec = idx) (m_sections s))) (\<lambda>f.
       case f of
         Some p \<Rightarrow> returnM (fst p)
       | None \<Rightarrow> throwM (RuntimeError (''Could not find section index '' @ int_to_string (int idx))))"

fun base_loop :: "nat list \<Rightarrow> u128 \<times> bool \<times> bool \<Rightarrow> unit M" where
  "base_loop [] acc = returnM ()"
| "base_loop (idx # idxs) acc =
     bindM (section_at idx) (\<lambda>name.
     bindM (getM (\<lambda>s. base_round (options s) acc (the_section s name))) (\<lambda>(sec, acc').
     thenM (modifyM (put_section name sec)) (base_loop idxs acc')))"

definition resolve_base_addresses :: "unit M" where
  "resolve_base_addresses =
     bindM (getM (\<lambda>s. (length (m_sections s), opt_base (options s)))) (\<lambda>(n, base).
       base_loop [0..<n] (base, False, False))"

section \<open>Finishing\<close>

definition finish :: "unit M" where
  "finish =
     bindM (getM (\<lambda>s. om_keys (m_sections s))) (\<lambda>names.
     thenM (forM names (\<lambda>n. Section_align_with_labels n 1))
     (thenM resolve_base_addresses finish_scheduled_work))"

section \<open>The invariant\<close>

lemma emit_instr_evolves: "keeps evolves (emit_instr instr)"
  unfolding emit_instr_def by (rule add_output_evolves)

lemma assemble_opcode_evolves: "keeps evolves (assemble_opcode opc)"
  unfolding assemble_opcode_def
  by (intro evolution.keeps_intros primitive_evolves opcode_handler_evolves emit_instr_evolves)

lemma assemble_token_evolves:
  assumes "\<And>tks rp. keeps evolves (asm tks rp)"
  shows "keeps evolves (assemble_token env asm tk)"
proof (cases "tk_type tk")
  case TK_OPCODE
  then show ?thesis
    by (cases "tk_payload tk")
      (simp_all add: assemble_token_def assemble_opcode_evolves evolution.keeps_throw)
next
  case TK_PSEUDOOP
  then show ?thesis
    by (cases "tk_payload tk")
      (simp_all add: assemble_token_def pseudo_handler_evolves evolution.keeps_throw)
qed (simp_all add: assemble_token_def directive_evolves [OF assms] add_label_soon_evolves
    evolution.keeps_throw)

lemma token_loop_evolves:
  assumes "\<And>tk. keeps evolves (f tk)"
  shows "keeps evolves (token_loop f n)"
proof (induction n)
  case 0
  show ?case unfolding token_loop.simps by (intro evolution.keeps_intros)
next
  case (Suc n)
  show ?case
    unfolding token_loop.simps by (intro evolution.keeps_intros next_token_evolves assms Suc)
qed

lemma frame_evolves:
  "evolves s (s\<lparr>tokens := tv, index := i, m_realpath := rp\<rparr>)"
  by (rule evolves_same_tables) simp_all

lemma assemble_evolves: "keeps evolves (assemble env depth tv rpath)"
proof (induction depth arbitrary: tv rpath)
  case 0
  show ?case unfolding assemble.simps by (rule evolution.keeps_throw)
next
  case (Suc depth)
  show ?case
    unfolding assemble.simps split_beta
    by (intro evolution.keeps_intros evolution.keeps_modify frame_evolves token_loop_evolves
        assemble_token_evolves Suc)
qed

section \<open>The cursor and the loop\<close>

lemma assemble_opcode_advances: "keeps advances (assemble_opcode opc)"
  unfolding assemble_opcode_def emit_instr_def
  by (intro cursor.keeps_intros primitive_advances opcode_handler_advances)

lemma assemble_token_advances:
  assumes "\<And>tks rp. keeps advances (asm tks rp)"
  shows "keeps advances (assemble_token env asm tk)"
proof (cases "tk_type tk")
  case TK_OPCODE
  then show ?thesis
    by (cases "tk_payload tk")
      (simp_all add: assemble_token_def assemble_opcode_advances cursor.keeps_throw)
next
  case TK_PSEUDOOP
  then show ?thesis
    by (cases "tk_payload tk")
      (simp_all add: assemble_token_def pseudo_handler_advances cursor.keeps_throw)
qed (simp_all add: assemble_token_def directive_advances [OF assms] primitive_advances
    cursor.keeps_throw)

text \<open>A nested assembly restores the tokens, the place in them and the path.\<close>

lemma assemble_frame:
  assumes "assemble env depth tv rpath s = Inr (a, s')"
  shows "tokens s' = tokens s \<and> index s' = index s \<and> m_realpath s' = m_realpath s"
proof (cases depth)
  case 0
  with assms show ?thesis by simp
next
  case (Suc d)
  with assms show ?thesis by (auto simp: bindM_Inr_iff)
qed

lemma assemble_advances: "keeps advances (assemble env depth tv rpath)"
  using assemble_frame by (fastforce simp: keeps_def advances_def)

definition remaining :: "Assembler \<Rightarrow> nat" where
  "remaining s = length (tokens s) - index s"

lemma round_remaining:
  assumes "\<not> done_tokens s" and "next_token s = Inr (tk, s1)" and "keeps advances m"
    and "m s1 = Inr (a, s2)"
  shows "remaining s2 < remaining s"
  using assms keepsD [OF assms(3,4)]
  by (auto simp: remaining_def next_token_def done_tokens_def advances_def split: if_splits)

text \<open>The loop does not depend on the number of rounds, once it is enough.\<close>

lemma token_loop_enough:
  assumes "\<And>tk. keeps advances (f tk)" and "remaining s \<le> n" and "n \<le> m"
  shows "token_loop f m s = token_loop f n s"
  using assms(2,3)
proof (induction n arbitrary: m s)
  case 0
  then have "done_tokens s" by (simp add: remaining_def done_tokens_def)
  then show ?case by (cases m) (simp_all add: bindM_def)
next
  case (Suc n)
  then obtain m' where m: "m = Suc m'" "n \<le> m'" by (cases m) auto
  show ?case
  proof (cases "done_tokens s")
    case True
    then show ?thesis by (simp add: m bindM_def)
  next
    case False
    then obtain tk s1 where tk: "next_token s = Inr (tk, s1)"
      by (auto simp: next_token_def done_tokens_def)
    show ?thesis
    proof (cases "f tk s1")
      case (Inl e)
      with False tk show ?thesis by (simp add: m bindM_def)
    next
      case (Inr p)
      obtain a s2 where p: "p = (a, s2)" by (cases p)
      have "remaining s2 < remaining s"
        using round_remaining [OF False tk assms(1) [of tk]] Inr p by blast
      with Suc.prems(1) m have "token_loop f m' s2 = token_loop f n s2"
        by (intro Suc.IH) simp_all
      with False tk Inr p show ?thesis by (simp add: m bindM_def)
    qed
  qed
qed

lemma token_loop_unfold:
  assumes "\<And>tk. keeps advances (f tk)" and "remaining s \<le> n"
  shows "token_loop f n s =
    (if done_tokens s then Inr ((), s)
     else bindM next_token (\<lambda>tk. thenM (f tk) (token_loop f n)) s)"
proof (cases n)
  case 0
  with assms(2) have "done_tokens s" by (simp add: remaining_def done_tokens_def)
  with 0 show ?thesis by (simp add: bindM_def)
next
  case (Suc k)
  have "thenM (f tk) (token_loop f k) s1 = thenM (f tk) (token_loop f n) s1"
    if "\<not> done_tokens s" "next_token s = Inr (tk, s1)" for tk s1
  proof (cases "f tk s1")
    case (Inr p)
    obtain a s2 where p: "p = (a, s2)" by (cases p)
    have "remaining s2 < remaining s"
      using round_remaining [OF that assms(1) [of tk]] Inr p by blast
    with assms(2) Suc have "token_loop f n s2 = token_loop f k s2"
      by (intro token_loop_enough assms(1)) simp_all
    with Inr p show ?thesis by (simp add: bindM_def)
  qed (simp add: bindM_def)
  with Suc show ?thesis
    by (auto simp: bindM_def split: sum.split)
qed

lemma token_loop_done: "token_loop f n s = Inr (a, s') \<Longrightarrow> done_tokens s'"
  by (induction n arbitrary: s) (auto simp: bindM_Inr_iff split: if_splits)

section \<open>The nesting of included files\<close>

text \<open>
  \<open>deepens m m'\<close>: \<open>m'\<close> does what \<open>m\<close> does, except where \<open>m\<close> runs out of stack.
\<close>

definition deepens :: "'a M \<Rightarrow> 'a M \<Rightarrow> bool" where
  "deepens m m' \<longleftrightarrow> (\<forall>s. m s \<noteq> Inl StackOverflow \<longrightarrow> m' s = m s)"

lemma deepens_refl: "deepens m m"
  by (simp add: deepens_def)

lemma deepens_bind: "deepens m m' \<Longrightarrow> (\<And>a. deepens (f a) (f' a)) \<Longrightarrow> deepens (bindM m f) (bindM m' f')"
  by (fastforce simp: deepens_def bindM_def split: sum.splits)

lemma deepens_if: "deepens m m' \<Longrightarrow> deepens n n' \<Longrightarrow> deepens (if b then m else n) (if b then m' else n')"
  by simp

lemma deepens_directive:
  assumes "\<And>tks rp. deepens (asm tks rp) (asm' tks rp)"
  shows "deepens (directive env asm tk) (directive env asm' tk)"
proof -
  have "deepens (dir_include env asm) (dir_include env asm')"
    unfolding dir_include_def by (intro deepens_bind deepens_refl assms)
  then show ?thesis
    unfolding directive_def Let_def by (intro deepens_if deepens_refl)
qed

lemma deepens_token:
  assumes "\<And>tks rp. deepens (asm tks rp) (asm' tks rp)"
  shows "deepens (assemble_token env asm tk) (assemble_token env asm' tk)"
  using deepens_directive [OF assms]
  by (cases "tk_type tk") (simp_all add: assemble_token_def deepens_refl)

lemma deepens_loop:
  assumes "\<And>tk. deepens (f tk) (f' tk)"
  shows "deepens (token_loop f n) (token_loop f' n)"
proof (induction n)
  case 0
  show ?case unfolding token_loop.simps by (rule deepens_refl)
next
  case (Suc n)
  show ?case unfolding token_loop.simps by (intro deepens_bind deepens_if deepens_refl assms Suc)
qed

lemma deepens_assemble: "deepens (assemble env d tv rpath) (assemble env (Suc d) tv rpath)"
proof (induction d arbitrary: tv rpath)
  case 0
  show ?case by (simp add: deepens_def)
next
  case (Suc d)
  show ?case
    unfolding assemble.simps(2) [of env _ tv rpath] split_beta
    by (intro deepens_bind deepens_refl deepens_loop deepens_token Suc)
qed

lemma assemble_deeper:
  assumes "assemble env d tv rpath s \<noteq> Inl StackOverflow" and "d \<le> e"
  shows "assemble env e tv rpath s = assemble env d tv rpath s"
  using assms(2)
proof (induction e rule: dec_induct)
  case base
  show ?case by (rule refl)
next
  case (step n)
  then have "assemble env n tv rpath s \<noteq> Inl StackOverflow" using assms(1) by metis
  then have "assemble env (Suc n) tv rpath s = assemble env n tv rpath s"
    using deepens_assemble [of env n tv rpath] unfolding deepens_def by blast
  with step show ?case by metis
qed

end
