(* ===== verification/BaseAddresses.thy ===== *)
theory BaseAddresses
  imports Assemble
begin

text \<open>
  What \<^verbatim>\<open>resolve_base_addresses\<close> promises: a plan of addresses over the sections in the
  order of their creation, which the loop over the map implements; and that the plan
  keeps sections apart and on 16-byte boundaries.
\<close>

section \<open>The sections by index\<close>

fun base_places :: "Options \<Rightarrow> u128 \<times> bool \<times> bool \<Rightarrow> Section list \<Rightarrow> Section list" where
  "base_places opt acc [] = []"
| "base_places opt acc (sec # secs) =
     (case base_round opt acc sec of (sec', acc') \<Rightarrow> sec' # base_places opt acc' secs)"

definition section_by_index :: "Assembler \<Rightarrow> nat \<Rightarrow> string \<times> Section" where
  "section_by_index s i =
     (case find (\<lambda>(n, sec). m_idx sec = i) (m_sections s) of
        Some p \<Rightarrow> p | None \<Rightarrow> ([], Section_new [] i))"

definition sections_in_order :: "Assembler \<Rightarrow> Section list" where
  "sections_in_order s = map (\<lambda>i. snd (section_by_index s i)) [0..<length (m_sections s)]"

lemma distinct_indices:
  assumes "sections_ok m"
  shows "distinct (map (m_idx \<circ> snd) m)"
  using assms unfolding sections_ok_def by (intro card_distinct) simp

lemma find_unique:
  assumes "distinct (map g xs)" and "x \<in> set xs"
  shows "find (\<lambda>y. g y = g x) xs = Some x"
  using assms by (induction xs) auto

lemma section_by_index_find:
  assumes "wf_assembler s" and "(n, sec) \<in> set (m_sections s)"
  shows "find (\<lambda>(n, sec'). m_idx sec' = m_idx sec) (m_sections s) = Some (n, sec)"
proof -
  have "distinct (map (m_idx \<circ> snd) (m_sections s))"
    using assms(1) by (intro distinct_indices) (simp add: wf_assembler_def)
  from find_unique [OF this assms(2)] show ?thesis by (simp add: case_prod_beta')
qed

lemma section_by_index_in:
  assumes "wf_assembler s" and "i < length (m_sections s)"
  obtains n sec where "section_by_index s i = (n, sec)" and "find_section s n = Some sec"
    and "m_idx sec = i" and "section_ok sec" and "section_at i s = Inr (n, s)"
proof -
  have "i \<in> set (map (m_idx \<circ> snd) (m_sections s))"
    using assms by (simp add: wf_assembler_def sections_ok_def)
  then obtain n sec where mem: "(n, sec) \<in> set (m_sections s)" and i: "i = m_idx sec" by auto
  have f: "find (\<lambda>(n, sec). m_idx sec = i) (m_sections s) = Some (n, sec)"
    unfolding i by (rule section_by_index_find [OF assms(1) mem])
  show thesis
  proof (rule that [of n sec])
    show "section_by_index s i = (n, sec)" by (simp add: section_by_index_def f)
    show sec: "find_section s n = Some sec"
      using assms(1) mem om_find_in [of "m_sections s" n sec]
      by (simp add: find_section_def wf_assembler_def sections_ok_def del: sorted_wrt_map)
    show "section_ok sec" using wf_section_ok [OF assms(1) sec] by simp
    show "section_at i s = Inr (n, s)" by (simp add: section_at_def bindM_def f)
  qed (simp add: i)
qed

lemma section_by_index_eq:
  assumes "wf_assembler s" and "find_section s n = Some sec"
  shows "section_by_index s (m_idx sec) = (n, sec)"
  using section_by_index_find [OF assms(1), of n sec] assms(2)
  by (simp add: section_by_index_def find_section_def map_of_SomeD)

text \<open>Replacing a section by one with the same index and name changes that index only.\<close>

lemma length_put_present:
  assumes "wf_assembler s" and "find_section s n = Some sec"
  shows "length (m_sections (put_section n sec' s)) = length (m_sections s)"
proof -
  have "om_keys (om_put n sec' (m_sections s)) = om_keys (m_sections s)"
    using assms by (intro om.keys_put_present)
      (simp_all add: wf_assembler_def sections_ok_def find_section_def del: sorted_wrt_map)
  then show ?thesis by (metis length_map m_sections_put)
qed

lemma section_by_index_put:
  assumes wf: "wf_assembler s" and n: "find_section s n = Some sec"
    and sec': "section_ok sec'" "m_name sec' = n" "m_idx sec' = m_idx sec"
    and j: "j < length (m_sections s)"
  shows "section_by_index (put_section n sec' s) j =
    (if j = m_idx sec then (n, sec') else section_by_index s j)"
proof -
  let ?s = "put_section n sec' s"
  have wf': "wf_assembler ?s" by (rule wf_put_section [OF wf n sec'])
  have n': "find_section ?s n = Some sec'" by (simp add: find_put_section)
  show ?thesis
  proof (cases "j = m_idx sec")
    case True
    then show ?thesis using section_by_index_eq [OF wf' n'] sec' by simp
  next
    case False
    obtain m sec2 where m: "section_by_index s j = (m, sec2)" "find_section s m = Some sec2" "m_idx sec2 = j"
      by (rule section_by_index_in [OF wf j])
    with False n have "m \<noteq> n" by auto
    then have "find_section ?s m = Some sec2" using m(2) by (simp add: find_put_section)
    from section_by_index_eq [OF wf' this] m False show ?thesis by simp
  qed
qed

section \<open>The loop implements the plan\<close>

lemma base_round_cases:
  assumes "base_round opt acc sec = (sec', b', we', wr')"
  shows "sec' = (if m_has_base_addr sec then sec else Section_set_base_address (fst (base_start opt acc sec)) sec)"
    and "m_base_address sec' = fst (base_start opt acc sec)"
    and "b' = align_16 (m_base_address sec' + ucast (Section_size sec))"
proof -
  obtain c we wr where c: "base_start opt acc sec = (c, we, wr)" by (cases "base_start opt acc sec")
  have "c = m_base_address sec" if "m_has_base_addr sec"
    using c that by (cases acc) (simp add: base_start_def)
  with assms c show "m_base_address sec' = fst (base_start opt acc sec)"
    and "b' = align_16 (m_base_address sec' + ucast (Section_size sec))"
    and "sec' = (if m_has_base_addr sec then sec else Section_set_base_address (fst (base_start opt acc sec)) sec)"
    by (auto simp: base_round_def Section_set_base_address_def)
qed

lemma base_round_same:
  assumes "base_round opt acc sec = (sec', acc')"
  shows "m_idx sec' = m_idx sec" "m_name sec' = m_name sec" "sec_output sec' = sec_output sec"
proof -
  obtain b' we' wr' where "acc' = (b', we', wr')" by (cases acc')
  with base_round_cases(1) [of opt acc sec sec' b' we' wr'] assms
  show "m_idx sec' = m_idx sec" "m_name sec' = m_name sec" "sec_output sec' = sec_output sec"
    by (simp_all add: Section_set_base_address_def)
qed

text \<open>Everything but the base addresses stays.\<close>

definition rebased :: "Assembler \<Rightarrow> Assembler \<Rightarrow> bool" where
  "rebased s s' \<longleftrightarrow>
     s' = s\<lparr>m_sections := m_sections s'\<rparr> \<and>
     length (m_sections s') = length (m_sections s) \<and>
     (\<forall>n. map_option sec_output (find_section s' n) = map_option sec_output (find_section s n))"

lemma base_loop_places:
  assumes "wf_assembler s" and "distinct idxs" and "set idxs \<subseteq> {..<length (m_sections s)}"
  shows "\<exists>s'. base_loop idxs acc s = Inr ((), s') \<and> wf_assembler s' \<and> rebased s s' \<and>
     map (\<lambda>i. snd (section_by_index s' i)) idxs =
       base_places (options s) acc (map (\<lambda>i. snd (section_by_index s i)) idxs) \<and>
     (\<forall>j < length (m_sections s). j \<notin> set idxs \<longrightarrow> section_by_index s' j = section_by_index s j)"
  using assms
proof (induction idxs arbitrary: s acc)
  case Nil
  then show ?case by (auto simp: rebased_def)
next
  case (Cons i idxs)
  have i: "i < length (m_sections s)" using Cons.prems(3) by simp
  obtain n sec where n: "section_by_index s i = (n, sec)" "find_section s n = Some sec"
      "m_idx sec = i" "section_ok sec" "section_at i s = Inr (n, s)"
    by (rule section_by_index_in [OF Cons.prems(1) i])
  obtain sec' acc' where r: "base_round (options s) acc sec = (sec', acc')"
    by (cases "base_round (options s) acc sec")
  define s1 where "s1 = put_section n sec' s"
  have sec': "section_ok sec'" "m_name sec' = n" "m_idx sec' = m_idx sec"
    using base_round_same [OF r] n(4) wf_section_ok [OF Cons.prems(1) n(2)]
    by (simp_all add: section_ok_def)
  have wf1: "wf_assembler s1" unfolding s1_def by (rule wf_put_section [OF Cons.prems(1) n(2) sec'])
  have len: "length (m_sections s1) = length (m_sections s)"
    unfolding s1_def by (rule length_put_present [OF Cons.prems(1) n(2)])
  have by1: "section_by_index s1 j = (if j = i then (n, sec') else section_by_index s j)"
    if "j < length (m_sections s)" for j
    using section_by_index_put [OF Cons.prems(1) n(2) sec' that] n(3) by (simp add: s1_def)
  have put_eq: "put_section n sec' s = s\<lparr>m_sections := m_sections (put_section n sec' s)\<rparr>"
    by (simp add: put_section_def)
  have re1: "rebased s s1"
    unfolding rebased_def
  proof (intro conjI allI)
    show "s1 = s\<lparr>m_sections := m_sections s1\<rparr>" unfolding s1_def by (rule put_eq)
    show "map_option sec_output (find_section s1 m) = map_option sec_output (find_section s m)" for m
      using n(2) base_round_same(3) [OF r] by (simp add: s1_def find_put_section)
  qed (rule len)
  have step: "base_loop (i # idxs) acc s = base_loop idxs acc' s1"
    by (simp add: bindM_def n(5) the_section_find [OF n(2)] r s1_def)
  obtain s' where s': "base_loop idxs acc' s1 = Inr ((), s')" "wf_assembler s'" "rebased s1 s'"
      "map (\<lambda>i. snd (section_by_index s' i)) idxs =
         base_places (options s1) acc' (map (\<lambda>i. snd (section_by_index s1 i)) idxs)"
      "\<forall>j < length (m_sections s1). j \<notin> set idxs \<longrightarrow> section_by_index s' j = section_by_index s1 j"
    using Cons.IH [OF wf1, of acc'] Cons.prems len by auto
  show ?case
  proof (intro exI [of _ s'] conjI)
    show "base_loop (i # idxs) acc s = Inr ((), s')" using s'(1) step by simp
    show "rebased s s'"
      using re1 s'(3) unfolding rebased_def by (cases s; cases s1; cases s') simp
    have others: "map (\<lambda>j. snd (section_by_index s1 j)) idxs = map (\<lambda>j. snd (section_by_index s j)) idxs"
      using by1 Cons.prems(2,3) by (intro map_cong) auto
    have "section_by_index s' i = (n, sec')"
      using s'(5) Cons.prems(2) by1 [OF i] i len by simp
    then show "map (\<lambda>i. snd (section_by_index s' i)) (i # idxs) =
        base_places (options s) acc (map (\<lambda>i. snd (section_by_index s i)) (i # idxs))"
      using s'(4) [unfolded others] n(1) r by (simp add: s1_def)
    show "\<forall>j < length (m_sections s). j \<notin> set (i # idxs) \<longrightarrow> section_by_index s' j = section_by_index s j"
      using s'(5) by1 len by simp
  qed (rule s'(2))
qed

lemma resolve_base_addresses_places:
  assumes "wf_assembler s"
  obtains s' where "resolve_base_addresses s = Inr ((), s')" and "wf_assembler s'" and "rebased s s'"
    and "sections_in_order s' =
      base_places (options s) (opt_base (options s), False, False) (sections_in_order s)"
proof -
  have "set [0..<length (m_sections s)] \<subseteq> {..<length (m_sections s)}" by auto
  from base_loop_places [OF assms distinct_upt this]
  obtain s' where "base_loop [0..<length (m_sections s)] (opt_base (options s), False, False) s = Inr ((), s')"
    and "wf_assembler s'" "rebased s s'"
    and "map (\<lambda>i. snd (section_by_index s' i)) [0..<length (m_sections s)] =
      base_places (options s) (opt_base (options s), False, False)
        (map (\<lambda>i. snd (section_by_index s i)) [0..<length (m_sections s)])"
    by blast
  then show thesis
    by (intro that [of s']) (simp_all add: resolve_base_addresses_def bindM_def
        sections_in_order_def, simp_all add: rebased_def)
qed

section \<open>Sections stay apart\<close>

lemma unat_mask_less:
  assumes "k < LENGTH('a)"
  shows "unat (mask k :: 'a::len word) = 2 ^ k - 1"
proof -
  have e: "(mask k :: 'a word) = of_nat (2 ^ k - 1)"
    by (simp add: mask_eq_exp_minus_1 of_nat_diff)
  have "(2::nat) ^ k - 1 < 2 ^ LENGTH('a)"
    using power_strict_increasing [OF assms, of "2::nat"] by (simp add: less_imp_diff_less)
  then show ?thesis unfolding e unsigned_of_nat by (simp add: take_bit_nat_eq_self)
qed

lemma unat_round_up:
  fixes w :: u128
  assumes "k < 128" and "unat w + 2 ^ k \<le> 2 ^ 128"
  shows "unat ((w + mask k) AND NOT (mask k)) = align_up (2 ^ k) (unat w)"
proof -
  have "unat (mask k :: u128) = 2 ^ k - 1"
    using assms(1) by (intro unat_mask_less) simp
  moreover have "unat w + (2 ^ k - 1) < 2 ^ 128" using assms(2) by (simp add: less_eq_Suc_le)
  ultimately have "unat (w + mask k) = unat w + (2 ^ k - 1)" by (simp add: unat_word_ariths)
  then show ?thesis by (simp only: unat_clear_low align_up_def)
qed

lemma low_masks: "(0xF :: u128) = mask 4" "(0xFFF :: u128) = mask 12"
  by (simp_all add: mask_eq_exp_minus_1)

text \<open>How far one section of a size moves the base address at most.\<close>

definition base_room :: "Section \<Rightarrow> nat" where
  "base_room sec = length (sec_output sec) + 0x1010"

lemma base_round_size:
  assumes "base_round opt (b, we, wr) sec = (sec', b', we', wr')" and "section_ok sec"
    and "unat (m_base_address sec') + length (sec_output sec) + 16 \<le> 2 ^ 128"
  shows "unat b' = align_up 16 (unat (m_base_address sec') + length (sec_output sec))"
proof -
  have b': "b' = align_16 (m_base_address sec' + ucast (Section_size sec))"
    using assms(1) by (rule base_round_cases(3))
  have "unat (ucast (Section_size sec) :: u128) = length (sec_output sec)"
    using unat_Section_size [OF assms(2)] take_bit_length_unat [of 128 "Section_size sec"]
    by (simp add: unsigned_ucast_eq del: take_bit_length_unat)
  then have "unat (m_base_address sec' + ucast (Section_size sec)) =
      unat (m_base_address sec') + length (sec_output sec)"
    using assms(3) by (simp add: unat_word_ariths)
  then show ?thesis
    using unat_round_up [of 4 "m_base_address sec' + ucast (Section_size sec)"] assms(3)
    unfolding b' align_16_def low_masks by simp
qed

lemma base_round_base:
  assumes "base_round opt (b, we, wr) sec = (sec', b', we', wr')" and "\<not> m_has_base_addr sec"
    and "unat b + 0x1000 \<le> 2 ^ 128" and "16 dvd unat b"
  shows "unat b \<le> unat (m_base_address sec')" and "unat (m_base_address sec') < unat b + 0x1000"
    and "16 dvd unat (m_base_address sec')" and "m_has_base_addr sec'"
proof -
  have "m_base_address sec' = b \<or> m_base_address sec' = page_realign b" "m_has_base_addr sec'"
    using assms(2) base_round_cases(1,2) [OF assms(1)]
    by (auto simp: base_start_def Section_set_base_address_def)
  moreover have "unat (page_realign b) = align_up 0x1000 (unat b)"
    using unat_round_up [of 12 b] assms(3) by (simp add: page_realign_def low_masks)
  moreover have "(16::nat) dvd align_up 0x1000 (unat b)"
    by (rule dvd_trans [OF _ align_up_dvd]) simp
  ultimately show "unat b \<le> unat (m_base_address sec')" "unat (m_base_address sec') < unat b + 0x1000"
      "16 dvd unat (m_base_address sec')" "m_has_base_addr sec'"
    using align_up_ge [of "0x1000" "unat b"] align_up_less [of "0x1000" "unat b"] assms(4) by auto
qed

definition before :: "Section \<Rightarrow> Section \<Rightarrow> bool" where
  "before x y \<longleftrightarrow> unat (m_base_address x) + length (sec_output x) \<le> unat (m_base_address y)"

lemma base_places_ordered:
  assumes "list_all (\<lambda>sec. section_ok sec \<and> \<not> m_has_base_addr sec) secs"
    and "16 dvd unat b" and "unat b + sum_list (map base_room secs) \<le> 2 ^ 128"
  shows "sorted_wrt before (base_places opt (b, we, wr) secs) \<and>
    (\<forall>x \<in> set (base_places opt (b, we, wr) secs).
       unat b \<le> unat (m_base_address x) \<and> 16 dvd unat (m_base_address x) \<and> m_has_base_addr x)"
  using assms
proof (induction secs arbitrary: b we wr)
  case Nil
  then show ?case by simp
next
  case (Cons sec secs)
  obtain sec' b' we' wr' where r: "base_round opt (b, we, wr) sec = (sec', b', we', wr')"
    by (cases "base_round opt (b, we, wr) sec")
  have ok: "section_ok sec" "\<not> m_has_base_addr sec" using Cons.prems(1) by simp_all
  have room: "unat b + 0x1000 \<le> 2 ^ 128"
      "unat b + length (sec_output sec) + 0x1010 + sum_list (map base_room secs) \<le> 2 ^ 128"
    using Cons.prems(3) by (simp_all add: base_room_def [of sec])
  note base = base_round_base [OF r ok(2) room(1) Cons.prems(2)]
  have b': "unat b' = align_up 16 (unat (m_base_address sec') + length (sec_output sec))"
    using base(2) room(2) by (intro base_round_size [OF r ok(1)]) simp
  have le: "unat (m_base_address sec') + length (sec_output sec) \<le> unat b'"
      "unat b' < unat (m_base_address sec') + length (sec_output sec) + 16"
    unfolding b' by (simp_all add: align_up_ge align_up_less)
  have "16 dvd unat b'" unfolding b' by (rule align_up_dvd)
  moreover have "unat b' + sum_list (map base_room secs) \<le> 2 ^ 128"
    using le(2) base(2) room(2) by simp
  ultimately have IH: "sorted_wrt before (base_places opt (b', we', wr') secs)"
      "\<forall>x \<in> set (base_places opt (b', we', wr') secs).
         unat b' \<le> unat (m_base_address x) \<and> 16 dvd unat (m_base_address x) \<and> m_has_base_addr x"
    using Cons.IH Cons.prems(1) by simp_all
  have "before sec' x" if "x \<in> set (base_places opt (b', we', wr') secs)" for x
    using IH(2) that le(1) base_round_same(3) [OF r] by (fastforce simp: before_def)
  moreover have "unat b \<le> unat (m_base_address x)" if "x \<in> set (base_places opt (b', we', wr') secs)" for x
    using IH(2) that le(1) base(1) by fastforce
  ultimately show ?case using IH base r by auto
qed

end
