(* ===== verification/AssembleFacts.thy ===== *)
theory AssembleFacts
  imports BaseAddresses
begin

text \<open>
  What one step of the assembly does to the current section, its labels and the schedule,
  and what holds of a state after \<^verbatim>\<open>finish\<close>.
\<close>

section \<open>Attaching labels\<close>

text \<open>The table after labels are added at a place: the first definition of a name stays.\<close>

fun add_labels :: "SymbolLocation \<Rightarrow> string list \<Rightarrow> (string \<times> SymbolLocation) list \<Rightarrow> (string \<times> SymbolLocation) list" where
  "add_labels loc [] l = l"
| "add_labels loc (n # ns) l =
     add_labels loc ns (case map_of l n of Some _ \<Rightarrow> l | None \<Rightarrow> l @ [(n, loc)])"

lemma map_of_add_labels:
  "map_of (add_labels loc ns l) m =
     (case map_of l m of Some x \<Rightarrow> Some x | None \<Rightarrow> if m \<in> set ns then Some loc else None)"
  by (induction ns arbitrary: l) (auto simp: map_add_def split: option.splits)

lemma current_location_lookup [simp]: "current_location (s\<lparr>m_lookup := l\<rparr>) = current_location s"
  by (simp add: current_location_def current_section_def the_section_def find_section_def)

lemma add_symbol_here_run:
  "add_symbol_here n s = Inr ((), s\<lparr>m_lookup := add_labels (current_location s) [n] (m_lookup s)\<rparr>)"
  by (cases "map_of (m_lookup s) n") (simp_all add: add_symbol_here_def find_symbol_def)

lemma add_labels_append: "add_labels loc (ms @ ns) l = add_labels loc ns (add_labels loc ms l)"
  by (induction ms arbitrary: l) simp_all

lemma attach_run:
  "forM ns add_symbol_here s = Inr ((), s\<lparr>m_lookup := add_labels (current_location s) ns (m_lookup s)\<rparr>)"
proof (induction ns arbitrary: s)
  case Nil
  then show ?case by simp
next
  case (Cons n ns)
  then show ?case
    using add_labels_append [of "current_location s" "[n]" ns "m_lookup s"]
    by (simp only: forM.simps bindM_def add_symbol_here_run sum.case prod.case
        current_location_lookup append_Cons append_Nil) simp
qed

lemma Section_align_power2_Inr:
  assumes "section_ok sec" and "k < 64" and "Section_align (2 ^ k) sec = Inr sec'"
  shows "sec' = sec\<lparr>sec_output := sec_output sec
           @ replicate (align_up (2 ^ k) (length (sec_output sec)) - length (sec_output sec)) 0\<rparr>"
proof -
  let ?n = "align_up (2 ^ k) (length (sec_output sec))"
  have "?n \<le> vector_max_size"
  proof (rule ccontr)
    assume big: "\<not> ?n \<le> vector_max_size"
    have "length (sec_output sec) \<noteq> ?n" using big assms(1) by (auto simp: section_ok_def)
    then have "unat (Section_size sec) \<noteq> unat ((Section_size sec + (2 ^ k - 1)) AND NOT (2 ^ k - 1))"
      by (simp only: align_newsize [OF assms(1,2)] unat_Section_size [OF assms(1)] not_False_eq_True)
    then have "Section_size sec \<noteq> (Section_size sec + (2 ^ k - 1)) AND NOT (2 ^ k - 1)" by metis
    with assms(3) obtain out where "vector_resize ?n (sec_output sec) = Inr out"
      by (auto simp: Section_align_def Let_def bindR_Inr_iff align_newsize [OF assms(1,2)])
    with big show False by (simp add: vector_resize_def)
  qed
  from Section_align_power2 [OF assms(1,2) this] assms(3) show ?thesis by simp
qed

definition padding :: "nat \<Rightarrow> Assembler \<Rightarrow> nat" where
  "padding a s = align_up a (length (sec_output (current_section s))) - length (sec_output (current_section s))"

text \<open>
  \<^verbatim>\<open>align_with_labels\<close> by a power of two: the section is padded with zeros, and the
  waiting labels that are new get the place after the padding.
\<close>

definition here :: "Assembler \<Rightarrow> nat \<Rightarrow> SymbolLocation" where
  "here s n = SymbolLocation_new (m_current_section s) (of_nat n)"

lemma align_with_labels_run:
  assumes wf: "wf_assembler s" and k: "(1::u64) < 2 ^ k" "k < 64"
    and run: "align_with_labels (2 ^ k) s = Inr (a, s')"
  shows "s' = (put_section (m_current_section s) ((current_section s)\<lparr>
        sec_output := sec_output (current_section s) @ replicate (padding (2 ^ k) s) 0,
        m_label_queue := []\<rparr>) s)\<lparr>m_lookup := add_labels
          (here s (length (sec_output (current_section s)) + padding (2 ^ k) s))
          (m_label_queue (current_section s)) (m_lookup s)\<rparr>"
proof -
  obtain sec where sec: "find_section s (m_current_section s) = Some sec" "current_section s = sec"
      "section_ok sec" "m_name sec = m_current_section s"
    using wf by (rule wf_current)
  let ?n = "m_current_section s"
  obtain sec1 where sec1: "Section_align (2 ^ k) sec = Inr sec1"
    using run k(1) sec(2)
    by (auto simp: align_with_labels_def Section_align_with_labels_def bindM_Inr_iff
        current_section_def liftR_def split: sum.splits)
  have eq: "sec1 = sec\<lparr>sec_output := sec_output sec @ replicate (padding (2 ^ k) s) 0\<rparr>"
    using Section_align_power2_Inr [OF sec(3) k(2) sec1] sec(2) by (simp add: padding_def)
  let ?s1 = "put_section ?n sec1 s"
  have "s' = put_section ?n (sec1\<lparr>m_label_queue := []\<rparr>)
      (?s1\<lparr>m_lookup := add_labels (current_location ?s1) (m_label_queue sec) (m_lookup s)\<rparr>)"
    using run k(1) sec1 sec(2)
    by (simp add: align_with_labels_def Section_align_with_labels_def bindM_def
        current_section_def [symmetric] eq attach_run) (simp add: the_section_def find_section_def put_section_def om_find_put)
  moreover have "current_location ?s1 = here s (length (sec_output sec) + padding (2 ^ k) s)"
    by (simp add: current_location_def current_section_def here_def Section_size_def eq)
  ultimately show ?thesis
    by (simp add: sec(2) eq put_section_def om_put_put)
qed

section \<open>Emitting instructions\<close>

definition cur_bytes :: "Assembler \<Rightarrow> u8 list" where
  "cur_bytes s = sec_output (current_section s)"

text \<open>Output grows at the end of the current section and nothing else of the tables changes.\<close>

definition appends :: "u8 list \<Rightarrow> Assembler \<Rightarrow> Assembler \<Rightarrow> bool" where
  "appends bs s s' \<longleftrightarrow>
     cur_bytes s' = cur_bytes s @ bs \<and> m_current_section s' = m_current_section s \<and>
     m_lookup s' = m_lookup s \<and> m_schedule s' = m_schedule s \<and>
     m_label_queue (current_section s') = m_label_queue (current_section s) \<and>
     (\<forall>n. n \<noteq> m_current_section s \<longrightarrow> find_section s' n = find_section s n)"

lemma appends_nil: "appends [] s s"
  by (simp add: appends_def)

lemma appends_trans: "appends bs s t \<Longrightarrow> appends cs t u \<Longrightarrow> appends (bs @ cs) s u"
  by (simp add: appends_def)

lemma add_output_appends:
  "add_output ot bytes s = Inr (a, s') \<Longrightarrow> appends bytes s s'"
  unfolding add_output_def on_current_run
  by (auto simp: appends_def cur_bytes_def current_section_def find_put_section
      Section_add_output_def bindR_Inr_iff vector_append_def split: sum.splits if_splits)

lemma emit_instr_appends:
  "is_long w \<Longrightarrow> emit_instr w s = Inr (a, s') \<Longrightarrow> appends (instr_raw w) s s'"
  unfolding emit_instr_def
  by (drule add_output_appends) (simp add: instr_length_def instr_raw_def)

lemma emit_all_appends:
  "\<forall>w \<in> set il. is_long w \<Longrightarrow> forM il emit_instr s = Inr (a, s') \<Longrightarrow>
   appends (concat (map instr_raw il)) s s'"
proof (induction il arbitrary: s)
  case Nil
  then show ?case by (simp add: appends_nil)
next
  case (Cons w il)
  then obtain s1 where "emit_instr w s = Inr ((), s1)" "forM il emit_instr s1 = Inr (a, s')"
    by (auto simp: bindM_Inr_iff)
  with Cons have "appends (instr_raw w) s s1" "appends (concat (map instr_raw il)) s1 s'"
    by (simp_all add: emit_instr_appends)
  then show ?case by (auto intro: appends_trans)
qed

lemma length_concat_raw [simp]: "length (concat (map instr_raw il)) = 4 * length il"
  by (induction il) (simp_all add: instr_raw_def)

section \<open>One instruction\<close>

text \<open>
  An opcode token pads the current section to a multiple of four, gives that place to the
  waiting labels, and puts whole instructions there; what it schedules is to be patched
  inside of them.
\<close>

definition opcode_place :: "Assembler \<Rightarrow> nat" where
  "opcode_place s = length (cur_bytes s) + padding 4 s"

lemma opcode_place_aligned: "4 dvd opcode_place s" "length (cur_bytes s) \<le> opcode_place s"
    "opcode_place s < length (cur_bytes s) + 4"
proof -
  have "opcode_place s = align_up 4 (length (cur_bytes s))"
    using align_up_ge [of 4 "length (cur_bytes s)"]
    by (simp add: opcode_place_def padding_def cur_bytes_def)
  then show "4 dvd opcode_place s" "length (cur_bytes s) \<le> opcode_place s"
      "opcode_place s < length (cur_bytes s) + 4"
    by (simp_all add: align_up_dvd align_up_ge align_up_less)
qed

definition opcode_step :: "Opcode \<Rightarrow> InstructionList \<Rightarrow> Assembler \<Rightarrow> Assembler \<Rightarrow> bool" where
  "opcode_step opc il s s' \<longleftrightarrow>
     cur_bytes s' = cur_bytes s @ replicate (padding 4 s) 0 @ concat (map instr_raw il) \<and>
     m_current_section s' = m_current_section s \<and>
     m_lookup s' = add_labels (here s (opcode_place s)) (m_label_queue (current_section s)) (m_lookup s) \<and>
     m_label_queue (current_section s') = [] \<and>
     (\<forall>n. n \<noteq> m_current_section s \<longrightarrow> find_section s' n = find_section s n) \<and>
     (\<forall>n. \<exists>new. ops_for s' n = ops_for s n @ new \<and>
        (\<forall>opn \<in> set new. op_place opn = Some (here s (opcode_place s)) \<and> op_span opn \<le> 4 * length il))"

lemma assemble_opcode_step:
  assumes wf: "wf_assembler s" and tpl: "template_ok opc"
    and run: "assemble_opcode opc s = Inr (a, s')"
  obtains il where "code_words (handler_words opc) il" and "opcode_step opc il s s'"
proof -
  obtain s1 il s2 where al: "align_with_labels (2 ^ 2) s = Inr ((), s1)"
    and h: "opcode_handler opc s1 = Inr (il, s2)" and em: "forM il emit_instr s2 = Inr (a, s')"
    using run by (auto simp: assemble_opcode_def bindM_Inr_iff)
  note s1 = align_with_labels_run [OF wf _ _ al, simplified]
  have plan: "plans (4 * handler_words opc) s1 s2" using opcode_handler_plans h by (rule keepsD)
  have words: "code_words (handler_words opc) il" using opcode_handler_words [OF tpl] h by (rule yieldsD)
  have app: "appends (concat (map instr_raw il)) s2 s'"
    using emit_all_appends em words by (simp add: code_words_def)
  have cur1: "m_current_section s1 = m_current_section s" "cur_bytes s1 = cur_bytes s @ replicate (padding 4 s) 0"
      "m_label_queue (current_section s1) = []" "m_schedule s1 = m_schedule s"
      "m_lookup s1 = add_labels (here s (opcode_place s)) (m_label_queue (current_section s)) (m_lookup s)"
    and other1: "\<And>n. n \<noteq> m_current_section s \<Longrightarrow> find_section s1 n = find_section s n"
    by (simp_all add: s1 cur_bytes_def current_section_def the_section_def find_section_def
        put_section_def om_find_put opcode_place_def)
  have loc1: "current_location s1 = here s (opcode_place s)"
    by (simp add: current_location_def here_def Section_size_def cur1(1) opcode_place_def
        cur1(2) [unfolded cur_bytes_def] cur_bytes_def)
  have cur2: "current_section s2 = current_section s1" "\<And>n. find_section s2 n = find_section s1 n"
    using plan by (simp_all add: plans_def current_section_def the_section_def find_section_def)
  have "\<exists>new. ops_for s' n = ops_for s n @ new \<and>
        (\<forall>opn \<in> set new. op_place opn = Some (here s (opcode_place s)) \<and> op_span opn \<le> 4 * length il)" for n
  proof -
    obtain new where "ops_for s2 n = ops_for s1 n @ new"
        "\<forall>opn \<in> set new. op_place opn = Some (current_location s1) \<and> op_span opn \<le> 4 * handler_words opc"
      using plan unfolding plans_def by blast
    moreover have "ops_for s' n = ops_for s2 n" using app by (simp add: appends_def ops_for_def)
    moreover have "ops_for s1 n = ops_for s n" by (simp add: ops_for_def cur1(4))
    ultimately show ?thesis
      using words loc1 by (intro exI [of _ new]) (auto simp: code_words_def intro: order_trans)
  qed
  then have "opcode_step opc il s s'"
    using app plan cur1 other1 cur2
    by (simp add: opcode_step_def appends_def plans_def cur_bytes_def)
  with words that show thesis by blast
qed

end
