(* ===== verification/ElfLayout.thy ===== *)
theory ElfLayout
  imports Sections
begin

text \<open>
  \<^verbatim>\<open>elf128.h\<close>, and the 64-bit structures of the system's \<^verbatim>\<open>elf.h\<close> that have the same
  members: the file header, the section and program headers and the symbols, as records,
  and their bytes as the ABI lays out a structure. The two classes differ in the width of
  addresses, offsets and sizes only.
\<close>

section \<open>The classes\<close>

datatype ElfClass = ELFCLASS64 | ELFCLASS128

fun class_byte :: "ElfClass \<Rightarrow> u8" where
  "class_byte ELFCLASS64 = 2"
| "class_byte ELFCLASS128 = 3"

text \<open>The width and alignment of \<^verbatim>\<open>Elf_Addr\<close>, \<^verbatim>\<open>Elf_Off\<close> and \<^verbatim>\<open>Elf_Xword\<close>.\<close>

fun addr_bytes :: "ElfClass \<Rightarrow> nat" where
  "addr_bytes ELFCLASS64 = 8"
| "addr_bytes ELFCLASS128 = 16"

section \<open>The structures\<close>

text \<open>
  Members of the width of an address are 128-bit numbers here; the bytes written are the
  low ones of the width of the class, as after an assignment to the narrower member.
\<close>

record Elf_Ehdr =
  e_ident :: "u8 list"
  e_type :: u16
  e_machine :: u16
  e_version :: u32
  e_entry :: u128
  e_phoff :: u128
  e_shoff :: u128
  e_flags :: u32
  e_ehsize :: u16
  e_phentsize :: u16
  e_phnum :: u16
  e_shentsize :: u16
  e_shnum :: u16
  e_shstrndx :: u16

record Elf_Shdr =
  sh_name :: u32
  sh_type :: u32
  sh_flags :: u128
  sh_addr :: u128
  sh_offset :: u128
  sh_size :: u128
  sh_link :: u32
  sh_info :: u32
  sh_addralign :: u128
  sh_entsize :: u128

record Elf_Phdr =
  p_type :: u32
  p_flags :: u32
  p_offset :: u128
  p_vaddr :: u128
  p_paddr :: u128
  p_filesz :: u128
  p_memsz :: u128
  p_align :: u128

record Elf_Sym =
  st_name :: u32
  st_info :: u8
  st_other :: u8
  st_shndx :: u16
  st_value :: u128
  st_size :: u128

definition Elf_Shdr_zero :: Elf_Shdr where
  "Elf_Shdr_zero = \<lparr>sh_name = 0, sh_type = 0, sh_flags = 0, sh_addr = 0, sh_offset = 0,
     sh_size = 0, sh_link = 0, sh_info = 0, sh_addralign = 0, sh_entsize = 0\<rparr>"

definition Elf_Phdr_zero :: Elf_Phdr where
  "Elf_Phdr_zero = \<lparr>p_type = 0, p_flags = 0, p_offset = 0, p_vaddr = 0, p_paddr = 0,
     p_filesz = 0, p_memsz = 0, p_align = 0\<rparr>"

definition Elf_Sym_zero :: Elf_Sym where
  "Elf_Sym_zero = \<lparr>st_name = 0, st_info = 0, st_other = 0, st_shndx = 0, st_value = 0, st_size = 0\<rparr>"

section \<open>Members in memory\<close>

text \<open>
  A member of \<open>w\<close> bytes is aligned to \<open>w\<close>; the structure is padded at its end to the
  alignment of its widest member. Padding is zero.
\<close>

fun struct_layout :: "nat \<Rightarrow> (nat \<times> u128) list \<Rightarrow> u8 list" where
  "struct_layout off [] = []"
| "struct_layout off ((w, v) # fs) =
     replicate (align_up w off - off) 0 @ le_bytes w v @ struct_layout (align_up w off + w) fs"

definition struct_bytes :: "nat \<Rightarrow> (nat \<times> u128) list \<Rightarrow> u8 list" where
  "struct_bytes a fs =
     (let bs = struct_layout 0 fs in bs @ replicate (align_up a (length bs) - length bs) 0)"

definition ehdr_fields :: "ElfClass \<Rightarrow> Elf_Ehdr \<Rightarrow> (nat \<times> u128) list" where
  "ehdr_fields cls h = map (\<lambda>b. (1, ucast b)) (e_ident h) @
     [(2, ucast (e_type h)), (2, ucast (e_machine h)), (4, ucast (e_version h)),
      (addr_bytes cls, e_entry h), (addr_bytes cls, e_phoff h), (addr_bytes cls, e_shoff h),
      (4, ucast (e_flags h)), (2, ucast (e_ehsize h)), (2, ucast (e_phentsize h)),
      (2, ucast (e_phnum h)), (2, ucast (e_shentsize h)), (2, ucast (e_shnum h)),
      (2, ucast (e_shstrndx h))]"

definition shdr_fields :: "ElfClass \<Rightarrow> Elf_Shdr \<Rightarrow> (nat \<times> u128) list" where
  "shdr_fields cls h =
     [(4, ucast (sh_name h)), (4, ucast (sh_type h)), (addr_bytes cls, sh_flags h),
      (addr_bytes cls, sh_addr h), (addr_bytes cls, sh_offset h), (addr_bytes cls, sh_size h),
      (4, ucast (sh_link h)), (4, ucast (sh_info h)), (addr_bytes cls, sh_addralign h),
      (addr_bytes cls, sh_entsize h)]"

definition phdr_fields :: "ElfClass \<Rightarrow> Elf_Phdr \<Rightarrow> (nat \<times> u128) list" where
  "phdr_fields cls h =
     [(4, ucast (p_type h)), (4, ucast (p_flags h)), (addr_bytes cls, p_offset h),
      (addr_bytes cls, p_vaddr h), (addr_bytes cls, p_paddr h), (addr_bytes cls, p_filesz h),
      (addr_bytes cls, p_memsz h), (addr_bytes cls, p_align h)]"

definition sym_fields :: "ElfClass \<Rightarrow> Elf_Sym \<Rightarrow> (nat \<times> u128) list" where
  "sym_fields cls y =
     [(4, ucast (st_name y)), (1, ucast (st_info y)), (1, ucast (st_other y)),
      (2, ucast (st_shndx y)), (addr_bytes cls, st_value y), (addr_bytes cls, st_size y)]"

definition ehdr_bytes :: "ElfClass \<Rightarrow> Elf_Ehdr \<Rightarrow> u8 list" where
  "ehdr_bytes cls h = struct_bytes (addr_bytes cls) (ehdr_fields cls h)"
definition shdr_bytes :: "ElfClass \<Rightarrow> Elf_Shdr \<Rightarrow> u8 list" where
  "shdr_bytes cls h = struct_bytes (addr_bytes cls) (shdr_fields cls h)"
definition phdr_bytes :: "ElfClass \<Rightarrow> Elf_Phdr \<Rightarrow> u8 list" where
  "phdr_bytes cls h = struct_bytes (addr_bytes cls) (phdr_fields cls h)"
definition sym_bytes :: "ElfClass \<Rightarrow> Elf_Sym \<Rightarrow> u8 list" where
  "sym_bytes cls y = struct_bytes (addr_bytes cls) (sym_fields cls y)"

text \<open>\<^verbatim>\<open>sizeof\<close> of the structures.\<close>

fun sizeof_Ehdr :: "ElfClass \<Rightarrow> nat" where
  "sizeof_Ehdr ELFCLASS64 = 64" | "sizeof_Ehdr ELFCLASS128 = 96"
fun sizeof_Shdr :: "ElfClass \<Rightarrow> nat" where
  "sizeof_Shdr ELFCLASS64 = 64" | "sizeof_Shdr ELFCLASS128 = 128"
fun sizeof_Phdr :: "ElfClass \<Rightarrow> nat" where
  "sizeof_Phdr ELFCLASS64 = 56" | "sizeof_Phdr ELFCLASS128 = 112"
fun sizeof_Sym :: "ElfClass \<Rightarrow> nat" where
  "sizeof_Sym ELFCLASS64 = 24" | "sizeof_Sym ELFCLASS128 = 48"

section \<open>Reading a structure\<close>

text \<open>The members of a structure with the given widths, from the bytes in front.\<close>

fun read_members :: "nat \<Rightarrow> nat list \<Rightarrow> u8 list \<Rightarrow> u128 list" where
  "read_members off [] bs = []"
| "read_members off (w # ws) bs =
     (let pad = align_up w off - off
      in le_value (take w (drop pad bs)) # read_members (align_up w off + w) ws (drop (pad + w) bs))"

lemma read_members_layout:
  "read_members off (map fst fs) (struct_layout off fs @ rest) = map (\<lambda>(w, v). take_bit (8 * w) v) fs"
  by (induction off fs rule: struct_layout.induct) (auto simp: Let_def le_value_le_bytes)

lemma read_struct:
  "read_members 0 (map fst fs) (struct_bytes a fs @ rest) = map (\<lambda>(w, v). take_bit (8 * w) v) fs"
  by (simp add: struct_bytes_def Let_def read_members_layout)

text \<open>Where the layout of widths ends.\<close>

fun layout_end :: "nat \<Rightarrow> nat list \<Rightarrow> nat" where
  "layout_end off [] = off"
| "layout_end off (w # ws) = layout_end (align_up w off + w) ws"

lemma length_struct_layout:
  "\<forall>w \<in> set (map fst fs). 0 < w \<Longrightarrow> off + length (struct_layout off fs) = layout_end off (map fst fs)"
proof (induction off fs rule: struct_layout.induct)
  case (2 off w v fs)
  have "off \<le> align_up w off" using 2(2) by (intro align_up_ge) simp
  moreover have "align_up w off + w + length (struct_layout (align_up w off + w) fs) =
      layout_end (align_up w off + w) (map fst fs)" using 2 by simp
  ultimately show ?case by simp
qed simp

lemma length_struct_bytes:
  assumes "\<forall>w \<in> set (map fst fs). 0 < w" and "0 < a"
  shows "length (struct_bytes a fs) = align_up a (layout_end 0 (map fst fs))"
  using length_struct_layout [OF assms(1), of 0] align_up_ge [OF assms(2), of "length (struct_layout 0 fs)"]
  by (simp add: struct_bytes_def Let_def)

lemma addr_bytes_pos [simp]: "0 < addr_bytes cls"
  by (cases cls) simp_all

lemma layout_end_append: "layout_end off (xs @ ys) = layout_end (layout_end off xs) ys"
  by (induction xs arbitrary: off) simp_all

lemma layout_end_bytes: "layout_end off (replicate n (Suc 0)) = off + n"
  by (induction n arbitrary: off) (simp_all add: align_up_def)

lemma length_ehdr_bytes [simp]:
  assumes "length (e_ident h) = 16"
  shows "length (ehdr_bytes cls h) = sizeof_Ehdr cls"
proof -
  have "map fst (map (\<lambda>b. (1 :: nat, ucast b :: u128)) (e_ident h)) = replicate 16 1"
    using assms by (simp add: map_replicate_const comp_def)
  then have "map fst (ehdr_fields cls h) = replicate 16 1 @
      [2, 2, 4, addr_bytes cls, addr_bytes cls, addr_bytes cls, 4, 2, 2, 2, 2, 2, 2]"
    unfolding ehdr_fields_def map_append by (simp only: list.map fst_conv)
  then show ?thesis
    by (cases cls)
      (auto simp: ehdr_bytes_def length_struct_bytes layout_end_append layout_end_bytes align_up_def)
qed

lemma length_elf_structs [simp]:
  "length (shdr_bytes cls sh) = sizeof_Shdr cls"
  "length (phdr_bytes cls ph) = sizeof_Phdr cls"
  "length (sym_bytes cls y) = sizeof_Sym cls"
  by (cases cls; simp add: shdr_bytes_def phdr_bytes_def sym_bytes_def shdr_fields_def
      phdr_fields_def sym_fields_def length_struct_bytes align_up_def)+

end
