(* ===== verification/ElfWriter.thy ===== *)
theory ElfWriter
  imports ElfLayout AssemblerState
begin

text \<open>
  \<^verbatim>\<open>elfwriter.cpp\<close>, compiled once for each ELF class: the headers, the string tables, the
  symbols and the section contents of a finished assembler, in one buffer. The writer
  keeps pointers to the headers at the front of the buffer while it appends to it; they
  are valid as long as the buffer stays within its reserved capacity.
\<close>

section \<open>Constants of elf.h\<close>

definition SHT_SYMTAB :: u32 where "SHT_SYMTAB = 2"
definition SHT_STRTAB :: u32 where "SHT_STRTAB = 3"
definition ET_EXEC :: u16 where "ET_EXEC = 2"
definition EM_RISCV :: u16 where "EM_RISCV = 243"
definition EV_CURRENT :: u32 where "EV_CURRENT = 1"
definition ELFDATA2LSB :: u8 where "ELFDATA2LSB = 1"
definition ELFOSABI_STANDALONE :: u8 where "ELFOSABI_STANDALONE = 255"
definition SHN_UNDEF :: u16 where "SHN_UNDEF = 0"
definition STV_DEFAULT :: u8 where "STV_DEFAULT = 0"
definition PT_LOAD :: u32 where "PT_LOAD = 1"
definition PF_X :: u32 where "PF_X = 1"
definition PF_W :: u32 where "PF_W = 2"
definition PF_R :: u32 where "PF_R = 4"

section \<open>The buffer\<close>

text \<open>
  \<^verbatim>\<open>ElfData\<close> at the front of the buffer, the program headers behind it, and the bytes
  appended so far; \<open>elf_moved\<close> says that appending has moved the buffer, after which an
  access through the old pointers is undefined.
\<close>

record ElfFile =
  elf_hdr :: Elf_Ehdr
  elf_shdr :: "Elf_Shdr list"
  elf_phdr :: "Elf_Phdr list"
  elf_body :: "u8 list"
  elf_moved :: bool

text \<open>The number of section headers behind the empty one, and the size of \<^verbatim>\<open>ElfData\<close>.\<close>

definition ElfData_S :: nat where "ElfData_S = 3"

definition sizeof_ElfData :: "ElfClass \<Rightarrow> nat" where
  "sizeof_ElfData cls = sizeof_Ehdr cls + (1 + ElfData_S) * sizeof_Shdr cls"

definition elfhdr_size :: "ElfClass \<Rightarrow> ElfFile \<Rightarrow> nat" where
  "elfhdr_size cls f = sizeof_ElfData cls + sizeof_Phdr cls * length (elf_phdr f)"

definition elfbin_size :: "ElfClass \<Rightarrow> ElfFile \<Rightarrow> int" where
  "elfbin_size cls f = int (elfhdr_size cls f + length (elf_body f))"

text \<open>\<^verbatim>\<open>reserve\<close>, and the growth of the first \<^verbatim>\<open>resize\<close> when there are very many sections.\<close>

definition elfbin_capacity :: "ElfClass \<Rightarrow> ElfFile \<Rightarrow> int" where
  "elfbin_capacity cls f = max 262144 (int (elfhdr_size cls f))"

definition elfbin_insert :: "ElfClass \<Rightarrow> u8 list \<Rightarrow> ElfFile \<Rightarrow> ElfFile" where
  "elfbin_insert cls bs f =
     (let f' = f\<lparr>elf_body := elf_body f @ bs\<rparr>
      in f'\<lparr>elf_moved := elf_moved f \<or> elfbin_size cls f' > elfbin_capacity cls f\<rparr>)"

definition with_header :: "(ElfFile \<Rightarrow> ElfFile) \<Rightarrow> ElfFile \<Rightarrow> ElfFile result" where
  "with_header g f =
     (if elf_moved f then Inl (Undefined ''header of a buffer that has moved'') else Inr (g f))"

definition with_shdr :: "nat \<Rightarrow> (Elf_Shdr \<Rightarrow> Elf_Shdr) \<Rightarrow> ElfFile \<Rightarrow> ElfFile result" where
  "with_shdr i g = with_header (\<lambda>f. f\<lparr>elf_shdr := (elf_shdr f)[i := g (elf_shdr f ! i)]\<rparr>)"

definition with_phdr :: "nat \<Rightarrow> (Elf_Phdr \<Rightarrow> Elf_Phdr) \<Rightarrow> ElfFile \<Rightarrow> ElfFile result" where
  "with_phdr i g = with_header (\<lambda>f. f\<lparr>elf_phdr := (elf_phdr f)[i := g (elf_phdr f ! i)]\<rparr>)"

text \<open>What \<^verbatim>\<open>file_writer\<close> is given.\<close>

definition elfbin :: "ElfClass \<Rightarrow> ElfFile \<Rightarrow> u8 list" where
  "elfbin cls f = ehdr_bytes cls (elf_hdr f) @ concat (map (shdr_bytes cls) (elf_shdr f)) @
     concat (map (phdr_bytes cls) (elf_phdr f)) @ elf_body f"

section \<open>String tables\<close>

record ElfStringSection =
  str_namelist :: "(string \<times> nat) list"
  str_shindex :: nat
  str_offset :: nat

definition append_null :: "ElfClass \<Rightarrow> ElfStringSection \<times> ElfFile \<Rightarrow> (ElfStringSection \<times> ElfFile) result" where
  "append_null cls = (\<lambda>(ss, f).
     bindR (with_shdr (str_shindex ss) (\<lambda>sh. sh\<lparr>sh_size := sh_size sh + 1\<rparr>) (elfbin_insert cls [0] f))
       (\<lambda>f. Inr (ss\<lparr>str_offset := str_offset ss + 1\<rparr>, f)))"

definition ElfStringSection_new :: "ElfClass \<Rightarrow> nat \<Rightarrow> ElfFile \<Rightarrow> (ElfStringSection \<times> ElfFile) result" where
  "ElfStringSection_new cls idx f =
     bindR (with_shdr idx (\<lambda>sh. sh\<lparr>sh_name := 0, sh_type := SHT_STRTAB, sh_flags := 0,
         sh_entsize := 1, sh_offset := word_of_int (elfbin_size cls f), sh_size := 0,
         sh_addralign := 1, sh_info := 0, sh_link := 0\<rparr>) f) (\<lambda>f.
       append_null cls (\<lparr>str_namelist = [], str_shindex = idx, str_offset = 0\<rparr>, f))"

definition str_add :: "ElfClass \<Rightarrow> string \<Rightarrow> ElfStringSection \<times> ElfFile \<Rightarrow> (ElfStringSection \<times> ElfFile) result" where
  "str_add cls str = (\<lambda>(ss, f).
     bindR (with_shdr (str_shindex ss) (\<lambda>sh. sh\<lparr>sh_size := sh_size sh + of_nat (length str + 1)\<rparr>)
         (elfbin_insert cls (map char_byte str @ [0]) f)) (\<lambda>f.
       Inr (ss\<lparr>str_namelist := om_put str (str_offset ss) (str_namelist ss),
               str_offset := str_offset ss + (length str + 1)\<rparr>, f)))"

definition str_lookup :: "string \<Rightarrow> ElfStringSection \<Rightarrow> nat result" where
  "str_lookup str ss =
     (case om_find (str_namelist ss) str of Some off \<Rightarrow> Inr off | None \<Rightarrow> Inl OutOfRange)"

text \<open>Every string of a list, in order.\<close>

fun str_add_all :: "ElfClass \<Rightarrow> string list \<Rightarrow> ElfStringSection \<times> ElfFile \<Rightarrow> (ElfStringSection \<times> ElfFile) result" where
  "str_add_all cls [] st = Inr st"
| "str_add_all cls (n # ns) st = bindR (str_add cls n st) (str_add_all cls ns)"

section \<open>Symbols\<close>

definition add_sym :: "ElfClass \<Rightarrow> nat \<Rightarrow> Elf_Sym \<Rightarrow> ElfFile \<Rightarrow> ElfFile result" where
  "add_sym cls idx y f =
     with_shdr idx (\<lambda>sh. sh\<lparr>sh_size := sh_size sh + of_nat (sizeof_Sym cls), sh_info := sh_info sh + 1\<rparr>)
       (elfbin_insert cls (sym_bytes cls y) f)"

definition ElfSymSection_new :: "ElfClass \<Rightarrow> nat \<Rightarrow> nat \<Rightarrow> ElfFile \<Rightarrow> ElfFile result" where
  "ElfSymSection_new cls idx strindex f =
     bindR (with_shdr idx (\<lambda>sh. sh\<lparr>sh_type := SHT_SYMTAB, sh_flags := 0,
         sh_entsize := of_nat (sizeof_Sym cls), sh_offset := word_of_int (elfbin_size cls f),
         sh_size := 0, sh_info := 0, sh_addralign := of_nat (addr_bytes cls),
         sh_link := of_nat strindex\<rparr>) f)
       (add_sym cls idx Elf_Sym_zero)"

definition sym_entry :: "nat \<Rightarrow> u128 \<Rightarrow> u32 \<Rightarrow> u64 \<Rightarrow> Elf_Sym" where
  "sym_entry off addr info sz =
     Elf_Sym_zero\<lparr>st_name := of_nat off, st_shndx := SHN_UNDEF, st_info := ucast info,
       st_other := STV_DEFAULT, st_value := addr, st_size := ucast sz\<rparr>"

definition sym_add :: "ElfClass \<Rightarrow> nat \<Rightarrow> string \<Rightarrow> u128 \<Rightarrow> u32 \<Rightarrow> u64 \<Rightarrow> ElfStringSection \<Rightarrow> ElfFile \<Rightarrow> ElfFile result" where
  "sym_add cls idx name addr info sz ss f =
     bindR (str_lookup name ss) (\<lambda>off. add_sym cls idx (sym_entry off addr info sz) f)"

fun sym_add_all :: "ElfClass \<Rightarrow> Assembler \<Rightarrow> ElfStringSection \<Rightarrow> (string \<times> SymbolLocation) list \<Rightarrow> ElfFile \<Rightarrow> ElfFile result" where
  "sym_add_all cls s ss [] f = Inr f"
| "sym_add_all cls s ss ((name, loc) # rest) f =
     bindR (sym_add cls 2 name (location_address s loc) (loc_type loc) (loc_size loc) ss f)
       (sym_add_all cls s ss rest)"

section \<open>Sections\<close>

definition loadable :: "Section \<Rightarrow> bool" where
  "loadable sec \<longleftrightarrow> sec_code sec \<or> sec_data sec"

definition program_flags :: "Section \<Rightarrow> u32" where
  "program_flags sec =
     (if sec_code sec then PF_X else 0) OR
     (if (\<not> sec_code sec \<or> \<not> sec_execonly sec) \<and> (sec_data sec \<or> sec_resv sec)
      then PF_R OR (if \<not> sec_readonly sec then PF_W else 0) else 0)"

definition program_header :: "Section \<Rightarrow> int \<Rightarrow> Elf_Phdr \<Rightarrow> Elf_Phdr" where
  "program_header sec off ph =
     ph\<lparr>p_type := (if loadable sec then PT_LOAD else 0), p_flags := program_flags sec,
        p_offset := word_of_int off, p_vaddr := m_base_address sec, p_paddr := m_base_address sec,
        p_filesz := (if loadable sec then ucast (Section_size sec) else 0),
        p_memsz := ucast (Section_size sec), p_align := 0\<rparr>"

fun add_segments :: "ElfClass \<Rightarrow> nat \<Rightarrow> Section list \<Rightarrow> ElfFile \<Rightarrow> ElfFile result" where
  "add_segments cls i [] f = Inr f"
| "add_segments cls i (sec # secs) f =
     bindR (with_phdr i (program_header sec (elfbin_size cls f)) f) (\<lambda>f.
       add_segments cls (Suc i) secs (elfbin_insert cls (sec_output sec) f))"

section \<open>The writer\<close>

definition elf_header :: "ElfClass \<Rightarrow> u128 \<Rightarrow> nat \<Rightarrow> Elf_Ehdr" where
  "elf_header cls entry n =
     \<lparr>e_ident = [0x7F, 0x45, 0x4C, 0x46, class_byte cls, ELFDATA2LSB, ucast EV_CURRENT,
        ELFOSABI_STANDALONE, 0, 0, 0, 0, 0, 0, 0, 0],
      e_type = ET_EXEC, e_machine = EM_RISCV, e_version = EV_CURRENT, e_entry = entry,
      e_phoff = of_nat (sizeof_ElfData cls), e_shoff = of_nat (sizeof_Ehdr cls), e_flags = 0,
      e_ehsize = of_nat (sizeof_Ehdr cls), e_phentsize = of_nat (sizeof_Phdr cls),
      e_phnum = of_nat n, e_shentsize = of_nat (sizeof_Shdr cls),
      e_shnum = of_nat (1 + ElfData_S), e_shstrndx = 1\<rparr>"

definition ElfFile_new :: "ElfClass \<Rightarrow> u128 \<Rightarrow> nat \<Rightarrow> ElfFile" where
  "ElfFile_new cls entry n =
     \<lparr>elf_hdr = elf_header cls entry n, elf_shdr = replicate (1 + ElfData_S) Elf_Shdr_zero,
      elf_phdr = replicate n Elf_Phdr_zero, elf_body = [], elf_moved = False\<rparr>"

text \<open>The section name table, with the names of the three sections.\<close>

definition write_shnames :: "ElfClass \<Rightarrow> ElfFile \<Rightarrow> (ElfStringSection \<times> ElfFile) result" where
  "write_shnames cls f =
     bindR (ElfStringSection_new cls 1 f) (\<lambda>(shnames, f).
     let off = str_offset shnames in
     bindR (str_add cls ''.shstrtab'' (shnames, f)) (\<lambda>(shnames, f).
     bindR (with_shdr 1 (\<lambda>sh. sh\<lparr>sh_name := of_nat off\<rparr>) f) (\<lambda>f.
     bindR (str_add cls ''.symtab'' (shnames, f)) (str_add cls ''.strtab''))))"

definition write_strings :: "ElfClass \<Rightarrow> ElfStringSection \<Rightarrow> string list \<Rightarrow> ElfFile \<Rightarrow> (ElfStringSection \<times> ElfFile) result" where
  "write_strings cls shnames names f =
     bindR (ElfStringSection_new cls 3 f) (\<lambda>(strings, f).
     bindR (str_lookup ''.strtab'' shnames) (\<lambda>off.
     bindR (with_shdr 3 (\<lambda>sh. sh\<lparr>sh_name := of_nat off\<rparr>) f) (\<lambda>f.
       str_add_all cls names (strings, f))))"

definition write_symbols :: "ElfClass \<Rightarrow> Assembler \<Rightarrow> ElfStringSection \<Rightarrow> ElfStringSection \<Rightarrow>
    (string \<times> SymbolLocation) list \<Rightarrow> ElfFile \<Rightarrow> ElfFile result" where
  "write_symbols cls s shnames strings symbols f =
     bindR (ElfSymSection_new cls 2 (str_shindex strings) f) (\<lambda>f.
     bindR (str_lookup ''.symtab'' shnames) (\<lambda>off.
     bindR (with_shdr 2 (\<lambda>sh. sh\<lparr>sh_name := of_nat off\<rparr>) f) (\<lambda>f.
     bindR (sym_add_all cls s strings symbols f)
       (with_shdr 2 (\<lambda>sh. sh\<lparr>sh_info := of_nat (length symbols + 1)\<rparr>)))))"

text \<open>
  \<^verbatim>\<open>Elf_Writer\<close>, with the symbols in the order in which the unordered map is iterated. The
  result is what is written to the output file, first after the symbols and then, over it,
  with the sections.
\<close>

definition Elf_Writer :: "ElfClass \<Rightarrow> ((string \<times> SymbolLocation) list \<Rightarrow> (string \<times> SymbolLocation) list) \<Rightarrow>
    Assembler \<Rightarrow> (u8 list \<times> u8 list) result" where
  "Elf_Writer cls iteration s =
     (case find_symbol s (opt_entry (options s)) of
        None \<Rightarrow> Inl (RuntimeError (''No such symbol: '' @ opt_entry (options s)))
      | Some loc \<Rightarrow>
          let f = ElfFile_new cls (location_address s loc) (length (m_sections s));
              symbols = iteration (m_lookup s)
          in bindR (write_shnames cls f) (\<lambda>(shnames, f).
             bindR (write_strings cls shnames (map fst symbols) f) (\<lambda>(strings, f).
             bindR (write_symbols cls s shnames strings symbols f) (\<lambda>f.
             bindR (add_segments cls 0 (map snd (m_sections s)) f) (\<lambda>f'.
               Inr (elfbin cls f, elfbin cls f'))))))"

end
