(* ===== verification/Program.thy ===== *)
theory Program
  imports AssembleFacts ElfWriter
begin

text \<open>
  \<^verbatim>\<open>main.cpp\<close>: the inputs are loaded, split and assembled into one assembler, which is
  then finished; the ELF files are written from the finished state, and the text section
  is written as it is. With it, what holds of a finished state.
\<close>

section \<open>The main program\<close>

definition assemble_file :: "Environment \<Rightarrow> nat \<Rightarrow> string \<Rightarrow> unit M" where
  "assemble_file env depth infile =
     bindM (liftR (load_file env infile None)) (\<lambda>input.
     bindM (liftR (split input)) (\<lambda>tks.
       assemble env depth tks (get_realpath env (c_str infile))))"

text \<open>The addresses of the global symbols, in order; an undefined one is an exception.\<close>

fun addresses_of :: "string list \<Rightarrow> (string \<times> u128) list M" where
  "addresses_of [] = returnM []"
| "addresses_of (n # ns) =
     bindM (address_of n) (\<lambda>addr. bindM (addresses_of ns) (\<lambda>rest. returnM ((n, addr) # rest)))"

text \<open>
  The result of a run: the finished state, the table of globals that is printed, and the
  files that are written, in order; an ELF file is written twice, without and with the
  sections. Every round of the loop loads \<^verbatim>\<open>argv[1]\<close>. With fewer than three arguments the
  program prints its usage and exits.
\<close>

definition main_loop :: "Environment \<Rightarrow> nat \<Rightarrow> string list \<Rightarrow> unit M" where
  "main_loop env depth argv =
     forM [1..<length argv - 1] (\<lambda>i. assemble_file env depth (argv ! 1))"

definition elf_files :: "Environment \<Rightarrow> ElfClass \<Rightarrow> string \<Rightarrow> (string \<times> u8 list) list M" where
  "elf_files env cls outfile =
     bindM (getM (Elf_Writer cls (env_iteration env))) (\<lambda>r.
     bindM (liftR r) (\<lambda>(before, after). returnM [(outfile, before), (outfile, after)]))"

definition main_run :: "Environment \<Rightarrow> nat \<Rightarrow> string list \<Rightarrow>
    ((string \<times> u128) list \<times> (string \<times> u8 list) list) M" where
  "main_run env depth argv =
     (let outfile = argv ! (length argv - 1) in
     thenM (main_loop env depth argv)
     (thenM finish
     (bindM (elf_files env ELFCLASS64 (outfile @ ''64'')) (\<lambda>elf64.
     bindM (elf_files env ELFCLASS128 (outfile @ ''128'')) (\<lambda>elf128.
     bindM (bindM (getM m_globals) addresses_of) (\<lambda>globals.
     thenM (section_named ''.text'')
       (getM (\<lambda>s. (globals, elf64 @ elf128 @
          [(outfile @ ''.bin'', sec_output (the_section s ''.text''))])))))))))"

definition main :: "Environment \<Rightarrow> nat \<Rightarrow> string list \<Rightarrow>
    (((string \<times> u128) list \<times> (string \<times> u8 list) list) \<times> Assembler) result option" where
  "main env depth argv =
     (if length argv < 3 then None
      else Some (main_run env depth argv (Assembler_new default_options)))"

section \<open>Invariants of the whole run\<close>

lemma wf_Assembler_new: "wf_assembler (Assembler_new opt)"
  by (simp add: wf_assembler_def sections_ok_def section_names_def Assembler_new_def
      Section_set_base_address_def Section_new_def section_ok_def lessThan_Suc)

lemma finish_labels_keep:
  assumes "wf_assembler s" and "set names \<subseteq> section_names s"
    and "forM names (\<lambda>n. Section_align_with_labels n 1) s = Inr (a, s')"
  shows "wf_assembler s' \<and> grows s s'"
  using assms
proof (induction names arbitrary: s)
  case Nil
  then show ?case by (simp add: grows_refl)
next
  case (Cons n names)
  then obtain s1 where s1: "Section_align_with_labels n 1 s = Inr ((), s1)"
    and rest: "forM names (\<lambda>n. Section_align_with_labels n 1) s1 = Inr (a, s')"
    by (auto simp: bindM_Inr_iff)
  have "evolves_in n s s1" using Section_align_with_labels_evolves s1 by (rule keepsD)
  then have g: "grows s s1" and w: "wf_assembler s1"
    using Cons.prems(1,2) by (auto simp: evolves_in_def)
  have "section_names s \<subseteq> section_names s1"
    using g find_section_names [of s] find_section_names [of s1] unfolding grows_def by blast
  with Cons.IH [OF w _ rest] Cons.prems(2) have "wf_assembler s' \<and> grows s1 s'" by auto
  with g show ?case by (auto intro: grows_trans)
qed

text \<open>
  After \<^verbatim>\<open>finish\<close>: the state is well-formed, and the sections have the addresses of the
  plan over the sections as they were when the last labels had been attached.
\<close>

lemma finish_run:
  assumes wf: "wf_assembler s" and run: "finish s = Inr (a, s')"
  obtains s1 s2 where "forM (om_keys (m_sections s)) (\<lambda>n. Section_align_with_labels n 1) s = Inr ((), s1)"
    and "wf_assembler s1" and "grows s s1"
    and "resolve_base_addresses s1 = Inr ((), s2)" and "wf_assembler s2"
    and "finish_scheduled_work s2 = Inr (a, s')" and "resolves s2 s'" and "wf_assembler s'"
proof -
  obtain s1 s2 where s1: "forM (om_keys (m_sections s)) (\<lambda>n. Section_align_with_labels n 1) s = Inr ((), s1)"
    and s2: "resolve_base_addresses s1 = Inr ((), s2)" and s': "finish_scheduled_work s2 = Inr (a, s')"
    using run by (auto simp: finish_def bindM_Inr_iff)
  have k: "wf_assembler s1 \<and> grows s s1"
    by (rule finish_labels_keep [OF wf _ s1]) (simp add: section_names_def)
  then have w2: "wf_assembler s2"
    using resolve_base_addresses_places [of s1] s2 by (metis Inr_inject prod.inject)
  have "resolves s2 s'" using finish_scheduled_work_resolves s' by (rule keepsD)
  then show thesis
    using that s1 s2 s' k w2 by (auto simp: resolves_def)
qed

lemma main_loop_evolves: "keeps evolves (main_loop env depth argv)"
  unfolding main_loop_def assemble_file_def
  by (intro evolution.keeps_intros assemble_evolves)

text \<open>The table of globals is read off the finished state, which it leaves alone.\<close>

lemma address_of_run:
  "address_of n s =
     (case find_symbol s n of
        Some loc \<Rightarrow> Inr (location_address s loc, s)
      | None \<Rightarrow> Inl (RuntimeError (''No such symbol: '' @ n)))"
  by (simp add: address_of_def bind_simps split: option.splits)

lemma addresses_of_run:
  "addresses_of ns s = Inr (r, s') \<Longrightarrow> s' = s \<and> map fst r = ns \<and>
     (\<forall>(n, addr) \<in> set r. \<exists>loc. find_symbol s n = Some loc \<and> addr = location_address s loc)"
proof (induction ns arbitrary: r s')
  case Nil
  then show ?case by (simp add: returnM_def)
next
  case (Cons n ns)
  from Cons.prems obtain loc rest where head: "find_symbol s n = Some loc"
    and tail: "addresses_of ns s = Inr (rest, s')" and r: "r = (n, location_address s loc) # rest"
    by (auto simp: bindM_Inr_iff address_of_run split: option.splits)
  show ?case using Cons.IH [OF tail] head r by auto
qed

lemma elf_files_run:
  "elf_files env cls outfile s = Inr (ws, s') \<longleftrightarrow>
     s' = s \<and> (\<exists>before after. Elf_Writer cls (env_iteration env) s = Inr (before, after) \<and>
       ws = [(outfile, before), (outfile, after)])"
  by (auto simp: elf_files_def bind_simps split: sum.splits)

lemma main_run_parts:
  assumes "main env depth argv = Some (Inr ((globals, files), s'))"
  obtains s1 s2 elf64 elf64' elf128 elf128'
  where "main_loop env depth argv (Assembler_new default_options) = Inr ((), s1)"
    and "finish s1 = Inr ((), s2)" and "addresses_of (m_globals s2) s2 = Inr (globals, s2)"
    and "section_named ''.text'' s2 = Inr ((), s')"
    and "Elf_Writer ELFCLASS64 (env_iteration env) s2 = Inr (elf64, elf64')"
    and "Elf_Writer ELFCLASS128 (env_iteration env) s2 = Inr (elf128, elf128')"
    and "files = [(last argv @ ''64'', elf64), (last argv @ ''64'', elf64'),
      (last argv @ ''128'', elf128), (last argv @ ''128'', elf128'),
      (last argv @ ''.bin'', sec_output (the_section s' ''.text''))]"
proof -
  have argv: "argv \<noteq> []" and run: "main_run env depth argv (Assembler_new default_options) = Inr ((globals, files), s')"
    using assms by (auto simp: main_def split: if_splits)
  have out: "argv ! (length argv - 1) = last argv" using argv by (simp add: last_conv_nth)
  obtain s1 s2 s3 w64 w128 where s1: "main_loop env depth argv (Assembler_new default_options) = Inr ((), s1)"
    and s2: "finish s1 = Inr ((), s2)"
    and e64: "elf_files env ELFCLASS64 (last argv @ ''64'') s2 = Inr (w64, s2)"
    and e128: "elf_files env ELFCLASS128 (last argv @ ''128'') s2 = Inr (w128, s2)"
    and s3: "addresses_of (m_globals s2) s2 = Inr (globals, s3)"
    and s': "section_named ''.text'' s3 = Inr ((), s')"
      "files = w64 @ w128 @ [(last argv @ ''.bin'', sec_output (the_section s' ''.text''))]"
    using run unfolding main_run_def Let_def out bindM_Inr_iff elf_files_run getM_run
    by (auto simp: elf_files_run)
  moreover have "s3 = s2" using addresses_of_run [OF s3] by simp
  ultimately show ?thesis using that by (auto simp: elf_files_run)
qed

lemma main_wf:
  assumes "main env depth argv = Some (Inr ((globals, files), s'))"
  shows "wf_assembler s'"
proof -
  obtain s1 s2 where s1: "main_loop env depth argv (Assembler_new default_options) = Inr ((), s1)"
    and s2: "finish s1 = Inr ((), s2)" and s': "section_named ''.text'' s2 = Inr ((), s')"
    using main_run_parts [OF assms] by blast
  have "wf_assembler s1"
    using keepsD [OF main_loop_evolves s1] wf_Assembler_new by (simp add: evolves_def)
  then have "wf_assembler s2" using finish_run s2 by blast
  then show ?thesis using keepsD [OF section_named_evolves s'] by (simp add: evolves_def)
qed

text \<open>Looking up the text section leaves every other fact of the finished state.\<close>

lemma section_named_address:
  assumes "wf_assembler s" and "section_named n s = Inr ((), s')"
  shows "m_globals s' = m_globals s" and "find_symbol s' m = find_symbol s m"
    and "find_symbol s m = Some loc \<Longrightarrow> location_address s' loc = location_address s loc"
proof -
  have s': "s' = (case find_section s n of Some _ \<Rightarrow> s
      | None \<Rightarrow> put_section n (Section_new n (length (m_sections s))) s)"
    using assms(2) by (simp add: section_named_def)
  show "m_globals s' = m_globals s" and "find_symbol s' m = find_symbol s m"
    by (simp_all add: s' split: option.splits)
  assume sym: "find_symbol s m = Some loc"
  then have "loc_section loc \<in> section_names s"
    using assms(1) by (auto simp: wf_assembler_def find_symbol_def dest!: map_of_SomeD)
  then have "find_section s (loc_section loc) \<noteq> None" by (simp only: find_section_names)
  then show "location_address s' loc = location_address s loc"
    by (auto simp: s' location_address_def split: option.splits)
qed

lemma main_result:
  assumes "main env depth argv = Some (Inr ((globals, files), s'))"
  shows "last files = (last argv @ ''.bin'', sec_output (the_section s' ''.text'')) \<and>
    map fst globals = m_globals s' \<and>
    (\<forall>(n, addr) \<in> set globals. \<exists>loc. find_symbol s' n = Some loc \<and> addr = location_address s' loc)"
proof -
  obtain s1 s2 where s1: "main_loop env depth argv (Assembler_new default_options) = Inr ((), s1)"
    and s2: "finish s1 = Inr ((), s2)" and addrs: "addresses_of (m_globals s2) s2 = Inr (globals, s2)"
    and s': "section_named ''.text'' s2 = Inr ((), s')"
    and files: "last files = (last argv @ ''.bin'', sec_output (the_section s' ''.text''))"
    using main_run_parts [OF assms] by (metis last.simps list.distinct(1))
  have "wf_assembler s1"
    using keepsD [OF main_loop_evolves s1] wf_Assembler_new by (simp add: evolves_def)
  then have wf: "wf_assembler s2" using finish_run s2 by blast
  show ?thesis
    using addresses_of_run [OF addrs] section_named_address [OF wf s'] files by fastforce
qed

end
