(* ===== verification/LabelFacts.thy ===== *)
theory LabelFacts
  imports Program
begin

text \<open>
  Where labels end up and what data operations put behind them: an aligned data operation
  attaches the waiting labels to its bytes, \<^verbatim>\<open>db\<close> leaves them waiting, and
  \<^verbatim>\<open>Assembler::finish\<close> attaches what still waits, in whichever section, to the end of the
  current one. A scheduled symbol that never got a place ends the run.
\<close>

section \<open>Aligned output\<close>

lemma index_update_simps [simp]:
  "current_section (s\<lparr>index := i\<rparr>) = current_section s"
  "find_section (s\<lparr>index := i\<rparr>) = find_section s" "the_section (s\<lparr>index := i\<rparr>) = the_section s"
  "cur_bytes (s\<lparr>index := i\<rparr>) = cur_bytes s"
  "padding a (s\<lparr>index := i\<rparr>) = padding a s" "here (s\<lparr>index := i\<rparr>) = here s"
  "wf_assembler (s\<lparr>index := i\<rparr>) = wf_assembler s"
  by (simp_all add: fun_eq_iff current_section_def the_section_def find_section_def cur_bytes_def
      padding_def here_def wf_assembler_def section_names_def)

text \<open>
  The current section is padded to the alignment, the waiting labels that are new get the
  padded place, and the bytes follow.
\<close>

definition places_data :: "nat \<Rightarrow> u8 list \<Rightarrow> Assembler \<Rightarrow> Assembler \<Rightarrow> bool" where
  "places_data a bs s s' \<longleftrightarrow>
     cur_bytes s' = cur_bytes s @ replicate (padding a s) 0 @ bs \<and>
     m_current_section s' = m_current_section s \<and>
     m_lookup s' = add_labels (here s (length (cur_bytes s) + padding a s))
       (m_label_queue (current_section s)) (m_lookup s) \<and>
     m_label_queue (current_section s') = [] \<and> m_schedule s' = m_schedule s \<and>
     (\<forall>n. n \<noteq> m_current_section s \<longrightarrow> find_section s' n = find_section s n)"

lemma aligned_output_step:
  assumes wf: "wf_assembler s" and k: "(1::u64) < 2 ^ k" "k < 64"
    and run: "thenM (align_with_labels (2 ^ k)) (add_output ot bs) s = Inr ((), s')"
  shows "places_data (2 ^ k) bs s s'"
proof -
  obtain s1 where s1: "align_with_labels (2 ^ k) s = Inr ((), s1)"
    and out: "add_output ot bs s1 = Inr ((), s')"
    using run by (auto simp: bindM_Inr_iff)
  note eq = align_with_labels_run [OF wf k s1]
  have cur: "current_section s1 = (current_section s)\<lparr>
      sec_output := cur_bytes s @ replicate (padding (2 ^ k) s) 0, m_label_queue := []\<rparr>"
    by (simp add: eq current_section_def the_section_def find_section_def om_find_put
        put_section_def cur_bytes_def)
  have "find_section s1 n = find_section s n" if "n \<noteq> m_current_section s" for n
    using that by (simp add: eq find_section_def put_section_def om_find_put)
  then show ?thesis
    using add_output_appends [OF out] cur
    by (simp add: places_data_def appends_def cur_bytes_def eq)
qed

section \<open>Data\<close>

text \<open>The data operations that align, with the logarithm of their width in bytes.\<close>

fun data_log :: "PseudoOp \<Rightarrow> nat option" where
  "data_log DATA_16 = Some 1"
| "data_log DATA_32 = Some 2"
| "data_log DATA_64 = Some 3"
| "data_log DATA_128 = Some 4"
| "data_log _ = None"

lemma data_value:
  "le_value (le_bytes 2 (ucast (ucast v :: u16))) = take_bit 16 (ucast (v :: u64))"
  "le_value (le_bytes 4 (ucast (ucast v :: u32))) = take_bit 32 (ucast v)"
  "le_value (le_bytes 8 (ucast v)) = take_bit 64 (ucast v)"
  "le_value (le_bytes 16 (ucast v)) = ucast v"
  by (simp_all only: le_value_le_bytes) (auto intro!: bit_word_eqI simp: bit_simps)

lemma next_tk_run:
  "next_tk T s = Inr (tk, s') \<Longrightarrow>
   index s < length (tokens s) \<and> tk = tokens s ! index s \<and> tk_type tk = T \<and>
   s' = s\<lparr>index := Suc (index s)\<rparr>"
  by (auto simp: next_tk_def next_token_def argument_mismatch_def token_exception_def bind_simps
      split: if_splits)

fun data_bytes :: "PseudoOp \<Rightarrow> Token \<Rightarrow> u8 list" where
  "data_bytes DATA_16 c = le_bytes 2 (ucast (ucast (u64_of c) :: u16))"
| "data_bytes DATA_32 c = le_bytes 4 (ucast (ucast (u64_of c) :: u32))"
| "data_bytes DATA_64 c = le_bytes 8 (ucast (u64_of c))"
| "data_bytes _ c = le_bytes 16 (ucast (u64_of c))"

lemma data_handler_form:
  "data_log p = Some k \<Longrightarrow>
   pseudo_handler env p = bindM (next_tk TK_CONSTANT) (\<lambda>c.
     thenM (align_with_labels (2 ^ k)) (add_output OT_DATA (data_bytes p c)))"
  by (cases p) (auto simp: pseudo_defs)

lemma data_bytes_value:
  assumes "data_log p = Some k"
  shows "length (data_bytes p c) = 2 ^ k"
    and "le_value (data_bytes p c) = take_bit (8 * 2 ^ k) (ucast (u64_of c))"
  using assms by (cases p; auto simp: data_value take_bit_word_eq_self)+

lemma data_log_range: "data_log p = Some k \<Longrightarrow> (1::u64) < 2 ^ k \<and> k < 64"
  by (cases p) auto

lemma data_handler_run:
  assumes wf: "wf_assembler s" and p: "data_log p = Some k"
    and run: "pseudo_handler env p s = Inr ((), s')"
  shows "tk_type (tokens s ! index s) = TK_CONSTANT \<and>
    places_data (2 ^ k) (data_bytes p (tokens s ! index s)) s s'"
proof -
  obtain c s1 where c: "next_tk TK_CONSTANT s = Inr (c, s1)"
    and out: "thenM (align_with_labels (2 ^ k)) (add_output OT_DATA (data_bytes p c)) s1 = Inr ((), s')"
    using run unfolding data_handler_form [OF p] bindM_Inr_iff [of "next_tk TK_CONSTANT"] by blast
  have s1: "s1 = s\<lparr>index := Suc (index s)\<rparr>" "c = tokens s ! index s" "tk_type c = TK_CONSTANT"
    using next_tk_run [OF c] by auto
  have "places_data (2 ^ k) (data_bytes p c) s1 s'"
    using data_log_range [OF p] by (intro aligned_output_step [OF _ _ _ out]) (simp_all add: s1 wf)
  then show ?thesis using s1 by (simp add: places_data_def)
qed

section \<open>Bytes do not take the labels\<close>

lemma add_label_soon_run:
  "add_label_soon l s = Inr ((), put_section (m_current_section s)
     ((current_section s)\<lparr>m_label_queue := m_label_queue (current_section s) @ [l]\<rparr>) s)"
  by (simp add: add_label_soon_def on_current_run Section_add_label_soon_def)

text \<open>Attaching without aligning.\<close>

lemma align_with_labels_0_run:
  "align_with_labels 0 s = Inr ((), (put_section (m_current_section s)
     ((current_section s)\<lparr>m_label_queue := []\<rparr>) s)\<lparr>m_lookup := add_labels (current_location s)
       (m_label_queue (current_section s)) (m_lookup s)\<rparr>)"
  by (simp add: align_with_labels_def Section_align_with_labels_def bindM_def attach_run
      current_section_def the_section_def find_section_def put_section_def)

lemma label_before_byte:
  assumes new: "find_symbol s l = None"
    and run: "thenM (add_label_soon l) (thenM DATA_8_handler (align_with_labels 0)) s = Inr ((), s')"
  shows "find_symbol s' l = Some (here s (Suc (length (cur_bytes s)))) \<and>
    cur_bytes s' = cur_bytes s @ [ucast (u64_of (tokens s ! index s))]"
proof -
  let ?s1 = "put_section (m_current_section s)
     ((current_section s)\<lparr>m_label_queue := m_label_queue (current_section s) @ [l]\<rparr>) s"
  obtain s2 where s2: "DATA_8_handler ?s1 = Inr ((), s2)" and s3: "align_with_labels 0 s2 = Inr ((), s')"
    using run by (auto simp: bindM_Inr_iff add_label_soon_run)
  obtain c s1' where c: "next_tk TK_CONSTANT ?s1 = Inr (c, s1')"
    and out: "add_output OT_DATA (le_bytes 1 (ucast (ucast (u64_of c) :: u8))) s1' = Inr ((), s2)"
    using s2 unfolding DATA_8_handler_def bindM_Inr_iff by blast
  have s1': "s1' = ?s1\<lparr>index := Suc (index s)\<rparr>" "c = tokens s ! index s"
    using next_tk_run [OF c] by auto
  have byte: "(ucast (ucast (ucast w :: u8) :: u128) :: u8) = ucast w" for w :: u64
    by (rule bit_word_eqI) (simp add: bit_simps)
  have b: "cur_bytes s2 = cur_bytes s @ [ucast (u64_of c)]" "m_current_section s2 = m_current_section s"
    "m_lookup s2 = m_lookup s" "m_label_queue (current_section s2) = m_label_queue (current_section s) @ [l]"
    using add_output_appends [OF out]
    by (auto simp: appends_def s1' cur_bytes_def current_section_def byte)
  have loc: "current_location s2 = here s (Suc (length (cur_bytes s)))"
    using b(1,2) by (simp add: current_location_def here_def Section_size_def cur_bytes_def)
  show ?thesis
    using s3 new b s1'(2)
    by (auto simp: align_with_labels_0_run loc find_symbol_def map_of_add_labels cur_bytes_def
        current_section_def the_section_def find_section_def put_section_def om_find_put)
qed

section \<open>The labels that wait at the end\<close>

lemma attach_waiting_run:
  "Section_align_with_labels n 1 s = Inr ((), (put_section n
     ((the_section s n)\<lparr>m_label_queue := []\<rparr>) s)\<lparr>m_lookup := add_labels (current_location s)
       (m_label_queue (the_section s n)) (m_lookup s)\<rparr>)"
  by (simp add: Section_align_with_labels_def bindM_def attach_run
      the_section_def find_section_def put_section_def)

lemma finish_labels_run:
  assumes "forM names (\<lambda>n. Section_align_with_labels n 1) s = Inr ((), s')"
  shows "current_location s' = current_location s \<and>
    (\<forall>l. find_symbol s l \<noteq> None \<longrightarrow> find_symbol s' l = find_symbol s l) \<and>
    (distinct names \<longrightarrow> (\<forall>n \<in> set names. \<forall>l \<in> set (m_label_queue (the_section s n)).
       find_symbol s l = None \<longrightarrow> find_symbol s' l = Some (current_location s)))"
  using assms
proof (induction names arbitrary: s)
  case Nil
  then show ?case by (simp add: returnM_def)
next
  case (Cons n names)
  let ?s1 = "(put_section n ((the_section s n)\<lparr>m_label_queue := []\<rparr>) s)\<lparr>m_lookup :=
      add_labels (current_location s) (m_label_queue (the_section s n)) (m_lookup s)\<rparr>"
  have run: "forM names (\<lambda>n. Section_align_with_labels n 1) ?s1 = Inr ((), s')"
    using Cons.prems unfolding forM.simps bindM_run [OF attach_waiting_run] .
  have loc: "current_location ?s1 = current_location s"
    unfolding current_location_lookup by (simp add: current_location_def current_section_def Section_size_def)
  have sym: "find_symbol ?s1 l = (case find_symbol s l of Some x \<Rightarrow> Some x
      | None \<Rightarrow> if l \<in> set (m_label_queue (the_section s n)) then Some (current_location s) else None)" for l
    by (simp add: find_symbol_def map_of_add_labels)
  have the: "the_section ?s1 k = the_section s k" if "k \<noteq> n" for k
    using that by (simp add: the_section_def find_section_def om_find_put put_section_def)
  note IH = Cons.IH [OF run]
  show ?case
  proof (intro conjI allI impI ballI)
    show "current_location s' = current_location s" using IH loc by simp
    show "find_symbol s' l = find_symbol s l" if "find_symbol s l \<noteq> None" for l
      using IH that by (auto simp: sym)
    fix k l
    assume d: "distinct (n # names)" and k: "k \<in> set (n # names)"
      and l: "l \<in> set (m_label_queue (the_section s k))" and new: "find_symbol s l = None"
    show "find_symbol s' l = Some (current_location s)"
    proof (cases "find_symbol ?s1 l")
      case None
      then have "k \<noteq> n" using l new by (auto simp: sym split: if_splits)
      then show ?thesis using IH None d k l the loc by auto
    next
      case (Some x)
      then show ?thesis using IH new by (auto simp: sym split: if_splits)
    qed
  qed
qed

lemma waiting_labels_attached:
  assumes wf: "wf_assembler s" and run: "finish s = Inr ((), s')"
    and n: "find_section s n = Some sec" and l: "l \<in> set (m_label_queue sec)" and new: "find_symbol s l = None"
  shows "map_option place (find_symbol s' l) = Some (place (current_location s))"
proof -
  obtain s1 s2 where s1: "forM (om_keys (m_sections s)) (\<lambda>n. Section_align_with_labels n 1) s = Inr ((), s1)"
    and w1: "wf_assembler s1" and s2: "resolve_base_addresses s1 = Inr ((), s2)" and res: "resolves s2 s'"
    using finish_run [OF wf run] by blast
  have "distinct (om_keys (m_sections s))"
    using wf by (simp add: wf_assembler_def sections_ok_def strict_sorted_iff)
  moreover have "n \<in> set (om_keys (m_sections s))"
    using n find_section_names [of s n] by (simp add: section_names_def)
  moreover have "l \<in> set (m_label_queue (the_section s n))"
    using n l by (simp add: the_section_find)
  ultimately have "find_symbol s1 l = Some (current_location s)"
    using finish_labels_run [OF s1] new by blast
  moreover have "rebased s1 s2"
    using resolve_base_addresses_places [OF w1] s2 by (metis Inr_inject prod.inject)
  then have "find_symbol s2 l = find_symbol s1 l"
    by (metis rebased_def find_symbol_def Assembler.select_convs(6) Assembler.update_convs(5) Assembler.surjective)
  ultimately show ?thesis using resolves_symbol [OF res, of l] by simp
qed

section \<open>Symbols that never got a place\<close>

lemma forM_fails:
  assumes "x \<in> set xs" and "\<And>s. P s \<Longrightarrow> \<exists>e. f x s = Inl e"
    and "\<And>y s s'. P s \<Longrightarrow> f y s = Inr ((), s') \<Longrightarrow> P s'" and "P s"
  shows "\<exists>e. forM xs f s = Inl e"
  using assms(1,4)
proof (induction xs arbitrary: s)
  case (Cons y ys)
  show ?case
  proof (cases "f y s")
    case (Inl e)
    then show ?thesis by (auto simp: bindM_def)
  next
    case (Inr r)
    then obtain s1 where s1: "f y s = Inr ((), s1)" by (cases r) auto
    then have "P s1" using Cons.prems(2) assms(3) by blast
    moreover have "y \<noteq> x" using assms(2) [OF Cons.prems(2)] s1 by auto
    ultimately show ?thesis using Cons s1 by (auto simp: bindM_def)
  qed
qed simp

lemma unresolved_symbol_stops:
  assumes "(n, ops) \<in> set (m_schedule s)" and "find_symbol s n = None"
  shows "\<exists>e. finish_scheduled_work s = Inl e"
proof -
  have "\<exists>e. forM (m_schedule s) run_ops s = Inl e"
  proof (rule forM_fails [OF assms(1), where P = "\<lambda>s. find_symbol s n = None"])
    show "\<exists>e. run_ops (n, ops) t = Inl e" if "find_symbol t n = None" for t
      using that by (simp add: run_ops_def bindM_def)
    show "find_symbol t' n = None" if "find_symbol t n = None" and "run_ops y t = Inr ((), t')" for y t t'
    proof -
      have "keeps resolves (run_ops y)"
        by (cases y) (auto simp: run_ops_def intro!: resolution.keeps_intros run_op_resolves
            split: option.split)
      then have "resolves t t'" using that(2) by (rule keepsD)
      then show ?thesis using resolves_symbol that(1) by (metis option.map_disc_iff)
    qed
  qed fact
  then show ?thesis by (simp add: finish_scheduled_work_def bindM_def)
qed

end
