(* ===== verification/Schedules.thy ===== *)
theory Schedules
  imports WideAddresses LabelFacts
begin

text \<open>
  What an instruction schedules: at most one operation, at its own place, and the words it
  emits there are the ones that operation expects to patch.
\<close>

section \<open>The schedule as one list\<close>

definition put_op :: "string \<Rightarrow> scheduled_op \<Rightarrow> (string \<times> scheduled_op list) list \<Rightarrow> (string \<times> scheduled_op list) list" where
  "put_op n opn m = om_put n ((case om_find m n of Some os \<Rightarrow> os | None \<Rightarrow> []) @ [opn]) m"

lemma schedule_run: "schedule n opn s = Inr ((), s\<lparr>m_schedule := put_op n opn (m_schedule s)\<rparr>)"
  by (simp add: schedule_def put_op_def Let_def)

definition all_ops :: "(string \<times> scheduled_op list) list \<Rightarrow> (string \<times> scheduled_op) list" where
  "all_ops m = concat (map (\<lambda>(n, ops). map (Pair n) ops) m)"

text \<open>Scheduling inserts one operation somewhere into the list.\<close>

lemma all_ops_put:
  assumes "sorted_wrt (<) (om_keys m)"
  shows "\<exists>xs ys. all_ops m = xs @ ys \<and> all_ops (put_op n opn m) = xs @ (n, opn) # ys"
  using assms
proof (induction m)
  case Nil
  then show ?case by (simp add: all_ops_def put_op_def)
next
  case (Cons p m)
  obtain k ops where p: "p = (k, ops)" by (cases p)
  consider "n < k" | "n = k" | "k < n" by fastforce
  then show ?case
  proof cases
    case 1
    then have "om_find (p # m) n = None" using Cons.prems by (auto simp: p map_of_eq_None_iff)
    with 1 have "all_ops (put_op n opn (p # m)) = (n, opn) # all_ops (p # m)"
      by (simp add: put_op_def p all_ops_def)
    then show ?thesis by (metis append_Nil)
  next
    case 2
    then have "all_ops (p # m) = map (Pair n) ops @ all_ops m"
      "all_ops (put_op n opn (p # m)) = map (Pair n) ops @ (n, opn) # all_ops m"
      by (simp_all add: put_op_def p all_ops_def)
    then show ?thesis by blast
  next
    case 3
    obtain xs ys where "all_ops m = xs @ ys" and "all_ops (put_op n opn m) = xs @ (n, opn) # ys"
      using Cons by auto
    moreover have "put_op n opn (p # m) = p # put_op n opn m"
      using 3 by (auto simp: put_op_def p)
    ultimately show ?thesis
      by (intro exI [of _ "map (Pair k) ops @ xs"] exI [of _ ys]) (simp add: p all_ops_def)
  qed
qed

lemma all_ops_schedule: "(n, opn) \<in> set (all_ops m) \<longleftrightarrow> (\<exists>ops. (n, ops) \<in> set m \<and> opn \<in> set ops)"
  by (auto simp: all_ops_def)

section \<open>The words an operation patches\<close>

text \<open>
  The words that the closure of an operation finds at its place: the instruction with its
  registers, and fields that it is going to write.
\<close>

fun op_template :: "scheduled_op \<Rightarrow> u32 list \<Rightarrow> bool" where
  "op_template (Op_la _) ws \<longleftrightarrow> (\<exists>r. take 2 ws = la_pair r)"
| "op_template (Op_laq _) ws \<longleftrightarrow> (\<exists>r t. take 14 ws = laq_instrs r t)"
| "op_template (Op_branch _) ws \<longleftrightarrow> Rtype_opcode (ws ! 0) = RV32I_BRANCH"
| "op_template (Op_farcall _) ws \<longleftrightarrow> (\<exists>r. take 2 ws = farcall_pair r)"
| "op_template (Op_call _) ws \<longleftrightarrow> Rtype_opcode (ws ! 0) = RV32I_JAL"
| "op_template (Op_jmp _) ws \<longleftrightarrow> Rtype_opcode (ws ! 0) = RV32I_JAL"
| "op_template _ ws \<longleftrightarrow> True"

lemma templates:
  "op_template (Op_la l) (la_pair r)"
  "op_template (Op_farcall l) (farcall_pair r)"
  "op_template (Op_laq l) (laq_instrs r t)"
proof -
  have "length (laq_instrs r t) = 14" by (simp add: laq_template build_uint32_template)
  then have "take 14 (laq_instrs r t) = laq_instrs r t" by simp
  then show "op_template (Op_laq l) (laq_instrs r t)" by auto
qed (auto simp: la_pair_def farcall_pair_def)

section \<open>What a handler schedules\<close>

definition schedules_at :: "SymbolLocation \<Rightarrow> u32 list \<Rightarrow>
    (string \<times> scheduled_op list) list \<Rightarrow> (string \<times> scheduled_op list) list \<Rightarrow> bool" where
  "schedules_at loc ws m m' \<longleftrightarrow>
     m' = m \<or> (\<exists>n opn. m' = put_op n opn m \<and> op_place opn = Some loc \<and> op_template opn ws)"

text \<open>Most handlers schedule nothing.\<close>

definition same_schedule :: "Assembler \<Rightarrow> Assembler \<Rightarrow> bool" where
  "same_schedule s s' \<longleftrightarrow> m_schedule s' = m_schedule s"

interpretation unscheduled: handler_relation same_schedule "\<lambda>_. False"
  by unfold_locales
    (auto simp: same_schedule_def intro: keeps_moves [OF next_token_moves] keeps_moves [OF resolve_constants_moves])

lemma next_tk_schedule:
  "next_tk T s = Inr (tk, s') \<Longrightarrow>
     m_schedule s' = m_schedule s \<and> current_location s' = current_location s"
  by (auto dest!: next_tk_run simp: current_location_def)

lemma schedule_here_run:
  "schedule_here lbl mk s =
     Inr ((), s\<lparr>m_schedule := put_op (tk_value lbl) (mk (current_location s)) (m_schedule s)\<rparr>)"
  by (simp add: schedule_here_def bindM_def schedule_run)

lemma schedules_here:
  assumes "op_place (mk loc) = Some loc" and "op_template (mk loc) ws"
  shows "schedules_at loc ws m (put_op n (mk loc) m)"
  using assms by (auto simp: schedules_at_def)

lemma OP_LA_schedules:
  "OP_LA_handler s = Inr (ws, s') \<Longrightarrow> schedules_at (current_location s) ws (m_schedule s) (m_schedule s')"
  by (auto simp: OP_LA_handler_def bindM_Inr_iff Let_def schedule_here_run dest!: next_tk_schedule
      intro!: schedules_here templates simp del: op_template.simps simp flip: la_pair_def)

lemma OP_LAQ_schedules:
  "OP_LAQ_handler s = Inr (ws, s') \<Longrightarrow> schedules_at (current_location s) ws (m_schedule s) (m_schedule s')"
  by (auto simp: OP_LAQ_handler_def bindM_Inr_iff schedule_here_run dest!: next_tk_schedule
      intro!: schedules_here templates simp del: op_template.simps)

lemma OP_FARCALL_schedules:
  "OP_FARCALL_handler s = Inr (ws, s') \<Longrightarrow> schedules_at (current_location s) ws (m_schedule s) (m_schedule s')"
  by (auto simp: OP_FARCALL_handler_def bindM_Inr_iff Let_def schedule_here_run dest!: next_tk_schedule
      intro!: schedules_here templates simp del: op_template.simps simp flip: farcall_pair_def)

lemma opcode_branch [simp]: "Rtype_opcode RV32I_BRANCH = RV32I_BRANCH"
  by (simp add: Rtype_opcode_def get_field_def opcode_values)

lemma branch_schedules:
  "branch_helper f3 s = Inr (ws, s') \<Longrightarrow> schedules_at (current_location s) ws (m_schedule s) (m_schedule s')"
  by (auto simp: branch_helper_def bindM_Inr_iff Let_def schedule_here_run dest!: next_tk_schedule
      intro!: schedules_here)

lemma OP_JMP_schedules:
  "OP_JMP_handler s = Inr (ws, s') \<Longrightarrow> schedules_at (current_location s) ws (m_schedule s) (m_schedule s')"
  by (auto simp: OP_JMP_handler_def bindM_Inr_iff schedule_here_run dest!: next_tk_schedule
      intro!: schedules_here)

lemma optional_register_schedule:
  "optional_register s = Inr (reg, s') \<Longrightarrow> m_schedule s' = m_schedule s"
  by (auto simp: optional_register_def bindM_Inr_iff dest!: next_tk_schedule split: if_splits)

lemma Jtype_opcode [simp]: "Rtype_opcode (set_Jtype_imm v w) = Rtype_opcode w"
  by (simp add: set_Jtype_imm_def Rtype_opcode_def set_Jtype_imm1_def set_Jtype_imm2_def
      set_Jtype_imm3_def set_Jtype_imm4_def)

lemma OP_CALL_schedules:
  assumes "OP_CALL_handler s = Inr (ws, s')"
  shows "schedules_at (current_location s) ws (m_schedule s) (m_schedule s')"
proof -
  obtain instr s1 reg where 1: "(if next_is TK_SYMBOL s then bindM (next_tk TK_SYMBOL) (\<lambda>lbl.
        thenM (schedule_here lbl Op_call) (returnM (set_rd 1 RV32I_JAL)))
      else if next_is TK_CONSTANT s then bindM (next_tk TK_CONSTANT) (\<lambda>imm.
        returnM (set_Jtype_imm (i64_of imm) (set_rd 1 RV32I_JAL)))
      else bindM next_token token_exception) s = Inr (instr, s1)"
    and 2: "optional_register s1 = Inr (reg, s')"
    and ws: "ws = [case reg of Some r \<Rightarrow> set_rd (i64_of r) instr | None \<Rightarrow> instr]"
    using assms by (auto simp: OP_CALL_handler_def Let_def bindM_Inr_iff)
  have "schedules_at (current_location s) ws (m_schedule s) (m_schedule s1)"
    using 1 by (auto simp: bindM_Inr_iff schedule_here_run ws token_exception_def schedules_at_def
        dest!: next_tk_schedule split: if_splits option.splits
        intro!: exI [of _ "Op_call (current_location s)"])
  then show ?thesis using optional_register_schedule [OF 2] by simp
qed

lemma handler_schedules:
  assumes "opcode_handler opc s = Inr (ws, s')"
  shows "schedules_at (current_location s) ws (m_schedule s) (m_schedule s')"
proof (cases "handler_fixups opc = {}")
  case True
  have "keeps same_schedule (opcode_handler opc)" by (rule unscheduled.R_handler) (simp add: True)
  from keepsD [OF this assms] show ?thesis by (simp add: same_schedule_def schedules_at_def)
next
  case False
  then show ?thesis
    using assms OP_LA_schedules OP_LAQ_schedules OP_FARCALL_schedules branch_schedules
      OP_JMP_schedules OP_CALL_schedules
    by (cases opc) (simp_all add: wrapper_defs)
qed

end
