(* ===== verification/Patches.thy ===== *)
theory Patches
  imports Schedules
begin

text \<open>
  What is scheduled to be patched stays intact: every operation of the schedule finds its
  instruction words inside its section, no two operations touch the same bytes, and every
  step of the assembly keeps it so, as long as nothing shrinks a section.
\<close>

section \<open>Sections that only grow at their end\<close>

definition section_appends :: "(Section \<Rightarrow> Section result) \<Rightarrow> bool" where
  "section_appends f \<longleftrightarrow> (\<forall>sec sec'. section_ok sec \<longrightarrow> f sec = Inr sec' \<longrightarrow>
     (\<exists>xs. sec_output sec' = sec_output sec @ xs))"

lemma resize_appends:
  assumes "vector_resize n xs = Inr ys" and "length xs \<le> n"
  shows "\<exists>zs. ys = xs @ zs"
  using assms by (auto simp: vector_resize_def split: if_splits)

lemma clear_low_ge:
  fixes x m :: u64
  assumes "unat x + unat m < 2 ^ 64"
  shows "unat x \<le> unat ((x + m) AND NOT m)"
proof -
  let ?y = "x + m"
  have y: "unat ?y = unat x + unat m" using assms by (simp add: unat_word_ariths)
  have "?y - (?y AND m) = ?y AND NOT (?y AND m)"
    by (rule disjunctive_diff) (simp add: bit_simps)
  also have "\<dots> = ?y AND NOT m" by (rule bit_word_eqI) (auto simp: bit_simps)
  finally have d: "?y AND NOT m = ?y - (?y AND m)" ..
  have "uint (?y AND m) \<le> uint m" by (simp add: unsigned_and_eq AND_upper2)
  then have le: "unat (?y AND m) \<le> unat m" by (simp add: word_le_def flip: word_le_nat_alt)
  then have "unat (?y - (?y AND m)) = unat ?y - unat (?y AND m)"
    using y by (intro unat_sub) (simp add: word_le_nat_alt)
  with d y le show ?thesis by simp
qed

lemma Section_align_appends:
  assumes "0 < a" and "a \<le> 2 ^ 62"
  shows "section_appends (Section_align a)"
  unfolding section_appends_def
proof (intro allI impI)
  fix sec sec' assume ok: "section_ok sec" and run: "Section_align a sec = Inr sec'"
  have a: "unat a \<le> 2 ^ 62" using assms(2) by (simp add: word_le_nat_alt)
  have "unat (a - 1) < 2 ^ 62" using a assms(1) by (simp add: unat_minus_one word_gt_0)
  then have "unat (Section_size sec) + unat (a - 1) < 2 ^ 64"
    using section_ok_less [OF ok] by (simp add: unat_Section_size [OF ok])
  from clear_low_ge [OF this]
  have "length (sec_output sec) \<le> unat ((Section_size sec + (a - 1)) AND NOT (a - 1))"
    by (simp add: unat_Section_size [OF ok])
  then show "\<exists>xs. sec_output sec' = sec_output sec @ xs"
    using run by (auto simp: Section_align_def Let_def bindR_Inr_iff dest: resize_appends split: if_splits)
qed

lemma Section_allocate_appends:
  assumes "len \<le> 2 ^ 62"
  shows "section_appends (Section_allocate len)"
  unfolding section_appends_def
proof (intro allI impI)
  fix sec sec' assume ok: "section_ok sec" and run: "Section_allocate len sec = Inr sec'"
  have "unat len \<le> 2 ^ 62" using assms by (simp add: word_le_nat_alt)
  then have "unat (Section_size sec + len) = length (sec_output sec) + unat len"
    using section_ok_less [OF ok] by (simp add: unat_word_ariths unat_Section_size [OF ok])
  then show "\<exists>xs. sec_output sec' = sec_output sec @ xs"
    using run by (auto simp: Section_allocate_def bindR_Inr_iff dest!: resize_appends)
qed

lemma Section_add_output_appends: "section_appends (Section_add_output ot bs)"
  by (cases ot)
    (auto simp: section_appends_def Section_add_output_def vector_append_def bindR_Inr_iff split: if_splits)

lemma section_pure_appends:
  assumes "\<And>sec. sec_output (g sec) = sec_output sec"
  shows "section_appends (\<lambda>sec. Inr (g sec))"
  by (auto simp: section_appends_def assms)

section \<open>States that extend one another\<close>

text \<open>The bytes of every section stay in front, the schedule is the same.\<close>

definition bytes_extend :: "Assembler \<Rightarrow> Assembler \<Rightarrow> bool" where
  "bytes_extend s s' \<longleftrightarrow> (\<forall>n. \<exists>xs. sec_output (the_section s' n) = sec_output (the_section s n) @ xs)"

lemma bytes_extend_refl: "bytes_extend s s"
  by (simp add: bytes_extend_def)

lemma bytes_extend_trans: "bytes_extend s t \<Longrightarrow> bytes_extend t u \<Longrightarrow> bytes_extend s u"
  unfolding bytes_extend_def by (metis append.assoc)

definition extends :: "Assembler \<Rightarrow> Assembler \<Rightarrow> bool" where
  "extends s s' \<longleftrightarrow> evolves s s' \<and> m_schedule s' = m_schedule s \<and>
     (wf_assembler s \<longrightarrow> bytes_extend s s')"

interpretation extension: state_preorder extends
  by unfold_locales
    (auto simp: extends_def bytes_extend_refl evolution.R_refl evolves_def
      intro: evolution.R_trans [unfolded evolves_def] grows_trans bytes_extend_trans)

lemma on_current_extends:
  assumes "section_op f" and "section_appends f"
  shows "keeps extends (on_current f)"
proof (rule keepsI)
  fix s a s' assume run: "on_current f s = Inr (a, s')"
  then obtain sec' where f: "f (current_section s) = Inr sec'"
    and s': "s' = put_section (m_current_section s) sec' s"
    by (auto simp: on_current_run split: sum.splits)
  have "bytes_extend s s'" if wf: "wf_assembler s"
  proof -
    obtain sec where "current_section s = sec" and "section_ok sec" by (rule wf_current [OF wf])
    then show ?thesis
      using assms(2) f by (auto simp: bytes_extend_def s' section_appends_def current_section_def)
  qed
  with keepsD [OF on_current_evolves [OF assms(1)] run] show "extends s s'"
    by (simp add: extends_def s')
qed

text \<open>Everything that leaves the bytes and the schedule.\<close>

lemma extends_same:
  assumes "keeps evolves m" and "\<And>s a s'. m s = Inr (a, s') \<Longrightarrow> m_schedule s' = m_schedule s \<and>
      (\<forall>n. sec_output (the_section s' n) = sec_output (the_section s n))"
  shows "keeps extends m"
  using assms by (auto simp: keeps_def extends_def bytes_extend_def)

lemma moves_extends: "keeps moves m \<Longrightarrow> keeps extends m"
  by (rule extends_same [OF keeps_moves])
    (auto intro: evolves_same_tables dest!: keepsD simp: moves_def)

lemma next_tk_extends: "keeps extends (next_tk T)"
  by (rule extends_same [OF next_tk_evolves]) (auto dest!: next_tk_run)

lemma add_symbol_here_extends: "keeps extends (add_symbol_here n)"
  by (rule extends_same [OF add_symbol_here_evolves])
    (auto simp: add_symbol_here_run the_section_def find_section_def)

lemma make_global_extends: "keeps extends (make_global n)"
  by (rule extends_same [OF make_global_evolves])
    (auto simp: make_global_def the_section_def find_section_def)

lemma set_section_extends: "keeps extends (set_section n)"
  by (rule extends_same [OF set_section_evolves])
    (auto simp: set_section_def bindM_Inr_iff section_named_def the_section_def find_section_def
      put_section_def om_find_put Section_new_def split: option.splits if_splits)

lemma add_label_soon_extends: "keeps extends (add_label_soon n)"
  unfolding add_label_soon_def
  by (intro on_current_extends section_op_pure section_pure_appends) (simp_all add: Section_add_label_soon_def)

lemma add_output_extends: "keeps extends (add_output ot bs)"
  unfolding add_output_def by (intro on_current_extends section_op_add_output Section_add_output_appends)

lemma align_extends: "0 < a \<Longrightarrow> a \<le> 2 ^ 62 \<Longrightarrow> keeps extends (align a)"
  unfolding align_def by (intro on_current_extends section_op_align Section_align_appends)

lemma allocate_extends: "len \<le> 2 ^ 62 \<Longrightarrow> keeps extends (allocate len)"
  unfolding allocate_def by (intro on_current_extends section_op_allocate Section_allocate_appends)

lemma align_with_labels_extends:
  assumes "a \<le> 2 ^ 62"
  shows "keeps extends (align_with_labels a)"
proof (rule keepsI)
  fix s b s' assume run: "align_with_labels a s = Inr (b, s')"
  let ?n = "m_current_section s"
  obtain s1 where 1: "(if a > 1 then bindM (getM (\<lambda>s. the_section s ?n)) (\<lambda>sec.
        bindM (liftR (Section_align a sec)) (\<lambda>sec'. modifyM (put_section ?n sec'))) else returnM ()) s = Inr ((), s1)"
    and s': "s' = put_section ?n ((the_section s1 ?n)\<lparr>m_label_queue := []\<rparr>)
      (s1\<lparr>m_lookup := add_labels (current_location s1) (m_label_queue (the_section s1 ?n)) (m_lookup s1)\<rparr>)"
    using run unfolding align_with_labels_def Section_align_with_labels_def bindM_Inr_iff getM_run
    by (auto simp: attach_run the_section_def find_section_def)
  have same: "m_schedule s1 = m_schedule s" and ext: "wf_assembler s \<Longrightarrow> bytes_extend s s1"
  proof -
    show "m_schedule s1 = m_schedule s" using 1 by (auto simp: bindM_Inr_iff liftR_def split: if_splits sum.splits)
    show "bytes_extend s s1" if wf: "wf_assembler s"
    proof (cases "a > 1")
      case True
      then obtain sec' where al: "Section_align a (the_section s ?n) = Inr sec'" and s1: "s1 = put_section ?n sec' s"
        using 1 by (auto simp: bindM_Inr_iff liftR_def split: sum.splits)
      have "section_ok (the_section s ?n)" using wf_current [OF wf] by (metis current_section_def)
      moreover have "0 < a" using True by (metis not_less_iff_gr_or_eq word_gt_0 word_not_simps(1))
      ultimately obtain xs where "sec_output sec' = sec_output (the_section s ?n) @ xs"
        using Section_align_appends [OF _ assms] al unfolding section_appends_def by blast
      then show ?thesis by (auto simp: bytes_extend_def s1)
    next
      case False
      then show ?thesis using 1 by (simp add: bytes_extend_refl)
    qed
  qed
  have "bytes_extend s1 s'"
    by (auto simp: bytes_extend_def s' the_section_def find_section_def put_section_def om_find_put split: option.splits)
  with keepsD [OF align_with_labels_evolves run] same ext show "extends s s'"
    by (auto simp: extends_def s' intro: bytes_extend_trans)
qed

lemmas primitive_extends =
  next_tk_extends moves_extends [OF next_token_moves] moves_extends [OF resolve_constants_moves]
  add_symbol_here_extends make_global_extends set_section_extends add_label_soon_extends
  add_output_extends align_with_labels_extends

lemma flags_extend:
  "keeps extends (on_current (\<lambda>sec. Inr (Section_make_execonly sec)))"
  "keeps extends (on_current (\<lambda>sec. Inr (Section_make_readonly sec)))"
  "keeps extends (on_current (\<lambda>sec. Inr (Section_set_base_address ba sec)))"
  by (intro on_current_extends section_op_pure section_pure_appends;
      simp add: Section_make_execonly_def Section_make_readonly_def Section_set_base_address_def)+

lemma emit_instr_extends: "keeps extends (emit_instr w)"
  unfolding emit_instr_def by (rule add_output_extends)

lemma data_handler_extends:
  "p \<in> {DATA_8, DATA_16, DATA_32, DATA_64, DATA_128, INCBIN} \<Longrightarrow> keeps extends (pseudo_handler env p)"
  by (cases p; simp only: pseudo_handler.simps pseudo_defs)
    (intro extension.keeps_intros primitive_extends; simp)+

section \<open>Intact patches\<close>

text \<open>How many words an operation patches at most, counted from its place.\<close>

fun op_words :: "scheduled_op \<Rightarrow> nat" where
  "op_words (Op_la l) = 2"
| "op_words (Op_laq l) = 14"
| "op_words (Op_farcall l) = 2"
| "op_words _ = 1"

definition op_fits :: "Assembler \<Rightarrow> scheduled_op \<Rightarrow> bool" where
  "op_fits s opn \<longleftrightarrow> (\<forall>l. op_place opn = Some l \<longrightarrow>
     unat (loc_offset l) + 4 * op_words opn \<le> length (bytes_of s l) \<and>
     op_template opn (words_at (op_words opn) l s))"

definition ops_apart :: "scheduled_op \<Rightarrow> scheduled_op \<Rightarrow> bool" where
  "ops_apart x y \<longleftrightarrow> (\<forall>l l'. op_place x = Some l \<longrightarrow> op_place y = Some l' \<longrightarrow> loc_section l = loc_section l' \<longrightarrow>
     unat (loc_offset l) + 4 * op_words x \<le> unat (loc_offset l') \<or>
     unat (loc_offset l') + 4 * op_words y \<le> unat (loc_offset l))"

lemma ops_apart_sym: "ops_apart x y \<longleftrightarrow> ops_apart y x"
  unfolding ops_apart_def by metis

definition patches_ok :: "Assembler \<Rightarrow> bool" where
  "patches_ok s \<longleftrightarrow>
     (\<forall>(n, opn) \<in> set (all_ops (m_schedule s)). op_fits s opn) \<and>
     sorted_wrt (\<lambda>p q. ops_apart (snd p) (snd q)) (all_ops (m_schedule s))"

lemma read32_append: "i + 4 \<le> length bs \<Longrightarrow> read32 i (bs @ xs) = read32 i bs"
  by (simp add: read32_def)

lemma words_extend:
  assumes "bytes_extend s s'" and "unat (loc_offset l) + 4 * k \<le> length (bytes_of s l)"
  shows "words_at k l s' = words_at k l s" and "length (bytes_of s l) \<le> length (bytes_of s' l)"
proof -
  obtain xs where xs: "bytes_of s' l = bytes_of s l @ xs"
    using assms(1) unfolding bytes_extend_def bytes_of_def by blast
  then show "length (bytes_of s l) \<le> length (bytes_of s' l)" by simp
  have "read32 (unat (loc_offset l) + 4 * i) (bytes_of s l @ xs) = read32 (unat (loc_offset l) + 4 * i) (bytes_of s l)"
    if "i < k" for i
    by (rule read32_append) (use that assms(2) in simp)
  then show "words_at k l s' = words_at k l s" by (simp add: words_at_def xs)
qed

lemma op_fits_extend: "bytes_extend s s' \<Longrightarrow> op_fits s opn \<Longrightarrow> op_fits s' opn"
  unfolding op_fits_def by (auto simp: words_extend dest: words_extend(2) intro: order_trans)

lemma patches_extend:
  "bytes_extend s s' \<Longrightarrow> m_schedule s' = m_schedule s \<Longrightarrow> patches_ok s \<Longrightarrow> patches_ok s'"
  unfolding patches_ok_def by (auto intro: op_fits_extend)

text \<open>One more operation, behind everything that was there, or without a place.\<close>

lemma patches_schedule:
  assumes sorted: "sorted_wrt (<) (om_keys (m_schedule s))" and ok: "patches_ok s" and ext: "bytes_extend s s'"
    and sched: "m_schedule s' = put_op n opn (m_schedule s)" and new: "op_fits s' opn"
    and behind: "\<And>l. op_place opn = Some l \<Longrightarrow> length (bytes_of s l) \<le> unat (loc_offset l)"
  shows "patches_ok s'"
proof -
  obtain xs ys where old: "all_ops (m_schedule s) = xs @ ys" and new_ops: "all_ops (m_schedule s') = xs @ (n, opn) # ys"
    using all_ops_put [OF sorted] sched by metis
  have apart: "ops_apart opn y" if "(m, y) \<in> set (xs @ ys)" for m y
  proof -
    have "op_fits s y" using ok that old by (auto simp: patches_ok_def)
    then have y: "unat (loc_offset l') + 4 * op_words y \<le> length (bytes_of s l')" if "op_place y = Some l'" for l'
      using that by (simp add: op_fits_def)
    show ?thesis
      unfolding ops_apart_def
    proof (intro allI impI disjI2)
      fix l l' assume l: "op_place opn = Some l" "op_place y = Some l'" "loc_section l = loc_section l'"
      then have "bytes_of s l = bytes_of s l'" by (simp add: bytes_of_def)
      then show "unat (loc_offset l') + 4 * op_words y \<le> unat (loc_offset l)"
        using y [OF l(2)] behind [OF l(1)] by simp
    qed
  qed
  then have "\<forall>p \<in> set (xs @ ys). ops_apart opn (snd p) \<and> ops_apart (snd p) opn"
    using ops_apart_sym by (metis prod.collapse)
  then have "sorted_wrt (\<lambda>p q. ops_apart (snd p) (snd q)) (xs @ (n, opn) # ys)"
    using ok unfolding patches_ok_def old by (simp add: sorted_wrt_append ball_Un)
  moreover have "op_fits s' y" if "(m, y) \<in> set (xs @ (n, opn) # ys)" for m y
    using that new ok op_fits_extend [OF ext] old by (auto simp: patches_ok_def)
  ultimately show ?thesis by (auto simp: patches_ok_def new_ops)
qed

lemma op_template_words: "op_template opn ws \<Longrightarrow> ws \<noteq> [] \<Longrightarrow> op_words opn \<le> length ws"
proof -
  have "length (laq_instrs r t) = 14" for r t by (simp add: laq_template build_uint32_template)
  then show "op_template opn ws \<Longrightarrow> ws \<noteq> [] \<Longrightarrow> op_words opn \<le> length ws"
    by (cases opn; cases ws) (auto simp: la_pair_def farcall_pair_def dest: arg_cong [where f = length])
qed

lemma op_template_take: "op_template opn ws \<Longrightarrow> op_template opn (take (op_words opn) ws)"
  by (cases opn) simp_all

text \<open>The words of emitted instructions.\<close>

lemma read32_raw: "read32 0 (instr_raw w @ r) = w"
proof -
  have "(ucast (take_bit 32 (ucast w :: u128)) :: u32) = w"
    by (rule bit_word_eqI) (auto simp: bit_simps)
  then show ?thesis by (simp add: read32_def instr_raw_def le_value_le_bytes)
qed

lemma read32_drop: "read32 (a + i) bs = read32 i (drop a bs)"
  by (simp add: read32_def add.commute)

lemma words_emitted:
  assumes "drop (unat (loc_offset l)) (bytes_of s l) = concat (map instr_raw ws) @ rest" and "k \<le> length ws"
  shows "words_at k l s = take k ws"
proof (rule nth_equalityI)
  fix i assume "i < length (words_at k l s)"
  then have i: "i < k" by simp
  have "read32 (unat (loc_offset l) + 4 * i) (bytes_of s l) = read32 0 (drop (i * 4) (concat (map instr_raw ws) @ rest))"
    unfolding assms(1) [symmetric] by (simp add: read32_def add.commute mult.commute)
  also have "\<dots> = read32 0 (instr_raw (ws ! i) @ concat (map instr_raw (drop (Suc i) ws)) @ rest)"
    by (subst drop_block) (use i assms(2) in \<open>simp_all add: instr_raw_def\<close>)
  also have "\<dots> = ws ! i" by (rule read32_raw)
  finally show "words_at k l s ! i = take k ws ! i" using i assms(2) by (simp add: words_at_def)
qed (use assms(2) in simp)

end
