(* ===== verification/Sound.thy ===== *)
theory Sound
  imports Patches
begin

text \<open>
  The assembly keeps the patches intact: a token at a time, through included files, up to
  the end of the program.
\<close>

section \<open>One opcode\<close>

lemma current_location_end:
  assumes "wf_assembler s"
  shows "unat (loc_offset (current_location s)) = length (bytes_of s (current_location s))"
proof -
  obtain sec where "current_section s = sec" and ok: "section_ok sec" by (rule wf_current [OF assms])
  then show ?thesis
    by (simp add: current_location_def SymbolLocation_new_def bytes_of_def unat_Section_size
        flip: current_section_def)
qed

lemma appends_extend:
  assumes "appends bs s s'"
  shows "bytes_extend s s'"
  unfolding bytes_extend_def
proof
  fix n
  show "\<exists>xs. sec_output (the_section s' n) = sec_output (the_section s n) @ xs"
  proof (cases "n = m_current_section s")
    case True
    then show ?thesis using assms by (auto simp: appends_def cur_bytes_def current_section_def)
  next
    case False
    then show ?thesis using assms by (auto simp: appends_def the_section_def)
  qed
qed

lemma appends_bytes:
  assumes "appends bs s s'" and "loc_section l = m_current_section s"
  shows "bytes_of s' l = bytes_of s l @ bs"
proof -
  have "m_current_section s' = loc_section l" using assms by (simp add: appends_def)
  then show ?thesis using assms by (simp add: appends_def cur_bytes_def bytes_of_def current_section_def)
qed

lemma emitted_patches:
  assumes wf: "wf_assembler s" and ok: "patches_ok s"
    and same: "m_sections s2 = m_sections s" "m_current_section s2 = m_current_section s"
    and sched: "schedules_at (current_location s) il (m_schedule s) (m_schedule s2)"
    and il: "il \<noteq> []" and app: "appends (concat (map instr_raw il)) s2 s'"
  shows "patches_ok s'"
proof -
  let ?l = "current_location s"
  have same2: "the_section s2 n = the_section s n" for n by (simp add: the_section_def find_section_def same)
  then have ext: "bytes_extend s s'" using appends_extend [OF app] by (simp add: bytes_extend_def)
  have sch: "m_schedule s' = m_schedule s2" using app by (simp add: appends_def)
  have bytes: "bytes_of s' ?l = bytes_of s ?l @ concat (map instr_raw il)"
    using appends_bytes [OF app, of ?l] by (simp add: same bytes_of_def same2)
  consider "m_schedule s' = m_schedule s"
    | n opn where "m_schedule s' = put_op n opn (m_schedule s)" "op_place opn = Some ?l" "op_template opn il"
    using sched unfolding schedules_at_def sch by blast
  then show ?thesis
  proof cases
    case 1
    then show ?thesis using patches_extend [OF ext _ ok] by simp
  next
    case (2 n opn)
    have words: "op_words opn \<le> length il" using op_template_words 2 il by blast
    have "words_at (op_words opn) ?l s' = take (op_words opn) il"
      by (rule words_emitted [OF _ words, where rest = "[]"]) (simp add: bytes current_location_end [OF wf])
    then have fits: "op_fits s' opn"
      using words op_template_take 2 by (simp add: op_fits_def bytes current_location_end [OF wf])
    show ?thesis
      by (rule patches_schedule [OF _ ok ext 2(1) fits])
        (use wf 2(2) in \<open>auto simp: wf_assembler_def current_location_end [OF wf]\<close>)
  qed
qed

lemma handler_words_positive: "0 < handler_words opc"
  by (cases opc) simp_all

lemma assemble_opcode_patches:
  assumes wf: "wf_assembler s" and ok: "patches_ok s" and tpl: "template_ok opc"
    and run: "assemble_opcode opc s = Inr (a, s')"
  shows "patches_ok s'"
proof -
  obtain s1 il s2 where al: "align_with_labels 4 s = Inr ((), s1)"
    and h: "opcode_handler opc s1 = Inr (il, s2)" and em: "forM il emit_instr s2 = Inr (a, s')"
    using run by (auto simp: assemble_opcode_def bindM_Inr_iff)
  have wf1: "wf_assembler s1" using keepsD [OF align_with_labels_evolves al] wf by (simp add: evolves_def)
  have "extends s s1" using align_with_labels_extends [of 4] al by (auto dest: keepsD)
  then have ok1: "patches_ok s1" using wf ok by (auto simp: extends_def intro: patches_extend)
  have plan: "plans 0 s1 s2 \<or> plans (4 * handler_words opc) s1 s2" using opcode_handler_plans h by (blast dest: keepsD)
  have words: "code_words (handler_words opc) il" using opcode_handler_words [OF tpl] h by (rule yieldsD)
  show ?thesis
  proof (rule emitted_patches [OF wf1 ok1])
    show "m_sections s2 = m_sections s1" "m_current_section s2 = m_current_section s1"
      using plan by (auto simp: plans_def)
    show "il \<noteq> []" using words handler_words_positive [of opc] by (auto simp: code_words_def)
    show "appends (concat (map instr_raw il)) s2 s'" using emit_all_appends em words by (simp add: code_words_def)
  qed (rule handler_schedules [OF h])
qed

section \<open>Scheduling without instructions\<close>

lemma schedule_patches:
  assumes wf: "wf_assembler s" and ok: "patches_ok s" and opn: "op_place opn = None"
    and run: "schedule n opn s = Inr (a, s')"
  shows "patches_ok s'"
proof -
  have s': "s' = s\<lparr>m_schedule := put_op n opn (m_schedule s)\<rparr>" using run schedule_run by simp
  have "bytes_extend s s'" by (auto simp: bytes_extend_def s' the_section_def find_section_def)
  moreover have "op_fits s' opn" by (simp add: op_fits_def opn)
  ultimately show ?thesis
    by (intro patches_schedule [OF _ ok, of s' n opn]) (use wf opn in \<open>simp_all add: s' wf_assembler_def\<close>)
qed

lemma dir_size_patches:
  assumes wf: "wf_assembler s" and ok: "patches_ok s" and run: "dir_size s = Inr (a, s')"
  shows "patches_ok s'"
proof -
  obtain tk s1 s2 s3 where tk: "next_tk TK_SYMBOL s = Inr (tk, s1)"
    and al: "align_with_labels 4 s1 = Inr ((), s2)"
    and sch: "schedule (tk_value tk) (Op_size (current_location s2) (current_location s1)) s2 = Inr ((), s3)"
    and out: "add_output OT_DATA (le_bytes 4 0) s3 = Inr (a, s')"
    using run by (auto simp: dir_size_def bindM_Inr_iff)
  let ?l = "current_location s2" and ?opn = "Op_size (current_location s2) (current_location s1)"
  have "extends s s1" "extends s1 s2"
    using keepsD [OF next_tk_extends tk] keepsD [OF align_with_labels_extends [of 4] al] by simp_all
  then have x2: "extends s s2" by (rule extension.R_trans)
  then have wf2: "wf_assembler s2" and ok2: "patches_ok s2"
    using wf ok by (auto simp: extends_def evolves_def intro: patches_extend)
  have s3: "s3 = s2\<lparr>m_schedule := put_op (tk_value tk) ?opn (m_schedule s2)\<rparr>" using sch schedule_run by simp
  have app: "appends (le_bytes 4 0) s3 s'" using out by (rule add_output_appends)
  have ext: "bytes_extend s2 s'"
    using appends_extend [OF app] by (simp add: bytes_extend_def s3 the_section_def find_section_def)
  have bytes: "bytes_of s' ?l = bytes_of s2 ?l @ le_bytes 4 0"
    using appends_bytes [OF app, of ?l] by (simp add: s3 bytes_of_def the_section_def find_section_def)
  have "op_fits s' ?opn" by (simp add: op_fits_def bytes current_location_end [OF wf2])
  then show ?thesis
    by (intro patches_schedule [OF _ ok2 ext, of "tk_value tk" ?opn])
      (use wf2 app in \<open>auto simp: appends_def s3 wf_assembler_def current_location_end [OF wf2]\<close>)
qed

section \<open>Tokens that do not shrink a section\<close>

text \<open>
  \<^verbatim>\<open>.align 0\<close> empties the current section, and an alignment or a reservation near
  \<open>2 ^ 64\<close> wraps around to a smaller size. Programs without them are calm: the tokens after
  \<^verbatim>\<open>.align\<close> and after the reservations are within bounds.
\<close>

definition calm_operand :: "Token \<Rightarrow> Token \<Rightarrow> bool" where
  "calm_operand tk c \<longleftrightarrow>
     (tk_type tk = TK_DIRECTIVE \<and> tk_value tk = ''.align'' \<longrightarrow> 0 < u64_of c \<and> u64_of c \<le> 2 ^ 62) \<and>
     (tk_payload tk \<in> PseudoOpPtr ` {RESV_8, RESV_16, RESV_32, RESV_64, RESV_128} \<longrightarrow> u64_of c \<le> 2 ^ 58)"

definition calm :: "Token list \<Rightarrow> bool" where
  "calm tks \<longleftrightarrow> successively calm_operand tks"

definition calm_files :: "Environment \<Rightarrow> bool" where
  "calm_files env \<longleftrightarrow> (\<forall>filename rpath contents tks.
     load_file env filename rpath = Inr contents \<longrightarrow> split contents = Inr tks \<longrightarrow> calm tks)"

definition sound :: "Assembler \<Rightarrow> bool" where
  "sound s \<longleftrightarrow> wf_assembler s \<and> patches_ok s"

text \<open>The cursor is behind a token of a calm program.\<close>

definition follows :: "Token \<Rightarrow> Assembler \<Rightarrow> bool" where
  "follows tk s \<longleftrightarrow> calm (tokens s) \<and> 0 < index s \<and> index s \<le> length (tokens s) \<and> tokens s ! (index s - 1) = tk"

lemma follows_next:
  assumes "follows tk s" and "next_tk T s = Inr (c, s1)"
  shows "calm_operand tk c"
proof -
  obtain i where i: "index s = Suc i" using assms(1) by (cases "index s") (auto simp: follows_def)
  have "Suc i < length (tokens s)" "c = tokens s ! Suc i" using next_tk_run [OF assms(2)] by (simp_all add: i)
  then show ?thesis using assms(1) by (auto simp: follows_def calm_def successively_conv_nth i)
qed

lemma extends_sound: "extends s s' \<Longrightarrow> sound s \<Longrightarrow> sound s'"
  by (auto simp: extends_def evolves_def sound_def intro: patches_extend)

lemma keeps_sound: "keeps extends m \<Longrightarrow> m s = Inr (a, s') \<Longrightarrow> sound s \<Longrightarrow> sound s'"
  by (blast dest: keepsD intro: extends_sound)

lemma frame_sound: "sound (s\<lparr>tokens := tv, index := i, m_realpath := rp\<rparr>) = sound s"
proof -
  have "extends s (s\<lparr>tokens := tv, index := i, m_realpath := rp\<rparr>)"
    "extends (s\<lparr>tokens := tv, index := i, m_realpath := rp\<rparr>) s"
    by (auto simp: extends_def bytes_extend_def the_section_def find_section_def intro!: evolves_same_tables)
  then show ?thesis by (blast intro: extends_sound)
qed

section \<open>One token\<close>

lemma liftR_Inr_iff: "liftR r s = Inr (a, s') \<longleftrightarrow> r = Inr a \<and> s' = s"
  by (cases r) auto

lemma dir_align_sound:
  assumes "sound s" and "follows tk s" and "tk_type tk = TK_DIRECTIVE" "tk_value tk = ''.align''"
    and run: "dir_align s = Inr (a, s')"
  shows "sound s'"
proof -
  obtain c s1 where c: "next_tk TK_CONSTANT s = Inr (c, s1)" and al: "align (u64_of c) s1 = Inr (a, s')"
    using run by (auto simp: dir_align_def bindM_Inr_iff)
  have "0 < u64_of c" "u64_of c \<le> 2 ^ 62" using follows_next [OF assms(2) c] assms(3,4) by (simp_all add: calm_operand_def)
  then have "keeps extends (align (u64_of c))" by (rule align_extends)
  then have "extends s1 s'" using al by (rule keepsD)
  then show ?thesis using keeps_sound [OF next_tk_extends c assms(1)] by (rule extends_sound)
qed

lemma schedules_sound:
  assumes "sound s" and "op_place opn = None" and "op_sections opn \<subseteq> section_names s" and "schedule n opn s = Inr (a, s')"
  shows "sound s'"
proof -
  have "evolves s s'" by (rule schedule_evolves [OF _ assms(4)]) (rule assms(3))
  moreover have "patches_ok s'" using schedule_patches [OF _ _ assms(2,4)] assms(1) by (simp add: sound_def)
  ultimately show ?thesis using assms(1) by (simp add: sound_def evolves_def)
qed

lemma dir_endfunc_sound:
  assumes "sound s" and "dir_endfunc s = Inr (a, s')"
  shows "sound s'"
proof -
  obtain tk s1 where tk: "next_tk TK_SYMBOL s = Inr (tk, s1)"
    and sch: "schedule (tk_value tk) (Op_endfunc (current_location s1)) s1 = Inr (a, s')"
    using assms(2) by (auto simp: dir_endfunc_def bindM_Inr_iff)
  have s1: "sound s1" by (rule keeps_sound [OF next_tk_extends tk assms(1)])
  show ?thesis
    by (rule schedules_sound [OF s1 _ _ sch]) (use s1 in \<open>simp_all add: sound_def wf_assembler_def\<close>)
qed

lemma dir_type_sound:
  assumes "sound s" and "dir_type s = Inr (a, s')"
  shows "sound s'"
proof -
  obtain tk info s1 s2 t where tk: "next_tk TK_SYMBOL s = Inr (tk, s1)" and info: "next_tk TK_SYMBOL s1 = Inr (info, s2)"
    and sch: "schedule (tk_value tk) (Op_set_type t) s2 = Inr (a, s')"
    using assms(2) by (auto simp: dir_type_def bindM_Inr_iff symbol_set_type_def split: if_splits)
  have "sound s2" using assms(1) keeps_sound [OF next_tk_extends tk] keeps_sound [OF next_tk_extends info] by blast
  then show ?thesis by (rule schedules_sound [OF _ _ _ sch]) simp_all
qed

lemma dir_size_sound:
  assumes "sound s" and "dir_size s = Inr (a, s')"
  shows "sound s'"
  using assms dir_size_patches keepsD [OF dir_size_evolves assms(2)] by (auto simp: sound_def evolves_def)

lemmas plain_directive_defs = dir_global_def dir_section_def dir_org_def dir_string_def dir_strlen_def dir_ascii_def

lemma plain_directives_extend:
  "keeps extends dir_global" "keeps extends dir_section" "keeps extends dir_org"
  "keeps extends dir_string" "keeps extends dir_strlen" "keeps extends dir_ascii"
  "keeps extends (align_with_labels 0)"
  unfolding plain_directive_defs
  by (intro extension.keeps_intros primitive_extends flags_extend; simp)+

text \<open>What is asked of the nested assembly.\<close>

definition assembles_soundly :: "(Token list \<Rightarrow> string option \<Rightarrow> unit M) \<Rightarrow> bool" where
  "assembles_soundly asm \<longleftrightarrow> (\<forall>tks rp s a s'. calm tks \<longrightarrow> (\<forall>tk \<in> set tks. token_ok tk) \<longrightarrow>
     asm tks rp s = Inr (a, s') \<longrightarrow> sound s \<longrightarrow> sound s')"

lemma include_sound:
  assumes asm: "assembles_soundly asm"
    and files: "calm_files env" and "sound s" and run: "dir_include env asm s = Inr (a, s')"
  shows "sound s'"
proof -
  obtain tk s1 contents tks where tk: "next_tk TK_STRING s = Inr (tk, s1)"
    and load: "load_file env (tk_value tk) (m_realpath s1) = Inr contents" and sp: "split contents = Inr tks"
    and a: "asm tks (get_realpath env (c_str (tk_value tk))) s1 = Inr (a, s')"
    using run unfolding dir_include_def bindM_Inr_iff liftR_Inr_iff getM_run by auto
  have "calm tks" using files load sp unfolding calm_files_def by blast
  moreover have "\<forall>tk \<in> set tks. token_ok tk" using split_ok [OF sp] by blast
  ultimately show ?thesis using asm a keeps_sound [OF next_tk_extends tk \<open>sound s\<close>] unfolding assembles_soundly_def by blast
qed

lemma directive_sound:
  assumes asm: "assembles_soundly asm"
    and files: "calm_files env" and s: "sound s" and tk: "follows tk s" "tk_type tk = TK_DIRECTIVE"
    and run: "directive env asm tk s = Inr (a, s')"
  shows "sound s'"
proof -
  consider "tk_value tk = ''.align''" "dir_align s = Inr (a, s')" | "dir_endfunc s = Inr (a, s')"
    | "dir_include env asm s = Inr (a, s')" | "dir_type s = Inr (a, s')" | "dir_size s = Inr (a, s')"
    | m where "keeps extends m" "m s = Inr (a, s')"
    using run plain_directives_extend flags_extend extension.keeps_return [of "()"]
    unfolding directive_def Let_def by (simp only: split: if_splits)
  then show ?thesis
  proof cases
    case 1
    then show ?thesis by (intro dir_align_sound [OF s tk])
  next
    case 2
    then show ?thesis by (rule dir_endfunc_sound [OF s])
  next
    case 3
    then show ?thesis by (rule include_sound [OF asm files s])
  next
    case 4
    then show ?thesis by (rule dir_type_sound [OF s])
  next
    case 5
    then show ?thesis by (rule dir_size_sound [OF s])
  next
    case 6
    then show ?thesis by (rule keeps_sound [OF _ _ s])
  qed
qed

text \<open>Reservations.\<close>

lemma reservation_extends:
  assumes "u64_of c \<le> 2 ^ 58" and "w \<in> {1, 2, 4, 8, 16}"
  shows "keeps extends (allocate (u64_of c * w))"
proof (rule allocate_extends)
  have c: "unat (u64_of c) \<le> 2 ^ 58" using assms(1) by (simp add: word_le_nat_alt)
  moreover have "unat w \<le> 16" using assms(2) by auto
  ultimately have le: "unat (u64_of c) * unat w \<le> 2 ^ 58 * 16" by (rule mult_le_mono)
  then have "unat (u64_of c * w) = unat (u64_of c) * unat w" by (simp add: unat_word_ariths)
  with le show "u64_of c * w \<le> 2 ^ 62" by (simp add: word_le_nat_alt)
qed

lemma reservation_form:
  assumes "p \<in> {RESV_8, RESV_16, RESV_32, RESV_64, RESV_128}"
  obtains k w where "pseudo_handler env p = bindM (next_tk TK_CONSTANT) (\<lambda>c.
      thenM (if k = 1 then returnM () else align_with_labels k) (allocate (u64_of c * w)))"
    and "k \<le> 2 ^ 62" and "w \<in> {1, 2, 4, 8, 16}"
proof -
  have "RESV_8_handler = bindM (next_tk TK_CONSTANT) (\<lambda>c.
      thenM (if (1::u64) = 1 then returnM () else align_with_labels 1) (allocate (u64_of c * 1)))"
    by (simp add: RESV_8_handler_def bindM_def)
  moreover have "(1::u64) \<le> 2 ^ 62" "(2::u64) \<le> 2 ^ 62" "(4::u64) \<le> 2 ^ 62" "(8::u64) \<le> 2 ^ 62" "(16::u64) \<le> 2 ^ 62"
    by (simp_all add: word_le_nat_alt)
  ultimately show thesis
    using assms that [of 1 1] that [of 2 2] that [of 4 4] that [of 8 8] that [of 16 16]
    by (auto simp: pseudo_defs)
qed

lemma pseudo_sound:
  assumes s: "sound s" and tk: "follows tk s" "tk_payload tk = PseudoOpPtr p"
    and run: "pseudo_handler env p s = Inr (a, s')"
  shows "sound s'"
proof (cases "p \<in> {RESV_8, RESV_16, RESV_32, RESV_64, RESV_128}")
  case False
  then have "keeps extends (pseudo_handler env p)" by (cases p) (simp_all add: data_handler_extends del: pseudo_handler.simps)
  then have "extends s s'" using run by (rule keepsD)
  then show ?thesis using s by (rule extends_sound)
next
  case True
  then obtain k w where form: "pseudo_handler env p = bindM (next_tk TK_CONSTANT) (\<lambda>c.
      thenM (if k = 1 then returnM () else align_with_labels k) (allocate (u64_of c * w)))"
    and k: "k \<le> 2 ^ 62" and w: "w \<in> {1, 2, 4, 8, 16}"
    by (rule reservation_form)
  obtain c s1 where c: "next_tk TK_CONSTANT s = Inr (c, s1)"
    and run1: "thenM (if k = 1 then returnM () else align_with_labels k) (allocate (u64_of c * w)) s1 = Inr (a, s')"
    using run unfolding form bindM_Inr_iff by blast
  have "u64_of c \<le> 2 ^ 58" using follows_next [OF tk(1) c] True by (auto simp: calm_operand_def tk(2))
  then have "keeps extends (thenM (if k = 1 then returnM () else align_with_labels k) (allocate (u64_of c * w)))"
    by (intro extension.keeps_intros align_with_labels_extends reservation_extends k w)
  then have "extends s1 s'" using run1 by (rule keepsD)
  then show ?thesis using keeps_sound [OF next_tk_extends c s] by (rule extends_sound)
qed

lemma assemble_token_sound:
  assumes asm: "assembles_soundly asm"
    and files: "calm_files env" and s: "sound s" and tk: "follows tk s" "token_ok tk"
    and run: "assemble_token env asm tk s = Inr (a, s')"
  shows "sound s'"
proof (cases "tk_type tk")
  case TK_DIRECTIVE
  then have "directive env asm tk s = Inr (a, s')" using run by (simp add: assemble_token_def)
  then show ?thesis by (rule directive_sound [OF asm files s tk(1) TK_DIRECTIVE])
next
  case TK_LABEL
  then have "add_label_soon (tk_value tk) s = Inr (a, s')" using run by (simp add: assemble_token_def)
  then show ?thesis by (rule keeps_sound [OF add_label_soon_extends _ s])
next
  case TK_OPCODE
  then obtain opc where opc: "tk_payload tk = OpcodePtr opc" and run': "assemble_opcode opc s = Inr (a, s')"
    using run by (cases "tk_payload tk") (auto simp: assemble_token_def)
  have "template_ok opc" using tk(2) opc opcode_list_template_ok by (auto simp: token_ok_def)
  then show ?thesis
    using s assemble_opcode_patches [OF _ _ _ run'] keepsD [OF assemble_opcode_evolves run']
    by (auto simp: sound_def evolves_def)
next
  case TK_PSEUDOOP
  then obtain p where "tk_payload tk = PseudoOpPtr p" and "pseudo_handler env p s = Inr (a, s')"
    using run by (cases "tk_payload tk") (auto simp: assemble_token_def)
  then show ?thesis using pseudo_sound s tk(1) by blast
qed (use run in \<open>simp_all add: assemble_token_def\<close>)

section \<open>The assembly\<close>

lemma token_loop_sound:
  assumes f: "\<And>tk s a s'. sound s \<Longrightarrow> follows tk s \<Longrightarrow> token_ok tk \<Longrightarrow> f tk s = Inr (a, s') \<Longrightarrow> sound s'"
    and adv: "\<And>tk. keeps advances (f tk)"
    and s: "sound s" "calm (tokens s)" "\<forall>tk \<in> set (tokens s). token_ok tk"
    and run: "token_loop f n s = Inr (a, s')"
  shows "sound s'"
  using s run
proof (induction n arbitrary: s)
  case 0
  then show ?case by (simp add: bindM_Inr_iff split: if_splits)
next
  case (Suc n)
  show ?case
  proof (cases "done_tokens s")
    case True
    then show ?thesis using Suc.prems(1,4) by (simp add: bindM_def)
  next
    case False
    then obtain tk s1 s2 where tk: "next_token s = Inr (tk, s1)" and step: "f tk s1 = Inr ((), s2)"
      and rest: "token_loop f n s2 = Inr (a, s')"
      using Suc.prems(4) by (auto simp: bindM_Inr_iff)
    have s1: "s1 = s\<lparr>index := Suc (index s)\<rparr>" "index s < length (tokens s)" "tk = tokens s ! index s"
      using tk by (auto simp: next_token_def split: if_splits)
    have "sound s1" by (rule keeps_sound [OF moves_extends [OF next_token_moves] tk Suc.prems(1)])
    moreover have "follows tk s1" "token_ok tk" using Suc.prems(2,3) s1 by (simp_all add: follows_def)
    ultimately have "sound s2" using f step by blast
    moreover have "tokens s2 = tokens s" using keepsD [OF adv step] by (simp add: advances_def s1)
    ultimately show ?thesis using Suc.IH rest Suc.prems(2,3) by simp
  qed
qed

lemma assemble_sound:
  assumes files: "calm_files env"
  shows "assembles_soundly (assemble env depth)"
proof (induction depth)
  case 0
  then show ?case by (simp add: assembles_soundly_def)
next
  case (Suc depth)
  show ?case
    unfolding assembles_soundly_def
  proof (intro allI impI)
    fix tks rp s a s'
    assume prems: "calm tks" "\<forall>tk \<in> set tks. token_ok tk" "assemble env (Suc depth) tks rp s = Inr (a, s')" "sound s"
    let ?s = "s\<lparr>tokens := tks, index := 0, m_realpath := rp\<rparr>"
    obtain s1 where loop: "token_loop (assemble_token env (assemble env depth)) (length tks) ?s = Inr ((), s1)"
      and s': "s' = s1\<lparr>tokens := tokens s, index := index s, m_realpath := m_realpath s\<rparr>"
      using prems(3) by (auto simp: bindM_Inr_iff split: if_splits)
    have "sound s1"
    proof (rule token_loop_sound [OF _ _ _ _ _ loop])
      show "sound u'" if "sound u" "follows tk u" "token_ok tk" "assemble_token env (assemble env depth) tk u = Inr (b, u')"
        for tk u b u'
        by (rule assemble_token_sound [OF Suc.IH files that])
    qed (use prems in \<open>simp_all add: frame_sound assemble_token_advances assemble_advances\<close>)
    then show "sound s'" by (simp add: s' frame_sound)
  qed
qed

lemma sound_new: "sound (Assembler_new opt)"
  using wf_Assembler_new by (simp add: sound_def patches_ok_def all_ops_def Assembler_new_def)

lemma main_loop_sound:
  assumes files: "calm_files env" and run: "main_loop env depth argv s = Inr (a, s')" and "sound s"
  shows "sound s'"
proof -
  have step: "sound t'" if "assemble_file env depth f t = Inr (b, t')" "sound t" for f t b t'
  proof -
    note run = that(1)
    obtain contents tks where load: "load_file env f None = Inr contents" and sp: "split contents = Inr tks"
      and a: "assemble env depth tks (get_realpath env (c_str f)) t = Inr (b, t')"
      using run unfolding assemble_file_def bindM_Inr_iff liftR_Inr_iff by auto
    have "calm tks" using files load sp unfolding calm_files_def by blast
    then show ?thesis using assemble_sound [OF files] a that(2) split_ok [OF sp]
      unfolding assembles_soundly_def by blast
  qed
  have "sound t'" if "forM xs (\<lambda>i. assemble_file env depth (argv ! 1)) t = Inr (b, t')" "sound t" for xs :: "nat list" and t b t'
    using that by (induction xs arbitrary: t) (auto simp: bindM_Inr_iff intro: step)
  then show ?thesis using run \<open>sound s\<close> by (auto simp: main_loop_def)
qed

end
