(* ===== verification/Landing.thy ===== *)
theory Landing
  imports Sound
begin

text \<open>
  What one scheduled operation does to the sections: it rewrites its own words and no
  others, and leaves in them the instructions that reach its symbol.
\<close>

section \<open>What an operation touches\<close>

definition in_range :: "SymbolLocation \<Rightarrow> nat \<Rightarrow> nat \<Rightarrow> bool" where
  "in_range l k i \<longleftrightarrow> unat (loc_offset l) \<le> i \<and> i + 4 \<le> unat (loc_offset l) + 4 * k"

definition touches :: "SymbolLocation \<Rightarrow> nat \<Rightarrow> Assembler \<Rightarrow> Assembler \<Rightarrow> bool" where
  "touches l k s s' \<longleftrightarrow> (reaches s l (4 * k) \<longrightarrow>
     length (bytes_of s' l) = length (bytes_of s l) \<and>
     (\<forall>n. n \<noteq> loc_section l \<longrightarrow> the_section s' n = the_section s n) \<and>
     (\<forall>i. i + 4 \<le> length (bytes_of s l) \<longrightarrow> i + 4 \<le> unat (loc_offset l) \<or> unat (loc_offset l) + 4 * k \<le> i \<longrightarrow>
        read32 i (bytes_of s' l) = read32 i (bytes_of s l)))"

interpretation touching: state_preorder "touches l k" for l k
  by unfold_locales (auto simp: touches_def reaches_def)

lemma touches_location:
  assumes "unat off + 4 \<le> 4 * k" and "\<And>i. in_range l k i \<Longrightarrow> keeps (touches l k) (f i)"
  shows "keeps (touches l k) (bindM (at_location l off) f)"
proof (rule keepsI)
  fix s a s' assume run: "bindM (at_location l off) f s = Inr (a, s')"
  show "touches l k s s'"
  proof (cases "reaches s l (4 * k)")
    case True
    have "f (cell_at l off) s = Inr (a, s')" using run by (auto simp: bindM_Inr_iff at_location_run split: if_splits)
    moreover have "in_range l k (cell_at l off)"
      using cell_at_offset [OF True, of off] assms(1) by (simp add: in_range_def)
    ultimately show ?thesis using assms(2) by (blast dest: keepsD)
  qed (simp add: touches_def)
qed

lemma touches_patch:
  assumes "in_range l k i"
  shows "keeps (touches l k) (patch_cell l i f)"
proof (rule keepsI)
  fix s a s' assume run: "patch_cell l i f s = Inr (a, s')"
  show "touches l k s s'"
  proof (cases "reaches s l (4 * k)")
    case True
    have i: "cell_in (bytes_of s l) i" using True assms by (simp add: reaches_def in_range_def cell_in_def)
    then have s': "s' = with_bytes l (patch32 i f) s" using run patch_cell_in by simp
    have "read32 j (patch32 i f (bytes_of s l)) = read32 j (bytes_of s l)"
      if "j + 4 \<le> length (bytes_of s l)" "j + 4 \<le> unat (loc_offset l) \<or> unat (loc_offset l) + 4 * k \<le> j" for j
      by (rule read_patch32_apart [OF i]) (use that assms in \<open>auto simp: cell_in_def cells_apart_def in_range_def\<close>)
    then show ?thesis
      using i by (auto simp: touches_def s' length_patch32 cell_in_def) (simp_all add: with_bytes_def)
  qed (simp add: touches_def)
qed

lemma touches_read: "keeps (touches l k) (read_cell l i)"
  unfolding read_cell_def cell_access_def by (intro touching.keeps_intros)

lemma touches_symbol: "keeps (touches l k) (update_symbol n f)"
  unfolding update_symbol_def
  by (intro touching.keeps_modify) (simp add: touches_def bytes_of_def the_section_def find_section_def)

lemma touches_set_uint32:
  assumes "unat off + 8 \<le> 4 * k" and "unat (off + 4) = unat off + 4"
  shows "keeps (touches l k) (set_uint32 l off v)"
  unfolding set_uint32_def
  by (intro touching.keeps_intros touches_location touches_patch touches_read) (use assms in simp_all)

lemmas touches_intros = touches_location touches_patch touches_read touches_symbol touches_set_uint32 touching.keeps_intros

lemma fixups_touch:
  "keeps (touches l 2) (fix_la l tgt)" "keeps (touches l 14) (fix_laq l tgt)" "keeps (touches l 1) (fix_branch l tgt)"
  "keeps (touches l 2) (fix_farcall l tgt)" "keeps (touches l 1) (fix_jump l tgt)" "keeps (touches l 1) (fix_size l d n tgt)"
  unfolding fix_size_def fix_la_def fix_laq_def fix_branch_def fix_farcall_def fix_jump_def
    bounds_check_jump_def token_exception_def Let_def
  by (intro touches_intros; simp)+

lemma run_op_touches:
  "op_place opn = Some l \<Longrightarrow> keeps (touches l (op_words opn)) (run_op n tgt opn)"
  by (cases opn) (simp_all add: fixups_touch fixups_touch [unfolded One_nat_def])

text \<open>The two operations without a place.\<close>

lemma run_op_placeless:
  assumes "op_place opn = None" and "run_op n tgt opn s = Inr (a, s')"
  shows "m_sections s' = m_sections s"
  using assms by (cases opn) (auto simp: update_symbol_def bindM_Inr_iff)

section \<open>Apart\<close>

lemma words_touched:
  assumes t: "touches l k s s'" "reaches s l (4 * k)" and fits: "unat (loc_offset l') + 4 * j \<le> length (bytes_of s l')"
    and apart: "loc_section l = loc_section l' \<Longrightarrow>
      unat (loc_offset l) + 4 * k \<le> unat (loc_offset l') \<or> unat (loc_offset l') + 4 * j \<le> unat (loc_offset l)"
  shows "words_at j l' s' = words_at j l' s"
proof (cases "loc_section l = loc_section l'")
  case False
  then have "bytes_of s' l' = bytes_of s l'" using t by (simp add: touches_def bytes_of_def)
  then show ?thesis by (simp add: words_at_def)
next
  case True
  then have same: "bytes_of t l' = bytes_of t l" for t by (simp add: bytes_of_def)
  have "read32 (unat (loc_offset l') + 4 * i) (bytes_of s' l) = read32 (unat (loc_offset l') + 4 * i) (bytes_of s l)"
    if "i < j" for i
    using t fits apart [OF True] that unfolding touches_def same by auto
  then show ?thesis by (simp add: words_at_def same)
qed

lemma fits_reaches:
  assumes "wf_assembler s" and "op_fits s opn" and "op_place opn = Some l"
  shows "reaches s l (4 * op_words opn)"
proof -
  have "section_ok (the_section s (loc_section l))"
    using wf_section_ok [OF assms(1)] by (auto simp: the_section_def section_ok_def Section_new_def split: option.splits)
  then have "length (bytes_of s l) < 2 ^ 63" using section_ok_less by (simp add: bytes_of_def)
  then show ?thesis using assms(2,3) by (simp add: op_fits_def reaches_def)
qed

definition op_room :: "Assembler \<Rightarrow> scheduled_op \<Rightarrow> bool" where
  "op_room s opn \<longleftrightarrow> (\<forall>l. op_place opn = Some l \<longrightarrow> unat (loc_offset l) + 4 * op_words opn \<le> length (bytes_of s l))"

lemma fits_room: "op_fits s opn \<Longrightarrow> op_room s opn"
  by (simp add: op_fits_def op_room_def)

lemma resolves_room: "resolves s s' \<Longrightarrow> op_room s' opn = op_room s opn"
  by (simp add: op_room_def bytes_of_def resolves_length)

lemma run_op_others:
  assumes wf: "wf_assembler s" and fits: "op_fits s opn" and room: "op_room s other" and apart: "ops_apart opn other"
    and run: "run_op n tgt opn s = Inr (a, s')" and l': "op_place other = Some l'"
  shows "words_at (op_words other) l' s' = words_at (op_words other) l' s"
proof (cases "op_place opn")
  case None
  then show ?thesis
    using run_op_placeless [OF _ run] by (simp add: words_at_def bytes_of_def the_section_def find_section_def)
next
  case (Some l)
  show ?thesis
  proof (rule words_touched)
    show "touches l (op_words opn) s s'" using run_op_touches [OF Some] run by (rule keepsD)
    show "reaches s l (4 * op_words opn)" by (rule fits_reaches [OF wf fits Some])
  qed (use room apart Some l' in \<open>auto simp: op_room_def ops_apart_def\<close>)
qed

lemma run_op_fits:
  assumes wf: "wf_assembler s" and fits: "op_fits s opn" and other: "op_fits s other" and apart: "ops_apart opn other"
    and run: "run_op n tgt opn s = Inr (a, s')"
  shows "op_fits s' other"
  using other run_op_others [OF wf fits fits_room [OF other] apart run]
    resolves_length [OF keepsD [OF run_op_resolves run]]
  by (simp add: op_fits_def bytes_of_def)

section \<open>What each operation achieves\<close>

text \<open>
  The words at the place of an operation, when the place and the symbol have these
  addresses: a branch and a jump arrive at the symbol, the sequences of \<^verbatim>\<open>la\<close> and
  \<^verbatim>\<open>laq\<close> put its address into the register they name, and a far call goes where its
  two instructions can take it.
\<close>

definition branch_lands :: "u128 \<Rightarrow> u128 \<Rightarrow> u32 list \<Rightarrow> bool" where
  "branch_lands at tgt ws \<longleftrightarrow> Rtype_opcode (ws ! 0) = RV32I_BRANCH \<and>
     (even (sint (tgt - at)) \<and> - 4096 \<le> sint (tgt - at) \<and> sint (tgt - at) < 4096 \<longrightarrow>
      at + scast (Btype_signed_imm (ws ! 0)) = tgt)"

definition jump_lands :: "u128 \<Rightarrow> u128 \<Rightarrow> u32 list \<Rightarrow> bool" where
  "jump_lands at tgt ws \<longleftrightarrow> Rtype_opcode (ws ! 0) = RV32I_JAL \<and>
     - 2048 \<le> low64 (tgt - at) \<and> low64 (tgt - at) \<le> 2047 \<and>
     (low64 (tgt - at) = sint (tgt - at) \<and> even (sint (tgt - at)) \<longrightarrow>
      at + scast (Jtype_jump_offset (ws ! 0)) = tgt)"

definition la_near :: "u128 \<Rightarrow> u128 \<Rightarrow> bool" where
  "la_near at tgt \<longleftrightarrow> - (2 ^ 31) \<le> sint (tgt - at) \<and> sint (tgt - at) < 2 ^ 31 - 2048"

definition la_low :: "u128 \<Rightarrow> u128 \<Rightarrow> bool" where
  "la_low at tgt \<longleftrightarrow> \<not> is_relatively_close (low64 (tgt - at)) \<and> uint tgt < 2 ^ 31 - 2048"

definition la_loads :: "u128 \<Rightarrow> u128 \<Rightarrow> u32 list \<Rightarrow> bool" where
  "la_loads at tgt ws \<longleftrightarrow> (let r = rd_of (ws ! 0) in
     0 < r \<and> (la_near at tgt \<or> la_low at tgt) \<longrightarrow>
     (\<forall>m. pc m = at \<longrightarrow> exec_all ws m = Some ((set_reg r tgt m)\<lparr>pc := pc m + 8\<rparr>)))"

definition laq_loads :: "u128 \<Rightarrow> u32 list \<Rightarrow> bool" where
  "laq_loads tgt ws \<longleftrightarrow> (let r = rd_of (ws ! 0); t = rd_of (ws ! 2) in
     0 < r \<and> 0 < t \<and> r \<noteq> t \<and> (\<forall>i < 4. tame (limb tgt i)) \<longrightarrow>
     leaves (int r) (int t) (limb_sum tgt) ws)"

definition farcall_goes :: "u128 \<Rightarrow> u32 list \<Rightarrow> bool" where
  "farcall_goes tgt ws \<longleftrightarrow> (0 < rd_of (ws ! 0) \<and> uint tgt < 2 ^ 31 \<and> even (uint tgt) \<longrightarrow>
     (\<forall>m. \<exists>m'. exec_all ws m = Some m' \<and> pc m' = farcall_target tgt \<and> get_reg 1 m' = pc m + 8))"

definition size_cell :: "u128 \<Rightarrow> u128 \<Rightarrow> u128 \<Rightarrow> u32" where
  "size_cell at data tgt = (if tgt < data then ucast (data - tgt) else ucast (tgt - 4 - at))"

fun landed :: "Assembler \<Rightarrow> SymbolLocation \<Rightarrow> scheduled_op \<Rightarrow> bool" where
  "landed s tgt (Op_la l) \<longleftrightarrow> la_loads (location_address s l) (location_address s tgt) (words_at 2 l s)"
| "landed s tgt (Op_laq l) \<longleftrightarrow> laq_loads (location_address s tgt) (words_at 14 l s)"
| "landed s tgt (Op_branch l) \<longleftrightarrow> branch_lands (location_address s l) (location_address s tgt) (words_at 1 l s)"
| "landed s tgt (Op_farcall l) \<longleftrightarrow> farcall_goes (location_address s tgt) (words_at 2 l s)"
| "landed s tgt (Op_call l) \<longleftrightarrow> jump_lands (location_address s l) (location_address s tgt) (words_at 1 l s)"
| "landed s tgt (Op_jmp l) \<longleftrightarrow> jump_lands (location_address s l) (location_address s tgt) (words_at 1 l s)"
| "landed s tgt (Op_size l d) \<longleftrightarrow>
     words_at 1 l s = [size_cell (location_address s l) (location_address s d) (location_address s tgt)]"
| "landed s tgt _ \<longleftrightarrow> True"

lemma words_one: "words_at 1 l s = [read32 (unat (loc_offset l)) (bytes_of s l)]"
  by (simp add: words_at_def)

lemma cell_zero: "cell_at l 0 = unat (loc_offset l)"
  by (simp add: cell_at_def)

lemma distance_addresses: "distance l tgt s = location_address s tgt - location_address s l"
  by (simp add: distance_def)

lemma branch_landed:
  assumes reach: "reaches s l 4" and tpl: "Rtype_opcode (words_at 1 l s ! 0) = RV32I_BRANCH"
    and run: "fix_branch l tgt s = Inr (a, s')"
  shows "branch_lands (location_address s l) (location_address s tgt) (words_at 1 l s')"
proof -
  have "Rtype_opcode (words_at 1 l s' ! 0) = RV32I_BRANCH"
    using fix_branch_word [OF reach run] tpl by (simp add: words_one [unfolded One_nat_def] cell_zero)
  moreover have "location_address s l + scast (Btype_signed_imm (words_at 1 l s' ! 0)) = location_address s tgt"
    if "even (sint (distance l tgt s))" "- 4096 \<le> sint (distance l tgt s)" "sint (distance l tgt s) < 4096"
    by (rule fix_branch_lands [OF reach that(1), of])
      (use that run in \<open>simp_all add: words_one [unfolded One_nat_def] cell_zero\<close>)
  ultimately show ?thesis by (simp add: branch_lands_def flip: distance_addresses)
qed

lemma jump_landed:
  assumes reach: "reaches s l 4" and tpl: "Rtype_opcode (words_at 1 l s ! 0) = RV32I_JAL"
    and run: "fix_jump l tgt s = Inr (a, s')"
  shows "jump_lands (location_address s l) (location_address s tgt) (words_at 1 l s')"
proof -
  let ?d = "low64 (distance l tgt s)"
  have cell: "cell_in (bytes_of s l) (cell_at l 0)" using reaches_cell [OF reach, of 0] by simp
  have range: "- 2048 \<le> ?d" "?d \<le> 2047" and s': "s' = with_bytes l (patch32 (cell_at l 0) (set_Jtype_imm ?d)) s"
    using run fix_jump_run [OF reach, of tgt] by (auto simp: Let_def split: if_splits)
  have "Rtype_opcode (words_at 1 l s' ! 0) = RV32I_JAL"
    using tpl cell by (simp add: s' words_one [unfolded One_nat_def] cell_zero)
  moreover have "location_address s l + scast (Jtype_jump_offset (words_at 1 l s' ! 0)) = location_address s tgt"
    if "?d = sint (distance l tgt s)" "even (sint (distance l tgt s))"
    by (rule fix_jump_lands [OF reach that(2), of])
      (use that range run in \<open>simp_all add: words_one [unfolded One_nat_def] cell_zero\<close>)
  ultimately show ?thesis using range by (simp add: jump_lands_def flip: distance_addresses)
qed

text \<open>Only the low five bits of a register number are used, and they can be read off the first word.\<close>

lemma register_trunc:
  "set_rd (uint (take_bit 5 (word_of_int r :: u32))) w = set_rd r w"
  "set_rs1 (uint (take_bit 5 (word_of_int r :: u32))) w = set_rs1 r w"
  "set_rs2 (uint (take_bit 5 (word_of_int r :: u32))) w = set_rs2 r w"
  by (simp_all add: set_rd_def set_rs1_def set_rs2_def set_field_def)

lemma rd_number: "int (rd_of (set_rd r w)) = uint (take_bit 5 (word_of_int r :: u32))"
  by (simp add: rd_of_def)

lemma rd_small: "rd_of w < 32"
proof -
  have "rd_of w = unat (Rtype_rd w)" by (simp add: rd_of_def)
  also have "Rtype_rd w = take_bit 5 (Rtype_rd w)"
    by (simp add: Rtype_rd_def get_field_def)
  finally show ?thesis
    using take_bit_nat_less_exp [of 5 "unat (Rtype_rd w)"] by (simp add: unsigned_take_bit_eq)
qed

lemma template_trunc:
  "la_pair (uint (take_bit 5 (word_of_int r :: u32))) = la_pair r"
  "farcall_pair (uint (take_bit 5 (word_of_int r :: u32))) = farcall_pair r"
  "build_uint32 (uint (take_bit 5 (word_of_int r :: u32))) v = build_uint32 r v"
  by (simp_all add: la_pair_def farcall_pair_def build_uint32_def register_trunc cong: if_cong)

lemma laq_trunc:
  "laq_instrs (uint (take_bit 5 (word_of_int r :: u32))) (uint (take_bit 5 (word_of_int t :: u32))) = laq_instrs r t"
  by (simp add: laq_instrs_def shift_instr_def add_instr_def template_trunc register_trunc)

lemma la_template_rd: "ws = la_pair r \<Longrightarrow> ws = la_pair (int (rd_of (ws ! 0)))"
  by (simp add: la_pair_def rd_number register_trunc)

lemma farcall_template_rd: "ws = farcall_pair r \<Longrightarrow> ws = farcall_pair (int (rd_of (ws ! 0)))"
  by (simp add: farcall_pair_def rd_number register_trunc)

section \<open>\<^verbatim>\<open>la\<close>\<close>

text \<open>A symbol too far for \<^verbatim>\<open>AUIPC\<close> is loaded from its absolute address.\<close>

lemma absolute_upper:
  fixes addr :: u128
  assumes "uint addr < 2 ^ 31 - 2048"
  shows "uint (drop_bit 12 (addr + ucast (Itype_imm (set_Itype_imm (uint addr) w)))) = upper_part (uint addr)"
proof -
  let ?i = "Itype_imm (set_Itype_imm (uint addr) w)"
  have i: "uint ?i = take_bit 12 (uint addr)" by (rule uint_Itype_set)
  have "take_bit 12 (uint addr) < 2 ^ 12" by (rule take_bit_int_less_exp)
  then have "uint (addr + ucast ?i) = uint addr + take_bit 12 (uint addr)"
    using assms i by (subst uint_plus_simple) (simp_all add: word_le_def unsigned_ucast_eq i uint_word_ariths)
  moreover have "uint (drop_bit 12 x) = drop_bit 12 (uint x)" for x :: u128
    by transfer (simp add: drop_bit_take_bit)
  ultimately show ?thesis by (simp only: upper_part_def)
qed

lemma fix_la_absolute:
  assumes reach: "reaches s loc 8" and low: "la_low (location_address s loc) (location_address s tgt)"
  shows "fix_la loc tgt s = Inr ((), with_bytes loc
    (patch32 (cell_at loc 0) (set_Utype_imm (upper_part (uint (location_address s tgt)))) \<circ>
     patch32 (cell_at loc 4) (set_Itype_imm (uint (location_address s tgt)))) s)"
proof -
  have c: "cell_in (bytes_of s loc) (cell_at loc 0)" "cell_in (bytes_of s loc) (cell_at loc 4)"
    using reaches_cell [OF reach, of 0] reaches_cell [OF reach, of 4] by simp_all
  have far: "\<not> is_relatively_close (low64 (distance loc tgt s))"
    and addr: "uint (location_address s tgt) < 2 ^ 31 - 2048"
    using low by (simp_all add: la_low_def distance_addresses)
  show ?thesis
    using c far
    by (simp add: fix_la_def bindM_def at_location_run patch_cell_in absolute_upper [OF addr]
        read_cell_in with_bytes_with_bytes comp_assoc del: get_same_fields)
      (simp add: cell_in_def)
qed

lemma la_words:
  assumes reach: "reaches s l 8" and run: "fix_la l tgt s = Inr (a, s')"
  shows "la_near (location_address s l) (location_address s tgt) \<Longrightarrow> words_at 2 l s' =
      [set_Utype_imm (upper_part (sint (distance l tgt s))) (set_opcode (uint RV32I_AUIPC) (words_at 2 l s ! 0)),
       set_Itype_imm (sint (distance l tgt s)) (words_at 2 l s ! 1)]"
    and "la_low (location_address s l) (location_address s tgt) \<Longrightarrow> words_at 2 l s' =
      [set_Utype_imm (upper_part (uint (location_address s tgt))) (words_at 2 l s ! 0),
       set_Itype_imm (uint (location_address s tgt)) (words_at 2 l s ! 1)]"
proof -
  have "resolves s s'" using run_op_resolves [of n tgt "Op_la l" for n] run by (auto dest: keepsD)
  then have reach': "reaches s' l 8" using reach resolves_length by (simp add: reaches_def bytes_of_def)
  have pair: "words_at 2 l s' = pair_at l s'" "words_at 2 l s = pair_at l s"
    by (simp_all add: pair_at_words reach reach')
  show "words_at 2 l s' = [set_Utype_imm (upper_part (sint (distance l tgt s))) (set_opcode (uint RV32I_AUIPC) (words_at 2 l s ! 0)),
       set_Itype_imm (sint (distance l tgt s)) (words_at 2 l s ! 1)]"
    if near: "la_near (location_address s l) (location_address s tgt)"
  proof -
    have "s' = with_bytes l (patch32 (cell_at l 0) (set_Utype_imm (upper_part (sint (distance l tgt s)))) \<circ>
       patch32 (cell_at l 0) (set_opcode (uint RV32I_AUIPC)) \<circ> patch32 (cell_at l 4) (set_Itype_imm (sint (distance l tgt s)))) s"
      using run fix_la_near [OF reach, of tgt] near by (simp add: la_near_def distance_addresses)
    then show ?thesis unfolding pair by (simp only: pair_patched(1) [OF reach]) (simp add: pair_at_def)
  qed
  show "words_at 2 l s' = [set_Utype_imm (upper_part (uint (location_address s tgt))) (words_at 2 l s ! 0),
       set_Itype_imm (uint (location_address s tgt)) (words_at 2 l s ! 1)]"
    if low: "la_low (location_address s l) (location_address s tgt)"
  proof -
    have "s' = with_bytes l (patch32 (cell_at l 0) (set_Utype_imm (upper_part (uint (location_address s tgt)))) \<circ>
       patch32 (cell_at l 4) (set_Itype_imm (uint (location_address s tgt)))) s"
      using run fix_la_absolute [OF reach low] by simp
    then show ?thesis
      unfolding pair using reaches_cell [OF reach, of 0] reaches_cell [OF reach, of 4] cells_apart_4 [OF reach] cells_apart_4' [OF reach]
      by (simp add: pair_at_def read_patch32_apart)
  qed
qed

lemma la_landed:
  assumes reach: "reaches s l 8" and tpl: "words_at 2 l s = la_pair r" and run: "fix_la l tgt s = Inr (a, s')"
  shows "la_loads (location_address s l) (location_address s tgt) (words_at 2 l s')"
proof -
  define q where "q = rd_of (words_at 2 l s ! 0)"
  let ?at = "location_address s l" and ?tgt = "location_address s tgt"
  have ws: "words_at 2 l s = la_pair (int q)" using la_template_rd [OF tpl] by (simp add: q_def)
  have "resolves s s'" using run_op_resolves [of n tgt "Op_la l" for n] run by (auto dest: keepsD)
  then have reach': "reaches s' l 8" using reach resolves_length by (simp add: reaches_def bytes_of_def)
  have rd: "rd_of (words_at 2 l s' ! 0) = q" if "la_near ?at ?tgt \<or> la_low ?at ?tgt"
    using that la_words [OF reach run] by (auto simp: q_def)
  have "exec_all (words_at 2 l s') m = Some ((set_reg q ?tgt m)\<lparr>pc := pc m + 8\<rparr>)"
    if q: "0 < q" and m: "pc m = ?at" and "la_near ?at ?tgt \<or> la_low ?at ?tgt" for m
    using that(3)
  proof
    assume near: "la_near ?at ?tgt"
    have regs: "0 < int q" "int q < 32" using q rd_small [of "words_at 2 l s ! 0"] by (simp_all add: q_def)
    have pair: "pair_at l s = la_pair (int q)" using ws pair_at_words [OF reach] by simp
    have d: "- (2 ^ 31) \<le> sint (distance l tgt s)" "sint (distance l tgt s) < 2 ^ 31 - 2048"
      using near by (simp_all only: la_near_def distance_addresses)
    obtain t where "fix_la l tgt s = Inr ((), t)"
      and t: "exec_all (pair_at l t) m = Some ((set_reg (nat (int q)) ?tgt m)\<lparr>pc := pc m + 8\<rparr>)"
      by (rule la_lands [OF regs reach pair d m])
    then have "t = s'" using run by simp
    with t show ?thesis using pair_at_words [OF reach'] by simp
  next
    assume low: "la_low ?at ?tgt"
    have addr: "uint ?tgt < 2 ^ 31 - 2048" using low by (simp add: la_low_def)
    have "signed_take_bit 31 (uint ?tgt) = uint ?tgt"
      by (rule signed_take_bit_fits, rule order_trans [of _ 0]) (use addr in simp_all)
    then have v: "sint (ucast ?tgt :: u32) = uint ?tgt"
      using addr by (simp add: sint_uint unsigned_ucast_eq signed_take_bit_take_bit)
    have "words_at 2 l s' = load_pair (int q) (ucast ?tgt)"
      using la_words(2) [OF reach run low] ws by (simp add: load_pair_def la_pair_def v)
    moreover have "loads (int q) (scast (ucast ?tgt :: u32)) (load_pair (int q) (ucast ?tgt))"
      by (rule load_pair_loads) (use q addr in \<open>simp_all add: q_def rd_small tame_def v\<close>)
    moreover have "(scast (ucast ?tgt :: u32) :: u128) = ?tgt" by (simp only: scast_sint v) simp
    ultimately show ?thesis by (simp add: loads_def load_pair_def)
  qed
  then show ?thesis using rd by (auto simp: la_loads_def Let_def)
qed

section \<open>The other operations\<close>

lemma laq_landed:
  assumes reach: "reaches s l 56" and tpl: "words_at 14 l s = laq_instrs r t" and run: "fix_laq l tgt s = Inr (a, s')"
  shows "laq_loads (location_address s tgt) (words_at 14 l s')"
proof -
  let ?low = "\<lambda>r. uint (take_bit 5 (word_of_int r :: u32))" and ?v = "location_address s tgt"
  have tpl': "words_at 14 l s = laq_instrs (?low r) (?low t)" by (simp only: tpl laq_trunc)
  have "leaves (int (rd_of (words_at 14 l s' ! 0))) (int (rd_of (words_at 14 l s' ! 2))) (limb_sum ?v) (words_at 14 l s')"
    if regs: "0 < rd_of (words_at 14 l s' ! 0)" "0 < rd_of (words_at 14 l s' ! 2)"
        "rd_of (words_at 14 l s' ! 0) \<noteq> rd_of (words_at 14 l s' ! 2)"
      and tame: "\<forall>i < 4. tame (limb ?v i)"
  proof -
    obtain u where "fix_laq l tgt s = Inr ((), u)" and u: "words_at 14 l u = laq_words (?low r) (?low t) ?v"
      by (rule fix_laq_words [OF reach tpl' tame])
    then have ws: "words_at 14 l s' = laq_words (?low r) (?low t) ?v" using run by simp
    have rds: "int (rd_of (words_at 14 l s' ! 0)) = ?low r" "int (rd_of (words_at 14 l s' ! 2)) = ?low t"
      unfolding ws laq_words_def load_pair_def by (simp_all add: rd_number register_trunc)
    show ?thesis
      unfolding rds unfolding ws
    proof (rule laq_words_leave [OF _ _ _ _ _ tame])
      show "?low r \<noteq> ?low t" using regs(3) rds by (metis of_nat_eq_iff)
      show "?low r < 32" "?low t < 32" using rds rd_small by (metis of_nat_less_iff of_nat_numeral)+
      show "0 < ?low r" "0 < ?low t" using regs(1,2) rds by (metis of_nat_0_less_iff)+
    qed
  qed
  then show ?thesis by (simp add: laq_loads_def Let_def)
qed

lemma farcall_landed:
  assumes reach: "reaches s l 8" and tpl: "words_at 2 l s = farcall_pair r" and run: "fix_farcall l tgt s = Inr (a, s')"
  shows "farcall_goes (location_address s tgt) (words_at 2 l s')"
proof -
  define q where "q = rd_of (words_at 2 l s ! 0)"
  have ws: "words_at 2 l s = farcall_pair (int q)" using farcall_template_rd [OF tpl] by (simp add: q_def)
  then have pair: "pair_at l s = farcall_pair (int q)" using pair_at_words [OF reach] by simp
  have "resolves s s'" using run_op_resolves [of n tgt "Op_farcall l" for n] run by (auto dest: keepsD)
  then have reach': "reaches s' l 8" using reach resolves_length by (simp add: reaches_def bytes_of_def)
  have "words_at 2 l s' = pair_at l (with_bytes l
      (patch32 (cell_at l 4) (set_Itype_imm (uint (location_address s tgt))) \<circ>
       patch32 (cell_at l 0) (set_Utype_imm (uint (drop_bit 12 (location_address s tgt))))) s)"
    using run fix_farcall_run [OF reach, of tgt] pair_at_words [OF reach'] by simp
  then have "rd_of (words_at 2 l s' ! 0) = rd_of (pair_at l s ! 0)"
    by (simp only: pair_patched(2) [OF reach]) (simp add: pair_at_def)
  then have rd: "rd_of (words_at 2 l s' ! 0) = q" using pair_at_words [OF reach] by (simp add: q_def)
  have "\<exists>m'. exec_all (words_at 2 l s') m = Some m' \<and> pc m' = farcall_target (location_address s tgt) \<and> get_reg 1 m' = pc m + 8"
    if q: "0 < q" and tgt: "uint (location_address s tgt) < 2 ^ 31" "even (uint (location_address s tgt))" for m
  proof -
    have regs: "0 < int q" "int q < 32" using q rd_small [of "words_at 2 l s ! 0"] by (simp_all add: q_def)
    obtain t m' where t: "fix_farcall l tgt s = Inr ((), t)" and m': "exec_all (pair_at l t) m = Some m'"
      "pc m' = farcall_target (location_address s tgt)" "get_reg 1 m' = pc m + 8"
      by (rule farcall_lands [OF regs reach pair tgt])
    have "t = s'" using t run by simp
    with m' show ?thesis using pair_at_words [OF reach'] by auto
  qed
  then show ?thesis by (simp add: farcall_goes_def rd)
qed

lemma size_landed:
  assumes reach: "reaches s l 4" and run: "fix_size l d n tgt s = Inr (a, s')"
  shows "words_at 1 l s' = [size_cell (location_address s l) (location_address s d) (location_address s tgt)]"
proof -
  have cell: "cell_in (bytes_of s l) (cell_at l 0)" using reaches_cell [OF reach, of 0] by simp
  have i: "cell_at l 0 < length (bytes_of s l)" using cell by (simp add: cell_in_def)
  let ?v = "size_cell (location_address s l) (location_address s d) (location_address s tgt)"
  have "update_symbol n (\<lambda>l. l\<lparr>loc_size := ucast ?v\<rparr>) (with_bytes l (patch32 (cell_at l 0) (\<lambda>_. ?v)) s) = Inr (a, s')"
    using run i by (simp add: fix_size_def bindM_def at_location_run patch_cell_in [OF cell] Let_def size_cell_def cong: if_cong)
  then have "bytes_of s' l = patch32 (cell_at l 0) (\<lambda>_. ?v) (bytes_of s l)"
    by (auto simp: update_symbol_def bytes_of_def the_section_def find_section_def with_bytes_def put_section_def om_find_put)
  then show ?thesis using cell by (simp add: words_one [unfolded One_nat_def] cell_zero)
qed

section \<open>One operation\<close>

lemma run_op_lands:
  assumes wf: "wf_assembler s" and fits: "op_fits s opn" and run: "run_op n tgt opn s = Inr (a, s')"
  shows "landed s' tgt opn"
proof -
  have res: "resolves s s'" using run_op_resolves run by (rule keepsD)
  note same = resolves_address [OF res]
  have tpl: "op_template opn (words_at (op_words opn) l s)" and reach: "reaches s l (4 * op_words opn)"
    if "op_place opn = Some l" for l
    using that fits fits_reaches [OF wf fits] by (simp_all add: op_fits_def)
  show ?thesis
  proof (cases opn)
    case (Op_la l)
    then obtain r where "words_at 2 l s = la_pair r" using tpl [of l] by auto
    then show ?thesis using la_landed reach [of l] run by (simp add: Op_la same)
  next
    case (Op_laq l)
    then obtain r t where "words_at 14 l s = laq_instrs r t" using tpl [of l] by auto
    then show ?thesis using laq_landed reach [of l] run by (simp add: Op_laq same)
  next
    case (Op_farcall l)
    then obtain r where "words_at 2 l s = farcall_pair r" using tpl [of l] by auto
    then show ?thesis using farcall_landed reach [of l] run by (simp add: Op_farcall same)
  next
    case (Op_branch l)
    then show ?thesis using branch_landed tpl [of l] reach [of l] run by (simp add: same)
  next
    case (Op_call l)
    then show ?thesis using jump_landed tpl [of l] reach [of l] run by (simp add: same)
  next
    case (Op_jmp l)
    then show ?thesis using jump_landed tpl [of l] reach [of l] run by (simp add: same)
  next
    case (Op_size l d)
    then show ?thesis using size_landed reach [of l] run by (simp add: same)
  qed simp_all
qed

end
