(* ===== verification/ScheduledWork.thy ===== *)
theory ScheduledWork
  imports Landing
begin

text \<open>
  The scheduled work of a program as a whole: the operations stay out of each other's way,
  so that what each of them achieves still holds when all of them have run; and the work
  stops only for a symbol that has no place or a jump that is too long.
\<close>

section \<open>The operations in order\<close>

text \<open>The scheduled work as a sequence of steps, one for each operation, in the order of the symbols.\<close>

inductive works :: "(string \<times> scheduled_op) list \<Rightarrow> Assembler \<Rightarrow> Assembler \<Rightarrow> bool" where
  works_done: "works [] s s"
| works_step: "find_symbol s n = Some loc \<Longrightarrow> place tgt = place loc \<Longrightarrow> run_op n tgt opn s = Inr ((), s1) \<Longrightarrow>
    works ps s1 s' \<Longrightarrow> works ((n, opn) # ps) s s'"

inductive_simps works_Nil [simp]: "works [] s s'"

lemma works_append: "works ps s t \<Longrightarrow> works qs t u \<Longrightarrow> works (ps @ qs) s u"
  by (induction rule: works.induct) (auto intro: works_step)

lemma works_resolves: "works ps s s' \<Longrightarrow> resolves s s'"
  by (induction rule: works.induct)
    (auto intro: resolution.R_refl resolution.R_trans dest: keepsD [OF run_op_resolves])

lemma symbol_place:
  assumes "resolves s s'" and "find_symbol s n = Some loc" and "place tgt = place loc"
  obtains loc' where "find_symbol s' n = Some loc'" and "place tgt = place loc'"
  using resolves_symbol [OF assms(1), of n] assms(2,3) that by (cases "find_symbol s' n") auto

lemma ops_work:
  assumes "find_symbol s n = Some loc" and "place tgt = place loc" and "forM ops (run_op n tgt) s = Inr ((), s')"
  shows "works (map (Pair n) ops) s s'"
  using assms
proof (induction ops arbitrary: s loc)
  case Nil
  then show ?case by simp
next
  case (Cons opn ops)
  then obtain s1 where s1: "run_op n tgt opn s = Inr ((), s1)" and rest: "forM ops (run_op n tgt) s1 = Inr ((), s')"
    by (auto simp: bindM_Inr_iff)
  obtain loc' where "find_symbol s1 n = Some loc'" "place tgt = place loc'"
    by (rule symbol_place [OF keepsD [OF run_op_resolves s1] Cons.prems(1,2)])
  then have "works (map (Pair n) ops) s1 s'" using Cons.IH rest by blast
  with works_step [OF Cons.prems(1,2) s1] show ?case by simp
qed

lemma schedule_works:
  assumes "forM sched run_ops s = Inr ((), s')"
  shows "works (all_ops sched) s s'"
  using assms
proof (induction sched arbitrary: s)
  case Nil
  then show ?case by (simp add: all_ops_def)
next
  case (Cons p sched)
  obtain n ops where p: "p = (n, ops)" by (cases p)
  obtain s1 where s1: "run_ops (n, ops) s = Inr ((), s1)" and rest: "forM sched run_ops s1 = Inr ((), s')"
    using Cons.prems by (auto simp: bindM_Inr_iff p)
  obtain loc where "find_symbol s n = Some loc" and "forM ops (run_op n loc) s = Inr ((), s1)"
    using s1 by (auto simp: run_ops_def bindM_Inr_iff split: option.splits)
  then have "works (map (Pair n) ops) s s1" using ops_work by blast
  then show ?case using Cons.IH [OF rest] works_append by (simp add: all_ops_def p)
qed

text \<open>What an operation achieved depends on addresses and on its own words.\<close>

lemma place_address: "place l = place l' \<Longrightarrow> location_address s l = location_address s l'"
  by (simp add: location_address_def place_def)

lemma landed_same:
  assumes "resolves s s'" and "place tgt = place tgt'"
    and "\<And>l. op_place opn = Some l \<Longrightarrow> words_at (op_words opn) l s' = words_at (op_words opn) l s"
  shows "landed s' tgt' opn = landed s tgt opn"
  using assms(3) resolves_address [OF assms(1)] place_address [OF assms(2)]
  by (cases opn) simp_all

lemma works_others:
  assumes "works ps s s'" and "wf_assembler s" and "op_room s opn"
    and "\<forall>(n, other) \<in> set ps. op_fits s other \<and> ops_apart other opn"
    and "sorted_wrt (\<lambda>p q. ops_apart (snd p) (snd q)) ps" and "op_place opn = Some l"
  shows "words_at (op_words opn) l s' = words_at (op_words opn) l s"
  using assms
proof (induction rule: works.induct)
  case (works_done s)
  show ?case ..
next
  case (works_step s n loc tgt other s1 ps s')
  note run = works_step.hyps(3) and wf = works_step.prems(1)
  have res: "resolves s s1" using run_op_resolves run by (rule keepsD)
  have wf1: "wf_assembler s1" using res wf by (simp add: resolves_def)
  have fits: "op_fits s other" and apart: "ops_apart other opn" using works_step.prems(3) by simp_all
  have "words_at (op_words opn) l s1 = words_at (op_words opn) l s"
    by (rule run_op_others [OF wf fits works_step.prems(2) apart run works_step.prems(5)])
  moreover have "\<forall>(m, x) \<in> set ps. op_fits s1 x \<and> ops_apart x opn"
    using works_step.prems(3,4) run_op_fits [OF wf fits _ _ run] by fastforce
  ultimately show ?case
    using works_step.IH [OF wf1] works_step.prems(2,4,5) resolves_room [OF res] by simp
qed

text \<open>Each operation achieves its purpose when its turn comes, and the others leave it so.\<close>

lemma works_land:
  assumes "works ps s s'" and "wf_assembler s"
    and "\<forall>(n, opn) \<in> set ps. op_fits s opn" and "sorted_wrt (\<lambda>p q. ops_apart (snd p) (snd q)) ps"
  shows "\<forall>(n, opn) \<in> set ps. \<exists>tgt. find_symbol s' n = Some tgt \<and> landed s' tgt opn"
  using assms
proof (induction rule: works.induct)
  case (works_done s)
  then show ?case by simp
next
  case (works_step s n loc tgt opn s1 ps s')
  note run = works_step.hyps(3) and wf = works_step.prems(1)
  have res: "resolves s s1" using run_op_resolves run by (rule keepsD)
  have wf1: "wf_assembler s1" using res wf by (simp add: resolves_def)
  have fits: "op_fits s opn" and apart: "\<forall>(m, x) \<in> set ps. op_fits s x \<and> ops_apart opn x"
    using works_step.prems(2,3) by auto
  have fits1: "\<forall>(m, x) \<in> set ps. op_fits s1 x"
    using apart run_op_fits [OF wf fits _ _ run] by fastforce
  have room1: "op_room s1 opn" using fits_room [OF fits] resolves_room [OF res] by simp
  have rest: "\<forall>(m, x) \<in> set ps. \<exists>tgt. find_symbol s' m = Some tgt \<and> landed s' tgt x"
    using works_step.IH [OF wf1 fits1] works_step.prems(3) by simp
  have res1: "resolves s1 s'" using works_step.hyps(4) by (rule works_resolves)
  obtain loc' where loc': "find_symbol s' n = Some loc'" "place tgt = place loc'"
    by (rule symbol_place [OF resolution.R_trans [OF res res1] works_step.hyps(1,2)])
  have "landed s' loc' opn = landed s1 tgt opn"
    using res1 loc'(2)
  proof (rule landed_same)
    have others: "\<forall>(m, x) \<in> set ps. op_fits s1 x \<and> ops_apart x opn"
      using fits1 apart ops_apart_sym by fastforce
    show "words_at (op_words opn) l s' = words_at (op_words opn) l s1" if "op_place opn = Some l" for l
      by (rule works_others [OF works_step.hyps(4) wf1 room1 others _ that]) (use works_step.prems(3) in simp)
  qed
  then have "landed s' loc' opn" using run_op_lands [OF wf fits run] by simp
  with rest loc' show ?case by auto
qed

section \<open>The work as a whole\<close>

lemma finish_scheduled_work_lands:
  assumes "sound s" and "finish_scheduled_work s = Inr ((), s')"
  shows "\<forall>(n, opn) \<in> set (all_ops (m_schedule s')). \<exists>tgt. find_symbol s' n = Some tgt \<and> landed s' tgt opn"
proof -
  have works: "works (all_ops (m_schedule s)) s s'"
    using assms(2) schedule_works by (simp add: finish_scheduled_work_def bindM_def)
  have "resolves s s'" using finish_scheduled_work_resolves assms(2) by (rule keepsD)
  then have "m_schedule s' = m_schedule s" by (auto simp: resolves_def layout_def dest: arg_cong [where f = m_schedule])
  then show ?thesis using works_land [OF works] assms(1) by (simp add: sound_def patches_ok_def)
qed

text \<open>
  The work runs to its end exactly when every scheduled symbol has a place and every jump
  is within the bounds that the code checks. Everything else that could stop it, a place
  outside of its section above all, is ruled out by the assembly.
\<close>

fun within_bounds :: "Assembler \<Rightarrow> SymbolLocation \<Rightarrow> scheduled_op \<Rightarrow> bool" where
  "within_bounds s tgt (Op_call l) \<longleftrightarrow> - 2048 \<le> low64 (distance l tgt s) \<and> low64 (distance l tgt s) \<le> 2047"
| "within_bounds s tgt (Op_jmp l) \<longleftrightarrow> - 2048 \<le> low64 (distance l tgt s) \<and> low64 (distance l tgt s) \<le> 2047"
| "within_bounds s tgt _ \<longleftrightarrow> True"

definition work_possible :: "Assembler \<Rightarrow> bool" where
  "work_possible s \<longleftrightarrow> list_all (\<lambda>(n, ops). case find_symbol s n of
     Some tgt \<Rightarrow> list_all (within_bounds s tgt) ops | None \<Rightarrow> False) (m_schedule s)"

lemma work_possible_iff: "work_possible s \<longleftrightarrow> (\<forall>(n, ops) \<in> set (m_schedule s).
    \<exists>tgt. find_symbol s n = Some tgt \<and> list_all (within_bounds s tgt) ops)"
  by (force simp: work_possible_def list_all_iff split: option.splits)

lemma within_bounds_same:
  assumes "resolves s s'" and "place tgt = place tgt'"
  shows "within_bounds s' tgt' opn = within_bounds s tgt opn"
  using resolves_address [OF assms(1)] place_address [OF assms(2)]
  by (cases opn) (simp_all add: distance_def)

lemma fix_la_returns:
  assumes "reaches s l 8"
  shows "\<exists>s'. fix_la l tgt s = Inr ((), s')"
  using reaches_cell [OF assms, of 0] reaches_cell [OF assms, of 4]
  by (cases "is_relatively_close (low64 (distance l tgt s))")
    (simp_all add: fix_la_def bindM_def at_location_run patch_cell_in read_cell_in with_bytes_with_bytes,
      simp_all add: cell_in_def)

lemma fix_size_returns:
  assumes "reaches s l 4"
  shows "\<exists>s'. fix_size l d n tgt s = Inr ((), s')"
  using reaches_cell [OF assms, of 0]
  by (simp add: fix_size_def bindM_def at_location_run patch_cell_in Let_def update_symbol_def) (simp add: cell_in_def)

lemma run_op_returns:
  assumes wf: "wf_assembler s" and fits: "op_fits s opn" and bounds: "within_bounds s tgt opn"
  obtains s' where "run_op n tgt opn s = Inr ((), s')"
proof -
  have reach: "reaches s l (4 * op_words opn)" if "op_place opn = Some l" for l
    by (rule fits_reaches [OF wf fits that])
  have "\<exists>s'. run_op n tgt opn s = Inr ((), s')"
  proof (cases opn)
    case (Op_la l)
    then show ?thesis using fix_la_returns reach by simp
  next
    case (Op_laq l)
    then show ?thesis using fix_laq_returns reach by simp
  next
    case (Op_size l d)
    then show ?thesis using fix_size_returns reach by simp
  next
    case (Op_branch l)
    then show ?thesis using fix_branch_run reach by simp
  next
    case (Op_farcall l)
    then show ?thesis using fix_farcall_run reach by simp
  next
    case (Op_call l)
    then show ?thesis using fix_jump_run [of s l tgt] reach bounds by (simp add: Let_def)
  next
    case (Op_jmp l)
    then show ?thesis using fix_jump_run [of s l tgt] reach bounds by (simp add: Let_def)
  qed (simp_all add: update_symbol_def bindM_def)
  then show thesis using that by blast
qed

definition ready :: "(string \<times> scheduled_op) list \<Rightarrow> Assembler \<Rightarrow> bool" where
  "ready ps s \<longleftrightarrow> wf_assembler s \<and> (\<forall>(n, opn) \<in> set ps. op_fits s opn) \<and>
     sorted_wrt (\<lambda>p q. ops_apart (snd p) (snd q)) ps"

lemma ready_step:
  assumes "ready ((m, opn) # ps) s" and run: "run_op n tgt opn s = Inr (a, s')"
  shows "ready ps s'" and "resolves s s'"
proof -
  show res: "resolves s s'" using run_op_resolves run by (rule keepsD)
  have wf: "wf_assembler s" and fits: "op_fits s opn" and "\<forall>(k, x) \<in> set ps. op_fits s x \<and> ops_apart opn x"
    using assms(1) by (auto simp: ready_def)
  then have "\<forall>(k, x) \<in> set ps. op_fits s' x" using run_op_fits [OF wf fits _ _ run] by fastforce
  then show "ready ps s'" using assms(1) res by (simp add: ready_def resolves_def)
qed

lemma ops_return:
  assumes "ready (map (Pair n) ops @ ps) s" and "list_all (within_bounds s tgt) ops"
  obtains s' where "forM ops (run_op n tgt) s = Inr ((), s')" and "ready ps s'" and "resolves s s'"
  using assms
proof (induction ops arbitrary: s thesis)
  case Nil
  then show ?case by (simp add: resolution.R_refl)
next
  case (Cons opn ops)
  have head: "ready ((n, opn) # map (Pair n) ops @ ps) s" using Cons.prems(2) by simp
  obtain s1 where s1: "run_op n tgt opn s = Inr ((), s1)"
    using run_op_returns [of s opn tgt n] head Cons.prems(3) by (auto simp: ready_def)
  note step = ready_step [OF head s1]
  have "list_all (within_bounds s1 tgt) ops"
    using Cons.prems(3) within_bounds_same [OF step(2) refl] by (simp add: list_all_iff)
  then obtain s' where "forM ops (run_op n tgt) s1 = Inr ((), s')" "ready ps s'" "resolves s1 s'"
    by (rule Cons.IH [OF _ step(1), rotated])
  then show ?case using Cons.prems(1) s1 resolution.R_trans [OF step(2)] by (simp add: bindM_def)
qed

lemma schedule_returns:
  assumes "ready (all_ops sched) s"
    and "\<forall>(n, ops) \<in> set sched. \<exists>tgt. find_symbol s n = Some tgt \<and> list_all (within_bounds s tgt) ops"
  shows "\<exists>s'. forM sched run_ops s = Inr ((), s')"
  using assms
proof (induction sched arbitrary: s)
  case Nil
  then show ?case by simp
next
  case (Cons p sched)
  obtain n ops where p: "p = (n, ops)" by (cases p)
  have ready: "ready (map (Pair n) ops @ all_ops sched) s" using Cons.prems(1) by (simp add: all_ops_def p)
  obtain tgt where tgt: "find_symbol s n = Some tgt" "list_all (within_bounds s tgt) ops"
    using Cons.prems(2) by (auto simp: p)
  obtain s1 where s1: "forM ops (run_op n tgt) s = Inr ((), s1)" and ready1: "ready (all_ops sched) s1"
    and res: "resolves s s1"
    by (rule ops_return [OF ready tgt(2)])
  have "\<exists>t. find_symbol s1 m = Some t \<and> list_all (within_bounds s1 t) os" if entry: "(m, os) \<in> set sched" for m os
  proof -
    obtain t where t: "find_symbol s m = Some t" "list_all (within_bounds s t) os"
      using Cons.prems(2) entry by fastforce
    obtain t' where t': "find_symbol s1 m = Some t'" "place t = place t'" by (rule symbol_place [OF res t(1) refl])
    show ?thesis using t(2) t'(1) within_bounds_same [OF res t'(2)] by (auto simp: list_all_iff)
  qed
  then obtain s' where "forM sched run_ops s1 = Inr ((), s')" using Cons.IH [OF ready1] by blast
  then show ?case using s1 tgt(1) by (simp add: p bindM_def run_ops_def)
qed

lemma work_returns_iff:
  assumes s: "sound s"
  shows "(\<exists>s'. finish_scheduled_work s = Inr ((), s')) \<longleftrightarrow> work_possible s"
proof
  assume "\<exists>s'. finish_scheduled_work s = Inr ((), s')"
  then obtain s' where run: "finish_scheduled_work s = Inr ((), s')" ..
  have res: "resolves s s'" using finish_scheduled_work_resolves run by (rule keepsD)
  have sched: "m_schedule s' = m_schedule s" using res by (auto simp: resolves_def layout_def dest: arg_cong [where f = m_schedule])
  show "work_possible s"
    unfolding work_possible_iff
  proof (intro ballI, clarify)
    fix n ops assume ops: "(n, ops) \<in> set (m_schedule s)"
    then obtain tgt where tgt: "find_symbol s n = Some tgt" using unresolved_symbol_stops run by (cases "find_symbol s n") fastforce+
    have "within_bounds s tgt opn" if "opn \<in> set ops" for opn
    proof -
      have "(n, opn) \<in> set (all_ops (m_schedule s'))" using ops that sched by (auto simp: all_ops_schedule)
      then obtain tgt' where tgt': "find_symbol s' n = Some tgt'" "landed s' tgt' opn"
        using finish_scheduled_work_lands [OF s run] by fastforce
      have "place tgt = place tgt'" using resolves_symbol [OF res, of n] tgt tgt' by simp
      then have "within_bounds s' tgt' opn = within_bounds s tgt opn" by (rule within_bounds_same [OF res])
      moreover have "within_bounds s' tgt' opn" using tgt'(2) by (cases opn) (simp_all add: jump_lands_def distance_addresses)
      ultimately show ?thesis by simp
    qed
    with tgt show "\<exists>tgt. find_symbol s n = Some tgt \<and> list_all (within_bounds s tgt) ops" by (auto simp: list_all_iff)
  qed
next
  assume "work_possible s"
  moreover have "ready (all_ops (m_schedule s)) s" using s by (simp add: ready_def sound_def patches_ok_def)
  ultimately show "\<exists>s'. finish_scheduled_work s = Inr ((), s')"
    using schedule_returns by (simp add: work_possible_iff finish_scheduled_work_def bindM_def)
qed

section \<open>The finished program\<close>

text \<open>Attaching the last labels and placing the sections changes no byte.\<close>

lemma finish_labels_bytes:
  assumes "forM names (\<lambda>n. Section_align_with_labels n 1) s = Inr (a, s')"
  shows "bytes_extend s s' \<and> m_schedule s' = m_schedule s"
  using assms
proof (induction names arbitrary: s)
  case Nil
  then show ?case by (simp add: bytes_extend_refl)
next
  case (Cons n names)
  then obtain s1 where s1: "Section_align_with_labels n 1 s = Inr ((), s1)"
    and rest: "forM names (\<lambda>n. Section_align_with_labels n 1) s1 = Inr (a, s')"
    by (auto simp: bindM_Inr_iff)
  have "s1 = (put_section n ((the_section s n)\<lparr>m_label_queue := []\<rparr>) s)\<lparr>m_lookup :=
      add_labels (current_location s) (m_label_queue (the_section s n)) (m_lookup s)\<rparr>"
    using s1 attach_waiting_run by simp
  then have "bytes_extend s s1" "m_schedule s1 = m_schedule s"
    by (auto simp: bytes_extend_def the_section_def find_section_def put_section_def om_find_put split: option.splits)
  then show ?case using Cons.IH [OF rest] bytes_extend_trans by metis
qed

lemma finish_labels_return: "\<exists>s'. forM names (\<lambda>n. Section_align_with_labels n 1) s = Inr ((), s')"
proof (induction names arbitrary: s)
  case (Cons n names)
  then show ?case by (simp add: bindM_def attach_waiting_run)
qed simp

text \<open>The part of \<^verbatim>\<open>finish\<close> in front of the scheduled work, which always returns.\<close>

definition place_everything :: "unit M" where
  "place_everything = bindM (getM (\<lambda>s. om_keys (m_sections s))) (\<lambda>names.
     thenM (forM names (\<lambda>n. Section_align_with_labels n 1)) resolve_base_addresses)"

lemma finish_split: "finish = thenM place_everything finish_scheduled_work"
  by (rule ext) (auto simp: finish_def place_everything_def bindM_def split: sum.splits)

lemma place_everything_run:
  assumes s: "sound s"
  obtains t where "place_everything s = Inr ((), t)" and "sound t"
proof -
  have wf: "wf_assembler s" using s by (simp add: sound_def)
  obtain s1 where 1: "forM (om_keys (m_sections s)) (\<lambda>n. Section_align_with_labels n 1) s = Inr ((), s1)"
    using finish_labels_return by blast
  have wf1: "wf_assembler s1" using finish_labels_keep [OF wf _ 1] by (simp add: section_names_def)
  have ok1: "patches_ok s1" using finish_labels_bytes [OF 1] s by (auto simp: sound_def intro: patches_extend)
  obtain s2 where 2: "resolve_base_addresses s1 = Inr ((), s2)" and wf2: "wf_assembler s2" and re: "rebased s1 s2"
    by (rule resolve_base_addresses_places [OF wf1])
  have "sec_output (the_section s2 n) = sec_output (the_section s1 n)" for n
  proof -
    have "map_option sec_output (find_section s2 n) = map_option sec_output (find_section s1 n)"
      using re by (simp add: rebased_def)
    then show ?thesis by (cases "find_section s1 n"; cases "find_section s2 n") (simp_all add: the_section_def)
  qed
  then have "bytes_extend s1 s2" by (simp add: bytes_extend_def)
  moreover have "m_schedule s2 = m_schedule s1"
  proof -
    have "s2 = s1\<lparr>m_sections := m_sections s2\<rparr>" using re unfolding rebased_def by blast
    then show ?thesis by (rule ssubst) simp
  qed
  ultimately have "sound s2" using wf2 ok1 by (auto simp: sound_def intro: patches_extend)
  moreover have "place_everything s = Inr ((), s2)" using 1 2 by (simp add: place_everything_def bindM_def)
  ultimately show thesis by (intro that)
qed

lemma finish_lands:
  assumes s: "sound s" and run: "finish s = Inr ((), s')"
  shows "\<forall>(n, opn) \<in> set (all_ops (m_schedule s')). \<exists>tgt. find_symbol s' n = Some tgt \<and> landed s' tgt opn"
proof -
  obtain t where "place_everything s = Inr ((), t)" and t: "sound t" by (rule place_everything_run [OF s])
  then have "finish_scheduled_work t = Inr ((), s')" using run by (simp add: finish_split bindM_def)
  with t show ?thesis by (rule finish_scheduled_work_lands)
qed

lemma finish_sections:
  assumes "wf_assembler s" and run: "finish s = Inr ((), s')" and "find_section s n \<noteq> None"
  shows "find_section s' n \<noteq> None"
proof -
  obtain s1 s2 where g: "grows s s1" and wf1: "wf_assembler s1" and 2: "resolve_base_addresses s1 = Inr ((), s2)"
    and res: "resolves s2 s'"
    by (rule finish_run [OF assms(1) run])
  have "find_section s1 n \<noteq> None" using g assms(3) unfolding grows_def by blast
  moreover obtain s3 where "resolve_base_addresses s1 = Inr ((), s3)" and "rebased s1 s3"
    by (rule resolve_base_addresses_places [OF wf1])
  ultimately have "map_option sec_output (find_section s2 n) \<noteq> None" using 2 by (simp add: rebased_def)
  then show ?thesis using resolves_section [OF res, of n] by auto
qed

lemma main_lands:
  assumes "calm_files env" and "main env depth argv = Some (Inr ((globals, files), s'))"
  shows "\<forall>(n, opn) \<in> set (all_ops (m_schedule s')). \<exists>tgt. find_symbol s' n = Some tgt \<and> landed s' tgt opn"
proof -
  obtain s1 s2 where s1: "main_loop env depth argv (Assembler_new default_options) = Inr ((), s1)"
    and s2: "finish s1 = Inr ((), s2)" and s': "section_named ''.text'' s2 = Inr ((), s')"
    by (rule main_run_parts [OF assms(2)]) (rule that)
  have sound: "sound s1" by (rule main_loop_sound [OF assms(1) s1 sound_new])
  have "find_section (Assembler_new default_options) ''.text'' \<noteq> None" by (simp add: Assembler_new_def find_section_def)
  moreover have "grows (Assembler_new default_options) s1"
    using keepsD [OF main_loop_evolves s1] by (simp add: evolves_def)
  ultimately have "find_section s1 ''.text'' \<noteq> None" unfolding grows_def by blast
  then have "find_section s2 ''.text'' \<noteq> None" using finish_sections [OF _ s2] sound by (simp add: sound_def)
  then have "s' = s2" using s' by (auto simp: section_named_def split: option.splits)
  then show ?thesis using finish_lands [OF sound s2] by simp
qed

end
