(* ===== verification/SymbolAttributes.thy ===== *)
theory SymbolAttributes
  imports ScheduledWork
begin

text \<open>
  What the scheduled work makes of the type and the size of the symbols: each symbol gets
  what the operations of its own name set, in their order, and nothing else.
\<close>

section \<open>One operation\<close>

text \<open>The location of a symbol after an operation, when \<open>tgt\<close> is the place of the symbol.\<close>

fun op_attrs :: "Assembler \<Rightarrow> SymbolLocation \<Rightarrow> scheduled_op \<Rightarrow> SymbolLocation \<Rightarrow> SymbolLocation" where
  "op_attrs s tgt (Op_endfunc l) loc = loc\<lparr>loc_size := ucast (distance tgt l s), loc_type := STT_FUNC\<rparr>"
| "op_attrs s tgt (Op_set_type t) loc = loc\<lparr>loc_type := t\<rparr>"
| "op_attrs s tgt (Op_size l d) loc =
     loc\<lparr>loc_size := ucast (size_cell (location_address s l) (location_address s d) (location_address s tgt))\<rparr>"
| "op_attrs s tgt _ loc = loc"

lemma op_attrs_place [simp]: "place (op_attrs s tgt opn loc) = place loc"
  by (cases opn) (simp_all add: place_def)

lemma op_attrs_same:
  assumes "resolves s s'" and "place tgt = place tgt'"
  shows "op_attrs s' tgt' opn loc = op_attrs s tgt opn loc"
  using resolves_address [OF assms(1)] place_address [OF assms(2)]
  by (cases opn) (simp_all add: distance_def)

text \<open>Only \<^verbatim>\<open>update_symbol\<close> changes the table of symbols.\<close>

definition same_lookup :: "Assembler \<Rightarrow> Assembler \<Rightarrow> bool" where
  "same_lookup s s' \<longleftrightarrow> m_lookup s' = m_lookup s"

interpretation lookup: state_preorder same_lookup
  by unfold_locales (simp_all add: same_lookup_def)

lemma cell_lookup:
  "keeps same_lookup (at_location l off)" "keeps same_lookup (read_cell l i)" "keeps same_lookup (patch_cell l i f)"
  unfolding at_location_def read_cell_def patch_cell_def cell_access_def Let_def
  by (intro lookup.keeps_intros lookup.keeps_modify; simp add: same_lookup_def put_section_def)+

lemma fixups_lookup:
  "keeps same_lookup (fix_la l tgt)" "keeps same_lookup (fix_laq l tgt)" "keeps same_lookup (fix_branch l tgt)"
  "keeps same_lookup (fix_farcall l tgt)" "keeps same_lookup (fix_jump l tgt)"
  unfolding fix_la_def fix_laq_def fix_branch_def fix_farcall_def fix_jump_def set_uint32_def
    bounds_check_jump_def token_exception_def
  by (intro lookup.keeps_intros cell_lookup)+

lemma update_symbol_find:
  assumes "update_symbol n f s = Inr (a, s')"
  shows "find_symbol s' m = map_option (\<lambda>l. if m = n then f l else l) (find_symbol s m)"
  using assms by (auto simp: update_symbol_def find_symbol_def map_of_update_all)

lemma run_op_attrs:
  assumes "run_op n tgt opn s = Inr (a, s')"
  shows "find_symbol s' m = map_option (\<lambda>l. if m = n then op_attrs s tgt opn l else l) (find_symbol s m)"
proof -
  have same: ?thesis if "keeps same_lookup (run_op n tgt opn)" "\<And>l. op_attrs s tgt opn l = l"
    using keepsD [OF that(1) assms] that(2)
    by (cases "find_symbol s m") (simp_all add: same_lookup_def find_symbol_def)
  show ?thesis
  proof (cases opn)
    case (Op_endfunc l)
    then have "update_symbol n (\<lambda>x. x\<lparr>loc_size := ucast (distance tgt l s), loc_type := STT_FUNC\<rparr>) s = Inr (a, s')"
      using assms by (simp add: bindM_def)
    then show ?thesis by (cases "find_symbol s m") (simp_all add: update_symbol_find Op_endfunc)
  next
    case (Op_set_type t)
    then have "update_symbol n (\<lambda>x. x\<lparr>loc_type := t\<rparr>) s = Inr (a, s')" using assms by simp
    then show ?thesis by (cases "find_symbol s m") (simp_all add: update_symbol_find Op_set_type)
  next
    case (Op_size l d)
    let ?v = "size_cell (location_address s l) (location_address s d) (location_address s tgt)"
    obtain i s1 where "patch_cell l i (\<lambda>_. ?v) s = Inr ((), s1)"
      and u: "update_symbol n (\<lambda>x. x\<lparr>loc_size := ucast ?v\<rparr>) s1 = Inr (a, s')"
      using assms
      by (auto simp: Op_size fix_size_def bindM_Inr_iff at_location_run Let_def size_cell_def
          cong: if_cong split: if_splits)
    then have "m_lookup s1 = m_lookup s" using keepsD [OF cell_lookup(3)] by (simp add: same_lookup_def)
    then have "find_symbol s1 m = find_symbol s m" by (simp add: find_symbol_def)
    then show ?thesis by (cases "find_symbol s m") (simp_all add: update_symbol_find [OF u] Op_size)
  qed (rule same; simp add: fixups_lookup)+
qed

section \<open>All of them\<close>

definition with_attrs :: "Assembler \<Rightarrow> scheduled_op list \<Rightarrow> SymbolLocation \<Rightarrow> SymbolLocation" where
  "with_attrs s ops loc = foldl (\<lambda>l opn. op_attrs s loc opn l) loc ops"

lemma foldl_attrs_place: "place (foldl (\<lambda>l opn. op_attrs s tgt opn l) loc ops) = place loc"
  by (induction ops arbitrary: loc) simp_all

lemma ops_attrs:
  assumes "forM ops (run_op n tgt) s = Inr (a, s')"
  shows "find_symbol s' m =
    map_option (\<lambda>l. if m = n then foldl (\<lambda>l opn. op_attrs s tgt opn l) l ops else l) (find_symbol s m)"
  using assms
proof (induction ops arbitrary: s)
  case Nil
  then show ?case by (cases "find_symbol s m") simp_all
next
  case (Cons opn ops)
  then obtain s1 where s1: "run_op n tgt opn s = Inr ((), s1)" and rest: "forM ops (run_op n tgt) s1 = Inr (a, s')"
    by (auto simp: bindM_Inr_iff)
  have "resolves s s1" using run_op_resolves s1 by (rule keepsD)
  then have "op_attrs s1 tgt = op_attrs s tgt" using op_attrs_same by (intro ext) blast
  then show ?case
    using Cons.IH [OF rest] run_op_attrs [OF s1, of m]
    by (cases "find_symbol s m"; cases "m = n") simp_all
qed

lemma schedule_attrs:
  assumes "forM sched run_ops s = Inr ((), s')" and "distinct (map fst sched)"
  shows "find_symbol s' m =
    map_option (\<lambda>l. case map_of sched m of Some ops \<Rightarrow> with_attrs s ops l | None \<Rightarrow> l) (find_symbol s m)"
  using assms
proof (induction sched arbitrary: s)
  case Nil
  then show ?case by (cases "find_symbol s m") simp_all
next
  case (Cons p sched)
  obtain n ops where p: "p = (n, ops)" by (cases p)
  obtain s1 where run: "run_ops (n, ops) s = Inr ((), s1)" and rest: "forM sched run_ops s1 = Inr ((), s')"
    using Cons.prems(1) by (auto simp: bindM_Inr_iff p)
  obtain tgt where tgt: "find_symbol s n = Some tgt" and s1: "forM ops (run_op n tgt) s = Inr ((), s1)"
    using run by (auto simp: run_ops_def bindM_Inr_iff split: option.splits)
  have res: "resolves s s1" by (rule keepsD [OF resolution.keeps_for [OF run_op_resolves] s1])
  have attrs: "with_attrs s1 os l = with_attrs s os l" for os l
    by (simp add: with_attrs_def op_attrs_same [OF res refl])
  have fresh: "map_of sched n = None" using Cons.prems(2) by (simp add: p map_of_eq_None_iff)
  show ?case
    using Cons.IH [OF rest] Cons.prems(2) ops_attrs [OF s1, of m] tgt fresh
    by (cases "find_symbol s m") (auto simp: p attrs with_attrs_def [of s ops] split: option.splits)
qed

lemma symbols_attributes:
  assumes "wf_assembler s" and "finish_scheduled_work s = Inr ((), s')"
  shows "find_symbol s' n = map_option (with_attrs s (ops_for s n)) (find_symbol s n)"
proof -
  have "forM (m_schedule s) run_ops s = Inr ((), s')"
    using assms(2) by (simp add: finish_scheduled_work_def bindM_def)
  moreover have "distinct (map fst (m_schedule s))"
    using assms(1) by (simp add: wf_assembler_def strict_sorted_iff)
  ultimately show ?thesis
    by (subst schedule_attrs) (auto simp: ops_for_def with_attrs_def intro!: option.map_cong split: option.splits)
qed

end
