(* ===== verification/Encodings.thy ===== *)
theory Encodings
  imports LabelFacts
begin

text \<open>
  The instruction formats as the manual of the architecture draws them, with the table of
  the operations on registers, the loads and the stores; and that the handlers of
  \<^verbatim>\<open>opcodes.cpp\<close> return these words for their operands.
\<close>

section \<open>Formats\<close>

text \<open>Each format is the disjunction of its fields, every field of its own width.\<close>

definition R_word :: "u32 \<Rightarrow> u32 \<Rightarrow> u32 \<Rightarrow> u32 \<Rightarrow> u32 \<Rightarrow> u32 \<Rightarrow> u32" where
  "R_word f7 rs2 rs1 f3 rd opc =
     push_bit 25 (take_bit 7 f7) OR push_bit 20 (take_bit 5 rs2) OR push_bit 15 (take_bit 5 rs1)
     OR push_bit 12 (take_bit 3 f3) OR push_bit 7 (take_bit 5 rd) OR take_bit 7 opc"

definition I_word :: "u32 \<Rightarrow> u32 \<Rightarrow> u32 \<Rightarrow> u32 \<Rightarrow> u32 \<Rightarrow> u32" where
  "I_word imm rs1 f3 rd opc =
     push_bit 20 (take_bit 12 imm) OR push_bit 15 (take_bit 5 rs1)
     OR push_bit 12 (take_bit 3 f3) OR push_bit 7 (take_bit 5 rd) OR take_bit 7 opc"

definition S_word :: "u32 \<Rightarrow> u32 \<Rightarrow> u32 \<Rightarrow> u32 \<Rightarrow> u32 \<Rightarrow> u32" where
  "S_word imm rs2 rs1 f3 opc =
     push_bit 25 (take_bit 7 (drop_bit 5 imm)) OR push_bit 20 (take_bit 5 rs2)
     OR push_bit 15 (take_bit 5 rs1) OR push_bit 12 (take_bit 3 f3) OR push_bit 7 (take_bit 5 imm)
     OR take_bit 7 opc"

text \<open>
  Setting the fields of a word from the lowest to the highest, each above everything that is
  there, puts them side by side.
\<close>

definition below :: "nat \<Rightarrow> u32 \<Rightarrow> bool" where
  "below k w \<longleftrightarrow> take_bit k w = w"

lemma bit_below: "below k w \<Longrightarrow> bit w i \<Longrightarrow> i < k"
  unfolding below_def by (metis bit_take_bit_iff)

lemma set_field_above:
  assumes "below lo w"
  shows "set_field lo n v w = push_bit lo (take_bit n (word_of_int v)) OR w"
    and "below (lo + n) (set_field lo n v w)"
proof -
  show "set_field lo n v w = push_bit lo (take_bit n (word_of_int v)) OR w"
    unfolding set_field_def
    by (rule bit_word_eqI) (use bit_below [OF assms] in \<open>fastforce simp: bit_simps\<close>)
  show "below (lo + n) (set_field lo n v w)"
    unfolding below_def
    by (rule bit_word_eqI) (use bit_below [OF assms] in \<open>fastforce simp: bit_simps bit_set_field\<close>)
qed

lemma below_mono:
  assumes "below k w" and "k \<le> j"
  shows "below j w"
  unfolding below_def
  by (rule bit_word_eqI) (use bit_below [OF assms(1)] assms(2) in \<open>fastforce simp: bit_simps\<close>)

lemma below_fields:
  assumes "below 7 w"
  shows "below 12 (set_rd v w)" "below 12 (set_Stype_imm1 v w)"
  using set_field_above(2) [OF assms, of 5 v] by (simp_all add: field_defs)

lemma below_funct3: "below 12 w \<Longrightarrow> below 15 (set_funct3 v w)"
  using set_field_above(2) [of 12 w 3 v] by (simp add: field_defs)

lemma below_rs1: "below 15 w \<Longrightarrow> below 20 (set_rs1 v w)"
  using set_field_above(2) [of 15 w 5 v] by (simp add: field_defs)

lemma below_rs2: "below 20 w \<Longrightarrow> below 25 (set_rs2 v w)"
  using set_field_above(2) [of 20 w 5 v] by (simp add: field_defs)

lemmas side_by_side = below_fields below_funct3 below_rs1 below_rs2

lemma fields_above:
  "below 7 w \<Longrightarrow> set_rd v w = push_bit 7 (take_bit 5 (word_of_int v)) OR w"
  "below 7 w \<Longrightarrow> set_Stype_imm1 v w = push_bit 7 (take_bit 5 (word_of_int v)) OR w"
  "below 12 w \<Longrightarrow> set_funct3 v w = push_bit 12 (take_bit 3 (word_of_int v)) OR w"
  "below 15 w \<Longrightarrow> set_rs1 v w = push_bit 15 (take_bit 5 (word_of_int v)) OR w"
  "below 20 w \<Longrightarrow> set_rs2 v w = push_bit 20 (take_bit 5 (word_of_int v)) OR w"
  "below 20 w \<Longrightarrow> set_Itype_imm v w = push_bit 20 (take_bit 12 (word_of_int v)) OR w"
  "below 25 w \<Longrightarrow> set_funct7 v w = push_bit 25 (take_bit 7 (word_of_int v)) OR w"
  "below 25 w \<Longrightarrow> set_Stype_imm2 v w = push_bit 25 (take_bit 7 (word_of_int v)) OR w"
  by (simp_all only: field_defs set_field_above(1))

text \<open>The words the handlers build, in the order in which they build them.\<close>

definition head_fields :: "int \<Rightarrow> int \<Rightarrow> int \<Rightarrow> u32 \<Rightarrow> u32" where
  "head_fields rs1 f3 rd opc = set_rs1 rs1 (set_funct3 f3 (set_rd rd opc))"

lemma head_fields_word:
  assumes "below 7 opc"
  shows "head_fields rs1 f3 rd opc = push_bit 15 (take_bit 5 (word_of_int rs1)) OR
      push_bit 12 (take_bit 3 (word_of_int f3)) OR push_bit 7 (take_bit 5 (word_of_int rd)) OR take_bit 7 opc"
    and "below 20 (head_fields rs1 f3 rd opc)"
proof -
  note b = below_fields(1) [OF assms, of rd]
  note c = below_funct3 [OF b, of f3]
  show "below 20 (head_fields rs1 f3 rd opc)" unfolding head_fields_def by (rule below_rs1 [OF c])
  show "head_fields rs1 f3 rd opc = push_bit 15 (take_bit 5 (word_of_int rs1)) OR
      push_bit 12 (take_bit 3 (word_of_int f3)) OR push_bit 7 (take_bit 5 (word_of_int rd)) OR take_bit 7 opc"
    unfolding head_fields_def unfolding fields_above(4) [OF c] unfolding fields_above(3) [OF b] unfolding fields_above(1) [OF assms]
    using assms by (simp add: below_def or.assoc)
qed

lemma R_word_fields:
  assumes "below 7 opc"
  shows "set_funct7 f7 (set_rs2 rs2 (head_fields rs1 f3 rd opc)) =
    R_word (word_of_int f7) (word_of_int rs2) (word_of_int rs1) (word_of_int f3) (word_of_int rd) opc"
    and "set_rs2 rs2 (head_fields rs1 f3 rd opc) =
    R_word 0 (word_of_int rs2) (word_of_int rs1) (word_of_int f3) (word_of_int rd) opc"
proof -
  note h = head_fields_word [OF assms, of rs1 f3 rd]
  note r = below_rs2 [OF h(2), of rs2]
  show "set_funct7 f7 (set_rs2 rs2 (head_fields rs1 f3 rd opc)) =
    R_word (word_of_int f7) (word_of_int rs2) (word_of_int rs1) (word_of_int f3) (word_of_int rd) opc"
    unfolding fields_above(7) [OF r] unfolding fields_above(5) [OF h(2)] unfolding h(1) by (simp only: R_word_def)
  show "set_rs2 rs2 (head_fields rs1 f3 rd opc) =
    R_word 0 (word_of_int rs2) (word_of_int rs1) (word_of_int f3) (word_of_int rd) opc"
    unfolding fields_above(5) [OF h(2)] unfolding h(1) by (simp add: R_word_def)
qed

lemma I_word_fields:
  assumes "below 7 opc"
  shows "set_Itype_imm imm (head_fields rs1 f3 rd opc) =
    I_word (word_of_int imm) (word_of_int rs1) (word_of_int f3) (word_of_int rd) opc"
    and "head_fields rs1 f3 rd opc = I_word 0 (word_of_int rs1) (word_of_int f3) (word_of_int rd) opc"
proof -
  note h = head_fields_word [OF assms, of rs1 f3 rd]
  show "set_Itype_imm imm (head_fields rs1 f3 rd opc) =
    I_word (word_of_int imm) (word_of_int rs1) (word_of_int f3) (word_of_int rd) opc"
    unfolding fields_above(6) [OF h(2)] unfolding h(1) by (simp only: I_word_def)
  show "head_fields rs1 f3 rd opc = I_word 0 (word_of_int rs1) (word_of_int f3) (word_of_int rd) opc"
    unfolding h(1) by (simp add: I_word_def)
qed

lemma S_word_fields:
  assumes "below 7 opc"
  shows "set_Stype_imm imm (set_rs2 rs2 (set_rs1 rs1 (set_funct3 f3 opc))) =
    S_word (word_of_int imm) (word_of_int rs2) (word_of_int rs1) (word_of_int f3) opc"
    and "set_rs2 rs2 (set_rs1 rs1 (set_funct3 f3 opc)) =
    S_word 0 (word_of_int rs2) (word_of_int rs1) (word_of_int f3) opc"
proof -
  have low: "set_Stype_imm1 imm (set_rs2 rs2 (set_rs1 rs1 (set_funct3 f3 opc))) =
      set_rs2 rs2 (set_rs1 rs1 (set_funct3 f3 (set_Stype_imm1 imm opc)))"
    by (simp add: field_defs set_field_commute [where lo = 7])
  note a = below_fields(2) [OF assms, of imm]
  note b = below_funct3 [OF a, of f3]
  note c = below_rs1 [OF b, of rs1]
  note d = below_rs2 [OF c, of rs2]
  have high: "push_bit 25 (take_bit 7 (word_of_int (drop_bit 5 imm))) = (push_bit 25 (take_bit 7 (drop_bit 5 (word_of_int imm))) :: u32)"
    by (rule bit_word_eqI) (auto simp: bit_simps)
  show "set_Stype_imm imm (set_rs2 rs2 (set_rs1 rs1 (set_funct3 f3 opc))) =
    S_word (word_of_int imm) (word_of_int rs2) (word_of_int rs1) (word_of_int f3) opc"
    unfolding set_Stype_imm_def low unfolding fields_above(8) [OF d] unfolding fields_above(5) [OF c]
    unfolding fields_above(4) [OF b] unfolding fields_above(3) [OF a] unfolding fields_above(2) [OF assms] high
    using assms by (simp add: S_word_def below_def or.assoc)
  have z: "below 12 opc" using assms by (rule below_mono) simp
  note y = below_funct3 [OF z, of f3]
  note x = below_rs1 [OF y, of rs1]
  show "set_rs2 rs2 (set_rs1 rs1 (set_funct3 f3 opc)) =
    S_word 0 (word_of_int rs2) (word_of_int rs1) (word_of_int f3) opc"
    unfolding fields_above(5) [OF x] unfolding fields_above(4) [OF y] unfolding fields_above(3) [OF z]
    using assms by (simp add: S_word_def below_def or.assoc)
qed

section \<open>The operations\<close>

text \<open>
  The words of the assembly language with the codes of the manual: the operations that have
  an immediate form, with \<^verbatim>\<open>funct3\<close>, and those that have none, with \<^verbatim>\<open>funct3\<close> and
  \<^verbatim>\<open>funct7\<close>. The suffix gives the width; the major opcode of the 64-bit operations on a
  128-bit machine is \<open>0x7B\<close> in the manual, and \<open>0x5B\<close>, the one of their immediate form, in
  the code.
\<close>

definition shared_ops :: "(string \<times> u32) list" where
  "shared_ops = [(''add'', 0), (''sll'', 1), (''slt'', 2), (''sltu'', 3), (''xor'', 4), (''srl'', 5), (''or'', 6), (''and'', 7)]"

definition register_ops :: "(string \<times> u32 \<times> u32) list" where
  "register_ops = [(''sub'', 0, 0x20), (''mul'', 0, 1), (''div'', 4, 1), (''divu'', 5, 1), (''rem'', 6, 1), (''remu'', 7, 1)]"

definition words_of_ops :: "string \<Rightarrow> u32 \<Rightarrow> (string \<times> u32 \<times> u32) list \<Rightarrow> (string \<times> u32 \<times> u32 \<times> u32) list" where
  "words_of_ops suffix opc ops = map (\<lambda>(w, f3, f7). (w @ suffix, opc, f3, f7)) ops"

definition register_table :: "(string \<times> u32 \<times> u32 \<times> u32) list" where
  "register_table =
     (let shared = map (\<lambda>(w, f3). (w, f3, 0)) shared_ops
      in words_of_ops [] 0x33 (shared @ register_ops) @ words_of_ops ''w'' 0x3B (shared @ register_ops) @
         words_of_ops ''d'' 0x7B register_ops @ words_of_ops ''d'' 0x5B shared)"

definition immediate_table :: "(string \<times> u32 \<times> u32) list" where
  "immediate_table = map (\<lambda>(w, f3). (w, 0x13, f3)) shared_ops @
     map (\<lambda>(w, f3). (w @ ''w'', 0x1B, f3)) shared_ops @ map (\<lambda>(w, f3). (w @ ''d'', 0x5B, f3)) shared_ops"

text \<open>The operands: the registers behind the cursor.\<close>

definition reg_at :: "Assembler \<Rightarrow> nat \<Rightarrow> nat \<Rightarrow> bool" where
  "reg_at s i r \<longleftrightarrow> index s + i < length (tokens s) \<and>
     tk_type (tokens s ! (index s + i)) = TK_REGISTER \<and> i64_of (tokens s ! (index s + i)) = int r"

lemma reg_at_next:
  assumes "reg_at s 0 r"
  shows "next_tk TK_REGISTER s = Inr (tokens s ! index s, s\<lparr>index := Suc (index s)\<rparr>)"
    and "next_is TK_REGISTER s" and "i64_of (tokens s ! index s) = int r"
  using assms by (simp_all add: reg_at_def next_tk_def next_token_def bindM_def next_is_def done_tokens_def)

lemma reg_at_moved [simp]: "reg_at (s\<lparr>index := index s + k\<rparr>) i r = reg_at s (k + i) r"
  "reg_at (s\<lparr>index := Suc (index s)\<rparr>) i r = reg_at s (Suc i) r"
  "reg_at (s\<lparr>index := Suc (Suc (index s))\<rparr>) i r = reg_at s (Suc (Suc i)) r"
  by (simp_all add: reg_at_def add.assoc)

lemma optional_register_next:
  "reg_at s 0 r \<Longrightarrow> optional_register s = Inr (Some (tokens s ! index s), s\<lparr>index := Suc (index s)\<rparr>)"
  "\<not> next_is TK_REGISTER s \<Longrightarrow> optional_register s = Inr (None, s)"
  by (simp_all add: optional_register_def bindM_def reg_at_next)

section \<open>Registers\<close>

text \<open>What the handler of an opcode puts into the fields of its register form.\<close>

fun register_form :: "Opcode \<Rightarrow> (u32 \<times> u32 \<times> u32) option" where
  "register_form (OP_ADD opc) = Some (set_opcode (uint (register_opcode opc)) opc, 0, 0)"
| "register_form (OP_SLL opc) = Some (set_opcode (uint (register_opcode opc)) opc, 1, 0)"
| "register_form (OP_SLT opc) = Some (set_opcode (uint (register_opcode opc)) opc, 2, 0)"
| "register_form (OP_SLTU opc) = Some (set_opcode (uint (register_opcode opc)) opc, 3, 0)"
| "register_form (OP_SRL opc) = Some (set_opcode (uint (register_opcode opc)) opc, 5, 0)"
| "register_form (OP_AND opc) = Some (set_opcode (uint (register_opcode opc)) opc, 7, 0)"
| "register_form (OP_OR opc) = Some (set_opcode (uint (register_opcode opc)) opc, 6, 0)"
| "register_form (OP_XOR opc) = Some (set_opcode (uint (register_opcode opc)) opc, 4, 0)"
| "register_form (OP_SUB opc) = Some (opc, 0, 0x20)"
| "register_form (OP_MUL opc) = Some (opc, 0, 1)"
| "register_form (OP_DIV opc) = Some (opc, 4, 1)"
| "register_form (OP_DIVU opc) = Some (opc, 5, 1)"
| "register_form (OP_REM opc) = Some (opc, 6, 1)"
| "register_form (OP_REMU opc) = Some (opc, 7, 1)"
| "register_form _ = None"

lemma register_table_forms:
  assumes "(word, opc, f3, f7) \<in> set register_table"
  obtains op where "map_of opcode_list word = Some op" and "register_form op = Some (opc, f3, f7)" and "below 7 opc"
proof -
  have "list_all (\<lambda>(word, opc, f3, f7). take_bit 7 opc = opc \<and>
      (case map_of opcode_list word of Some op \<Rightarrow> register_form op = Some (opc, f3, f7) | None \<Rightarrow> False)) register_table"
    by code_simp
  then show thesis using assms that by (fastforce simp: list_all_iff below_def split: option.splits)
qed

lemma source_registers_fields:
  "source_registers reg reg2 (Some r3) (set_funct3 f3 (set_rd rd opc)) = set_rs2 (i64_of r3) (head_fields (i64_of reg2) f3 rd opc)"
  "source_registers reg reg2 None (set_funct3 f3 (set_rd rd opc)) = set_rs2 (i64_of reg2) (head_fields (i64_of reg) f3 rd opc)"
  by (simp_all add: source_registers_def head_fields_def)

lemma op_f7_three:
  assumes "below 7 opc" and "reg_at s 0 rd" "reg_at s 1 rs1" "reg_at s 2 rs2"
  shows "op_f7_helper opc f3 f7 s =
    Inr (R_word (word_of_int f7) (of_nat rs2) (of_nat rs1) (word_of_int f3) (of_nat rd) opc, s\<lparr>index := index s + 3\<rparr>)"
  using assms(2-) reg_at_next [of s rd] reg_at_next [of "s\<lparr>index := Suc (index s)\<rparr>" rs1]
    reg_at_next(3) [of "s\<lparr>index := Suc (Suc (index s))\<rparr>" rs2]
    optional_register_next(1) [of "s\<lparr>index := Suc (Suc (index s))\<rparr>" rs2]
  by (simp add: op_f7_helper_def bindM_def source_registers_fields R_word_fields(1) [OF assms(1)] numeral_nat)

lemma op_f7_two:
  assumes "below 7 opc" and "reg_at s 0 rd" "reg_at s 1 rs" "\<not> next_is TK_REGISTER (s\<lparr>index := index s + 2\<rparr>)"
  shows "op_f7_helper opc f3 f7 s =
    Inr (R_word (word_of_int f7) (of_nat rs) (of_nat rd) (word_of_int f3) (of_nat rd) opc, s\<lparr>index := index s + 2\<rparr>)"
  using assms(2-) reg_at_next [of s rd] reg_at_next [of "s\<lparr>index := Suc (index s)\<rparr>" rs]
    optional_register_next(2) [of "s\<lparr>index := Suc (Suc (index s))\<rparr>"]
  by (simp add: op_f7_helper_def bindM_def source_registers_fields R_word_fields(1) [OF assms(1)])

lemma register_not_constant: "next_is TK_REGISTER s \<Longrightarrow> \<not> next_is TK_CONSTANT s"
  by (auto simp: next_is_def split: if_splits)

lemma op_imm_three:
  assumes "below 7 (set_opcode (uint (register_opcode opc)) opc)" and "reg_at s 0 rd" "reg_at s 1 rs1" "reg_at s 2 rs2"
  shows "op_imm_helper opc f3 s =
    Inr (R_word 0 (of_nat rs2) (of_nat rs1) (word_of_int f3) (of_nat rd) (set_opcode (uint (register_opcode opc)) opc),
      s\<lparr>index := index s + 3\<rparr>)"
proof -
  have first: "reg_at (s\<lparr>index := Suc (index s)\<rparr>) 0 rs1" and second: "reg_at (s\<lparr>index := Suc (Suc (index s))\<rparr>) 0 rs2"
    using assms by (simp_all add: numeral_nat)
  show ?thesis
    using assms(2-) reg_at_next [of s rd] reg_at_next [OF first] register_not_constant [OF reg_at_next(2) [OF first]]
      reg_at_next(3) [OF second] optional_register_next(1) [OF second]
    by (simp add: op_imm_helper_def bindM_def source_registers_fields R_word_fields(2) [OF assms(1)] numeral_nat)
qed

lemma op_imm_two:
  assumes "below 7 (set_opcode (uint (register_opcode opc)) opc)" and "reg_at s 0 rd" "reg_at s 1 rs"
    and "\<not> next_is TK_REGISTER (s\<lparr>index := index s + 2\<rparr>)"
  shows "op_imm_helper opc f3 s =
    Inr (R_word 0 (of_nat rs) (of_nat rd) (word_of_int f3) (of_nat rd) (set_opcode (uint (register_opcode opc)) opc),
      s\<lparr>index := index s + 2\<rparr>)"
proof -
  have first: "reg_at (s\<lparr>index := Suc (index s)\<rparr>) 0 rs" using assms by simp
  show ?thesis
    using assms(2-) reg_at_next [of s rd] reg_at_next [OF first] register_not_constant [OF reg_at_next(2) [OF first]]
      optional_register_next(2) [of "s\<lparr>index := Suc (Suc (index s))\<rparr>"]
    by (simp add: op_imm_helper_def bindM_def source_registers_fields R_word_fields(2) [OF assms(1)])
qed

text \<open>Three registers, or two, of which the first is then a source as well.\<close>

lemma register_form_three:
  assumes "register_form op = Some (opc, f3, f7)" and "below 7 opc" and "reg_at s 0 rd" "reg_at s 1 rs1" "reg_at s 2 rs2"
  shows "opcode_handler op s =
    Inr ([R_word f7 (of_nat rs2) (of_nat rs1) f3 (of_nat rd) opc], s\<lparr>index := index s + 3\<rparr>)"
  using assms(1,2) op_imm_three [OF _ assms(3-5)] op_f7_three [OF _ assms(3-5)]
  by (cases op) (simp_all add: wrapper_defs single_def bindM_def)

lemma register_form_two:
  assumes "register_form op = Some (opc, f3, f7)" and "below 7 opc" and "reg_at s 0 rd" "reg_at s 1 rs"
    and "\<not> next_is TK_REGISTER (s\<lparr>index := index s + 2\<rparr>)"
  shows "opcode_handler op s =
    Inr ([R_word f7 (of_nat rs) (of_nat rd) f3 (of_nat rd) opc], s\<lparr>index := index s + 2\<rparr>)"
  using assms(1,2) op_imm_two [OF _ assms(3-5)] op_f7_two [OF _ assms(3-5)]
  by (cases op) (simp_all add: wrapper_defs single_def bindM_def)

section \<open>Immediates\<close>

fun immediate_form :: "Opcode \<Rightarrow> (u32 \<times> u32) option" where
  "immediate_form (OP_ADD opc) = Some (opc, 0)"
| "immediate_form (OP_SLL opc) = Some (opc, 1)"
| "immediate_form (OP_SLT opc) = Some (opc, 2)"
| "immediate_form (OP_SLTU opc) = Some (opc, 3)"
| "immediate_form (OP_SRL opc) = Some (opc, 5)"
| "immediate_form (OP_AND opc) = Some (opc, 7)"
| "immediate_form (OP_OR opc) = Some (opc, 6)"
| "immediate_form (OP_XOR opc) = Some (opc, 4)"
| "immediate_form _ = None"

lemma immediate_table_forms:
  assumes "(word, opc, f3) \<in> set immediate_table"
  obtains op where "map_of opcode_list word = Some op" and "immediate_form op = Some (opc, f3)" and "below 7 opc"
proof -
  have "list_all (\<lambda>(word, opc, f3). take_bit 7 opc = opc \<and>
      (case map_of opcode_list word of Some op \<Rightarrow> immediate_form op = Some (opc, f3) | None \<Rightarrow> False)) immediate_table"
    by code_simp
  then show thesis using assms that by (fastforce simp: list_all_iff below_def split: option.splits)
qed

definition fits_immediate :: "int \<Rightarrow> bool" where
  "fits_immediate v \<longleftrightarrow> - 2048 \<le> v \<and> v \<le> 2047"

lemma op_imm_constant:
  assumes "below 7 opc" and "reg_at s 0 rd" and "next_is TK_CONSTANT (s\<lparr>index := index s + 1\<rparr>)"
    and "resolve_constants (s\<lparr>index := index s + 1\<rparr>) = Inr (c, s1)"
  shows "op_imm_helper opc f3 s =
    (if fits_immediate (i64_of c)
     then Inr (I_word (word_of_int (i64_of c)) (of_nat rd) (word_of_int f3) (of_nat rd) opc, s1)
     else Inl (RuntimeError (''Token: '' @ Token_to_string c)))"
  using assms(2-) reg_at_next [of s rd] I_word_fields(1) [OF assms(1), of "i64_of c" "int rd" f3 "int rd"]
  by (auto simp: op_imm_helper_def bindM_def fits_immediate_def token_exception_def head_fields_def)

lemma immediate_form_constant:
  assumes "immediate_form op = Some (opc, f3)" and "below 7 opc" and "reg_at s 0 rd"
    and "next_is TK_CONSTANT (s\<lparr>index := index s + 1\<rparr>)" and "resolve_constants (s\<lparr>index := index s + 1\<rparr>) = Inr (c, s1)"
  shows "opcode_handler op s =
    (if fits_immediate (i64_of c)
     then Inr ([I_word (word_of_int (i64_of c)) (of_nat rd) f3 (of_nat rd) opc], s1)
     else Inl (RuntimeError (''Token: '' @ Token_to_string c)))"
  using assms(1,2) op_imm_constant [OF _ assms(3-5)]
  by (cases op) (simp_all add: wrapper_defs single_def bindM_def)

section \<open>Loads and stores\<close>

definition load_table :: "(string \<times> u32) list" where
  "load_table = [(''lb'', 0), (''lh'', 1), (''lw'', 2), (''ld'', 3), (''lbu'', 4), (''lhu'', 5), (''lwu'', 6), (''lq'', 7)]"

definition store_table :: "(string \<times> u32) list" where
  "store_table = [(''sb'', 0), (''sh'', 1), (''sw'', 2), (''sd'', 3), (''sq'', 4)]"

text \<open>The offset, which may be left out; only its low twelve bits are encoded.\<close>

definition offset_of :: "Token option \<Rightarrow> u32" where
  "offset_of c = (case c of Some tk \<Rightarrow> word_of_int (i64_of tk) | None \<Rightarrow> 0)"

lemma below_load_store: "below 7 RV32I_LOAD" "below 7 RV32I_STORE"
  by (simp_all add: below_def opcode_values)

lemma load_helper_word:
  assumes "reg_at s 0 rd" and "optional_constant (s\<lparr>index := index s + 1\<rparr>) = Inr (c, s1)" and "reg_at s1 0 base"
  shows "load_helper f3 s =
    Inr ([I_word (offset_of c) (of_nat base) (word_of_int f3) (of_nat rd) 0x03], s1\<lparr>index := index s1 + 1\<rparr>)"
proof -
  have comm: "set_rs1 r (set_Itype_imm v w) = set_Itype_imm v (set_rs1 r w)" for r v w
    by (simp add: field_defs set_field_commute)
  note run = assms reg_at_next [of s rd] reg_at_next [of s1 base]
  show ?thesis
  proof (cases c)
    case None
    then show ?thesis
      using run I_word_fields(2) [OF below_load_store(1), of "int base" f3 "int rd"]
      by (simp add: load_helper_def bindM_def offset_of_def head_fields_def RV32I_LOAD_def)
  next
    case (Some tk)
    then show ?thesis
      using run I_word_fields(1) [OF below_load_store(1), of "i64_of tk" "int base" f3 "int rd"]
      by (simp add: load_helper_def bindM_def offset_of_def comm head_fields_def RV32I_LOAD_def)
  qed
qed

lemma store_helper_word:
  assumes "reg_at s 0 base" "reg_at s 1 src" and "optional_constant (s\<lparr>index := index s + 2\<rparr>) = Inr (c, s1)"
  shows "store_helper f3 s =
    Inr ([S_word (offset_of c) (of_nat src) (of_nat base) (word_of_int f3) 0x23], s1)"
proof -
  note run = assms reg_at_next [of s base] reg_at_next [of "s\<lparr>index := Suc (index s)\<rparr>" src]
  show ?thesis
  proof (cases c)
    case None
    then show ?thesis
      using run S_word_fields(2) [OF below_load_store(2), of "int src" "int base" f3]
      by (simp add: store_helper_def bindM_def offset_of_def RV32I_STORE_def)
  next
    case (Some tk)
    then show ?thesis
      using run S_word_fields(1) [OF below_load_store(2), of "i64_of tk" "int src" "int base" f3]
      by (simp add: store_helper_def bindM_def offset_of_def RV32I_STORE_def)
  qed
qed

fun load_form :: "Opcode \<Rightarrow> u32 option" where
  "load_form OP_LB = Some 0"
| "load_form OP_LH = Some 1"
| "load_form OP_LW = Some 2"
| "load_form OP_LD = Some 3"
| "load_form OP_LBU = Some 4"
| "load_form OP_LHU = Some 5"
| "load_form OP_LWU = Some 6"
| "load_form OP_LQ = Some 7"
| "load_form _ = None"

fun store_form :: "Opcode \<Rightarrow> u32 option" where
  "store_form OP_SB = Some 0"
| "store_form OP_SH = Some 1"
| "store_form OP_SW = Some 2"
| "store_form OP_SD = Some 3"
| "store_form OP_SQ = Some 4"
| "store_form _ = None"

lemma memory_tables:
  "list_all (\<lambda>(word, f3). case map_of opcode_list word of Some op \<Rightarrow> load_form op = Some f3 | None \<Rightarrow> False) load_table"
  "list_all (\<lambda>(word, f3). case map_of opcode_list word of Some op \<Rightarrow> store_form op = Some f3 | None \<Rightarrow> False) store_table"
  by code_simp+

lemma load_table_word:
  assumes "(word, f3) \<in> set load_table"
    and "reg_at s 0 rd" and "optional_constant (s\<lparr>index := index s + 1\<rparr>) = Inr (c, s1)" and "reg_at s1 0 base"
  shows "\<exists>op. map_of opcode_list word = Some op \<and> opcode_handler op s =
    Inr ([I_word (offset_of c) (of_nat base) f3 (of_nat rd) 0x03], s1\<lparr>index := index s1 + 1\<rparr>)"
proof -
  obtain op where op: "map_of opcode_list word = Some op" "load_form op = Some f3"
    using assms(1) memory_tables(1) by (fastforce simp: list_all_iff split: option.splits)
  have "opcode_handler op s =
    Inr ([I_word (offset_of c) (of_nat base) f3 (of_nat rd) 0x03], s1\<lparr>index := index s1 + 1\<rparr>)"
    using op(2) load_helper_word [OF assms(2-4)] by (cases op) (auto simp: wrapper_defs)
  with op(1) show ?thesis by blast
qed

lemma store_table_word:
  assumes "(word, f3) \<in> set store_table"
    and "reg_at s 0 base" "reg_at s 1 src" and "optional_constant (s\<lparr>index := index s + 2\<rparr>) = Inr (c, s1)"
  shows "\<exists>op. map_of opcode_list word = Some op \<and> opcode_handler op s =
    Inr ([S_word (offset_of c) (of_nat src) (of_nat base) f3 0x23], s1)"
proof -
  obtain op where op: "map_of opcode_list word = Some op" "store_form op = Some f3"
    using assms(1) memory_tables(2) by (fastforce simp: list_all_iff split: option.splits)
  have "opcode_handler op s = Inr ([S_word (offset_of c) (of_nat src) (of_nat base) f3 0x23], s1)"
    using op(2) store_helper_word [OF assms(2-4)] by (cases op) (auto simp: wrapper_defs)
  with op(1) show ?thesis by blast
qed

end
