(* ===== verification/ElfFacts.thy ===== *)
theory ElfFacts
  imports ElfWriter
begin

text \<open>
  What each part of the ELF writer appends to the buffer, and which members of which
  header it fills in.
\<close>

section \<open>Appending behind the headers\<close>

text \<open>
  Bytes are appended, and the section header with the number \<open>i\<close> counts them; the place
  of every section is kept.
\<close>

definition sh_shape :: "Elf_Shdr \<Rightarrow> u32 \<times> u32 \<times> u128" where
  "sh_shape sh = (sh_type sh, sh_link sh, sh_entsize sh)"

lemma sh_shape_simps [simp]:
  "sh_shape (sh\<lparr>sh_name := n\<rparr>) = sh_shape sh" "sh_shape (sh\<lparr>sh_size := z\<rparr>) = sh_shape sh"
  "sh_shape (sh\<lparr>sh_info := k\<rparr>) = sh_shape sh"
  by (simp_all add: sh_shape_def)

definition elf_adds :: "nat \<Rightarrow> u8 list \<Rightarrow> ElfFile \<Rightarrow> ElfFile \<Rightarrow> bool" where
  "elf_adds i bs f f' \<longleftrightarrow>
     elf_body f' = elf_body f @ bs \<and> elf_hdr f' = elf_hdr f \<and> elf_phdr f' = elf_phdr f \<and>
     length (elf_shdr f') = length (elf_shdr f) \<and>
     (\<forall>j. j \<noteq> i \<longrightarrow> elf_shdr f' ! j = elf_shdr f ! j) \<and>
     sh_offset (elf_shdr f' ! i) = sh_offset (elf_shdr f ! i) \<and>
     sh_size (elf_shdr f' ! i) = sh_size (elf_shdr f ! i) + of_nat (length bs) \<and>
     sh_shape (elf_shdr f' ! i) = sh_shape (elf_shdr f ! i)"

lemma elf_adds_nil: "elf_adds i [] f f"
  by (simp add: elf_adds_def)

lemma elf_adds_trans: "elf_adds i bs f g \<Longrightarrow> elf_adds i cs g h \<Longrightarrow> elf_adds i (bs @ cs) f h"
  by (simp add: elf_adds_def)

lemma elfbin_insert_simps [simp]:
  "elf_body (elfbin_insert cls bs f) = elf_body f @ bs" "elf_hdr (elfbin_insert cls bs f) = elf_hdr f"
  "elf_shdr (elfbin_insert cls bs f) = elf_shdr f" "elf_phdr (elfbin_insert cls bs f) = elf_phdr f"
  by (simp_all add: elfbin_insert_def Let_def)

lemma with_shdr_run:
  "with_shdr i g f = Inr f' \<longleftrightarrow>
     \<not> elf_moved f \<and> f' = f\<lparr>elf_shdr := (elf_shdr f)[i := g (elf_shdr f ! i)]\<rparr>"
  by (auto simp: with_shdr_def with_header_def)

lemma with_phdr_run:
  "with_phdr i g f = Inr f' \<longleftrightarrow>
     \<not> elf_moved f \<and> f' = f\<lparr>elf_phdr := (elf_phdr f)[i := g (elf_phdr f ! i)]\<rparr>"
  by (auto simp: with_phdr_def with_header_def)

text \<open>A change of a header that keeps the place and the size.\<close>

lemma with_shdr_adds:
  assumes "with_shdr i g f = Inr f'" and "i < length (elf_shdr f)"
    and "\<And>sh. sh_offset (g sh) = sh_offset sh" and "\<And>sh. sh_size (g sh) = sh_size sh"
    and "\<And>sh. sh_shape (g sh) = sh_shape sh"
  shows "elf_adds i [] f f'"
  using assms by (auto simp: with_shdr_run elf_adds_def sh_shape_def)

lemma str_add_adds:
  assumes "str_add cls n (ss, f) = Inr (ss', f')" and "str_shindex ss < length (elf_shdr f)"
  shows "elf_adds (str_shindex ss) (map char_byte n @ [0]) f f'"
    and "ss' = ss\<lparr>str_namelist := om_put n (str_offset ss) (str_namelist ss),
               str_offset := str_offset ss + (length n + 1)\<rparr>"
  using assms by (auto simp: str_add_def bindR_Inr_iff with_shdr_run elf_adds_def sh_shape_def)

lemma add_sym_adds:
  assumes "add_sym cls i y f = Inr f'" and "i < length (elf_shdr f)"
  shows "elf_adds i (sym_bytes cls y) f f'"
  using assms by (auto simp: add_sym_def with_shdr_run elf_adds_def sh_shape_def)

text \<open>The names of a string table, one behind the other, and where each begins.\<close>

definition name_bytes :: "string \<Rightarrow> u8 list" where
  "name_bytes n = map char_byte n @ [0]"

lemma length_name_bytes [simp]: "length (name_bytes n) = length n + 1"
  by (simp add: name_bytes_def)

definition strtab_bytes :: "string list \<Rightarrow> u8 list" where
  "strtab_bytes names = 0 # concat (map name_bytes names)"

lemma str_add_all_adds:
  assumes "str_add_all cls ns (ss, f) = Inr (ss', f')" and "str_shindex ss < length (elf_shdr f)"
  shows "elf_adds (str_shindex ss) (concat (map name_bytes ns)) f f' \<and> str_shindex ss' = str_shindex ss"
  using assms
proof (induction ns arbitrary: ss f)
  case Nil
  then show ?case by (simp add: elf_adds_nil)
next
  case (Cons n ns)
  obtain ss1 f1 where s1: "str_add cls n (ss, f) = Inr (ss1, f1)"
    and s2: "str_add_all cls ns (ss1, f1) = Inr (ss', f')"
    using Cons.prems(1) by (auto simp: bindR_Inr_iff)
  have a: "elf_adds (str_shindex ss) (name_bytes n) f f1" and ss1: "str_shindex ss1 = str_shindex ss"
    using str_add_adds [OF s1 Cons.prems(2)] by (simp_all add: name_bytes_def)
  then have "str_shindex ss1 < length (elf_shdr f1)" using Cons.prems(2) by (simp add: elf_adds_def)
  then have "elf_adds (str_shindex ss) (concat (map name_bytes ns)) f1 f' \<and> str_shindex ss' = str_shindex ss"
    using Cons.IH [OF s2] ss1 by simp
  with a show ?case by (auto intro: elf_adds_trans)
qed

text \<open>The name list holds the place of every name, when the names are distinct.\<close>

lemma str_add_all_names:
  assumes "str_add_all cls ns (ss, f) = Inr (ss', f')" and "distinct ns" and "k < length ns"
  shows "om_find (str_namelist ss') (ns ! k) =
    Some (str_offset ss + length (concat (map name_bytes (take k ns))))"
  using assms
proof (induction ns arbitrary: ss f k)
  case (Cons n ns)
  obtain ss1 f1 where s1: "str_add cls n (ss, f) = Inr (ss1, f1)"
    and s2: "str_add_all cls ns (ss1, f1) = Inr (ss', f')"
    using Cons.prems(1) by (auto simp: bindR_Inr_iff)
  have ss1: "ss1 = ss\<lparr>str_namelist := om_put n (str_offset ss) (str_namelist ss),
      str_offset := str_offset ss + (length n + 1)\<rparr>"
    using s1 by (auto simp: str_add_def bindR_Inr_iff with_shdr_run)
  have other: "om_find (str_namelist ss') m = om_find (str_namelist ss1) m"
    if "m \<notin> set ns" and "str_add_all cls ns (ss1, f1) = Inr (ss', f')" for m
    using that
  proof (induction ns arbitrary: ss1 f1)
    case (Cons n' ns)
    obtain ss2 f2 where "str_add cls n' (ss1, f1) = Inr (ss2, f2)"
      and "str_add_all cls ns (ss2, f2) = Inr (ss', f')"
      using Cons.prems(2) by (auto simp: bindR_Inr_iff)
    with Cons show ?case
      by (auto simp: str_add_def bindR_Inr_iff with_shdr_run om_find_put)
  qed simp
  show ?case
  proof (cases k)
    case 0
    then show ?thesis using other [of n] s2 Cons.prems(2) by (simp add: ss1 om_find_put)
  next
    case (Suc j)
    then have "om_find (str_namelist ss') (ns ! j) =
        Some (str_offset ss1 + length (concat (map name_bytes (take j ns))))"
      using Cons.IH [OF s2] Cons.prems(2,3) by simp
    then show ?thesis by (simp add: Suc ss1)
  qed
qed simp

text \<open>The symbol table.\<close>

definition entry_for :: "Assembler \<Rightarrow> ElfStringSection \<Rightarrow> string \<times> SymbolLocation \<Rightarrow> Elf_Sym" where
  "entry_for s ss = (\<lambda>(n, loc). sym_entry (the (om_find (str_namelist ss) n))
     (location_address s loc) (loc_type loc) (loc_size loc))"

lemma sym_add_all_adds:
  assumes "sym_add_all cls s ss syms f = Inr f'" and "2 < length (elf_shdr f)"
  shows "elf_adds 2 (concat (map (\<lambda>p. sym_bytes cls (entry_for s ss p)) syms)) f f'"
  using assms
proof (induction syms arbitrary: f)
  case Nil
  then show ?case by (simp add: elf_adds_nil)
next
  case (Cons p syms)
  obtain n loc where p: "p = (n, loc)" by (cases p)
  obtain f1 where s1: "sym_add cls 2 n (location_address s loc) (loc_type loc) (loc_size loc) ss f = Inr f1"
    and s2: "sym_add_all cls s ss syms f1 = Inr f'"
    using Cons.prems(1) by (auto simp: p bindR_Inr_iff)
  have "elf_adds 2 (sym_bytes cls (entry_for s ss p)) f f1"
    using s1 Cons.prems(2)
    by (auto simp: sym_add_def bindR_Inr_iff str_lookup_def p entry_for_def split: option.splits
        intro: add_sym_adds)
  moreover from this have "elf_adds 2 (concat (map (\<lambda>p. sym_bytes cls (entry_for s ss p)) syms)) f1 f'"
    using Cons.IH [OF s2] Cons.prems(2) by (simp add: elf_adds_def)
  ultimately show ?case by (auto intro: elf_adds_trans)
qed

section \<open>The parts of the file\<close>

text \<open>A table begins where the file ends.\<close>

definition elf_begins :: "ElfClass \<Rightarrow> nat \<Rightarrow> u32 \<times> u32 \<times> u128 \<Rightarrow> u8 list \<Rightarrow> ElfFile \<Rightarrow> ElfFile \<Rightarrow> bool" where
  "elf_begins cls i shape bs f f' \<longleftrightarrow>
     elf_body f' = elf_body f @ bs \<and> elf_hdr f' = elf_hdr f \<and> elf_phdr f' = elf_phdr f \<and>
     length (elf_shdr f') = length (elf_shdr f) \<and>
     (\<forall>j. j \<noteq> i \<longrightarrow> elf_shdr f' ! j = elf_shdr f ! j) \<and>
     sh_offset (elf_shdr f' ! i) = word_of_int (elfbin_size cls f) \<and>
     sh_size (elf_shdr f' ! i) = of_nat (length bs) \<and> sh_shape (elf_shdr f' ! i) = shape"

lemma elf_begins_adds: "elf_begins cls i shape bs f g \<Longrightarrow> elf_adds i cs g h \<Longrightarrow> elf_begins cls i shape (bs @ cs) f h"
  by (simp add: elf_begins_def elf_adds_def)

lemma ElfStringSection_new_begins:
  assumes "ElfStringSection_new cls i f = Inr (ss, f')" and "i < length (elf_shdr f)"
  shows "elf_begins cls i (SHT_STRTAB, 0, 1) [0] f f'" and "ss = \<lparr>str_namelist = [], str_shindex = i, str_offset = 1\<rparr>"
  using assms
  by (auto simp: ElfStringSection_new_def append_null_def bindR_Inr_iff with_shdr_run elf_begins_def sh_shape_def)

lemma ElfSymSection_new_begins:
  assumes "ElfSymSection_new cls i k f = Inr f'" and "i < length (elf_shdr f)"
  shows "elf_begins cls i (SHT_SYMTAB, of_nat k, of_nat (sizeof_Sym cls)) (sym_bytes cls Elf_Sym_zero) f f'"
  using assms
  by (auto simp: ElfSymSection_new_def add_sym_def bindR_Inr_iff with_shdr_run elf_begins_def sh_shape_def)

lemma write_shnames_begins:
  assumes "write_shnames cls f = Inr (ss, f')" and "1 < length (elf_shdr f)"
  shows "elf_begins cls 1 (SHT_STRTAB, 0, 1) (strtab_bytes [''.shstrtab'', ''.symtab'', ''.strtab'']) f f'"
proof -
  obtain s1 f1 s2 f2 f3 s4 f4 where 1: "ElfStringSection_new cls 1 f = Inr (s1, f1)"
    and 2: "str_add cls ''.shstrtab'' (s1, f1) = Inr (s2, f2)"
    and 3: "with_shdr 1 (\<lambda>sh. sh\<lparr>sh_name := of_nat (str_offset s1)\<rparr>) f2 = Inr f3"
    and 4: "str_add cls ''.symtab'' (s2, f3) = Inr (s4, f4)" "str_add cls ''.strtab'' (s4, f4) = Inr (ss, f')"
    using assms(1) unfolding write_shnames_def Let_def bindR_Inr_iff by (auto simp: bindR_Inr_iff)
  have b1: "elf_begins cls 1 (SHT_STRTAB, 0, 1) [0] f f1" and s1: "str_shindex s1 = 1"
    using ElfStringSection_new_begins [OF 1 assms(2)] by simp_all
  have a2: "elf_adds 1 (name_bytes ''.shstrtab'') f1 f2" and s2: "str_shindex s2 = 1"
    using str_add_adds [OF 2] b1 assms(2) s1 by (simp_all add: name_bytes_def elf_begins_def)
  have a3: "elf_adds 1 [] f2 f3"
    by (rule with_shdr_adds [OF 3]) (use a2 b1 assms(2) in \<open>simp_all add: elf_adds_def elf_begins_def\<close>)
  have a4: "elf_adds 1 (name_bytes ''.symtab'') f3 f4" and s4: "str_shindex s4 = 1"
    using str_add_adds [OF 4(1)] a3 a2 b1 assms(2) s2
    by (simp_all add: name_bytes_def elf_begins_def elf_adds_def)
  have a5: "elf_adds 1 (name_bytes ''.strtab'') f4 f'"
    using str_add_adds [OF 4(2)] a4 a3 a2 b1 assms(2) s4
    by (simp_all add: name_bytes_def elf_begins_def elf_adds_def)
  from elf_begins_adds [OF b1 elf_adds_trans [OF a2 elf_adds_trans [OF a3 elf_adds_trans [OF a4 a5]]]]
  show ?thesis by (simp add: strtab_bytes_def)
qed

lemma write_strings_begins:
  assumes run: "write_strings cls shn ns f = Inr (ss, f')" and len: "3 < length (elf_shdr f)"
  shows "elf_begins cls 3 (SHT_STRTAB, 0, 1) (0 # concat (map name_bytes ns)) f f'" and "str_shindex ss = 3"
    and "distinct ns \<Longrightarrow> k < length ns \<Longrightarrow>
      om_find (str_namelist ss) (ns ! k) = Some (1 + length (concat (map name_bytes (take k ns))))"
proof -
  obtain s1 f1 off f2 where 1: "ElfStringSection_new cls 3 f = Inr (s1, f1)"
    and 2: "with_shdr 3 (\<lambda>sh. sh\<lparr>sh_name := of_nat off\<rparr>) f1 = Inr f2"
    and 3: "str_add_all cls ns (s1, f2) = Inr (ss, f')"
    using run unfolding write_strings_def by (auto simp: bindR_Inr_iff)
  have b1: "elf_begins cls 3 (SHT_STRTAB, 0, 1) [0] f f1" and s1: "s1 = \<lparr>str_namelist = [], str_shindex = 3, str_offset = 1\<rparr>"
    using ElfStringSection_new_begins [OF 1 len] by simp_all
  have a2: "elf_adds 3 [] f1 f2"
    by (rule with_shdr_adds [OF 2]) (use b1 len in \<open>simp_all add: elf_begins_def\<close>)
  have a3: "elf_adds 3 (concat (map name_bytes ns)) f2 f' \<and> str_shindex ss = 3"
    using str_add_all_adds [OF 3] a2 b1 len by (simp add: s1 elf_adds_def elf_begins_def)
  show "elf_begins cls 3 (SHT_STRTAB, 0, 1) (0 # concat (map name_bytes ns)) f f'"
    using elf_begins_adds [OF b1 elf_adds_trans [OF a2]] a3 by fastforce
  show "str_shindex ss = 3" using a3 by simp
  show "om_find (str_namelist ss) (ns ! k) = Some (1 + length (concat (map name_bytes (take k ns))))"
    if "distinct ns" and "k < length ns"
    using str_add_all_names [OF 3 that] by (simp add: s1)
qed

lemma write_symbols_begins:
  assumes run: "write_symbols cls s shn ss syms f = Inr f'" and len: "2 < length (elf_shdr f)"
  shows "elf_begins cls 2 (SHT_SYMTAB, of_nat (str_shindex ss), of_nat (sizeof_Sym cls)) (sym_bytes cls Elf_Sym_zero @
    concat (map (\<lambda>p. sym_bytes cls (entry_for s ss p)) syms)) f f'"
proof -
  obtain f1 off f2 f3 where 1: "ElfSymSection_new cls 2 (str_shindex ss) f = Inr f1"
    and 2: "with_shdr 2 (\<lambda>sh. sh\<lparr>sh_name := of_nat off\<rparr>) f1 = Inr f2"
    and 3: "sym_add_all cls s ss syms f2 = Inr f3"
    and 4: "with_shdr 2 (\<lambda>sh. sh\<lparr>sh_info := of_nat (length syms + 1)\<rparr>) f3 = Inr f'"
    using run unfolding write_symbols_def by (auto simp: bindR_Inr_iff)
  have b1: "elf_begins cls 2 (SHT_SYMTAB, of_nat (str_shindex ss), of_nat (sizeof_Sym cls)) (sym_bytes cls Elf_Sym_zero) f f1"
    by (rule ElfSymSection_new_begins [OF 1 len])
  have a2: "elf_adds 2 [] f1 f2"
    by (rule with_shdr_adds [OF 2]) (use b1 len in \<open>simp_all add: elf_begins_def\<close>)
  have a3: "elf_adds 2 (concat (map (\<lambda>p. sym_bytes cls (entry_for s ss p)) syms)) f2 f3"
    using sym_add_all_adds [OF 3] a2 b1 len by (simp add: elf_adds_def elf_begins_def)
  have a4: "elf_adds 2 [] f3 f'"
    by (rule with_shdr_adds [OF 4]) (use a3 a2 b1 len in \<open>simp_all add: elf_adds_def elf_begins_def\<close>)
  from elf_begins_adds [OF b1 elf_adds_trans [OF a2 elf_adds_trans [OF a3 a4]]]
  show ?thesis by simp
qed

text \<open>The segments: every program header is filled in, the other headers stay.\<close>

lemma add_segments_run:
  assumes "add_segments cls i secs f = Inr f'" and "i + length secs \<le> length (elf_phdr f)"
  shows "elf_body f' = elf_body f @ concat (map sec_output secs) \<and> elf_hdr f' = elf_hdr f \<and>
    elf_shdr f' = elf_shdr f \<and> length (elf_phdr f') = length (elf_phdr f) \<and>
    (\<forall>j < i. elf_phdr f' ! j = elf_phdr f ! j) \<and>
    (\<forall>k < length secs. \<exists>ph. elf_phdr f' ! (i + k) = program_header (secs ! k)
       (elfbin_size cls f + int (length (concat (map sec_output (take k secs))))) ph)"
  using assms
proof (induction secs arbitrary: i f)
  case (Cons sec secs)
  let ?g = "f\<lparr>elf_phdr := (elf_phdr f)[i := program_header sec (elfbin_size cls f) (elf_phdr f ! i)]\<rparr>"
  have run: "add_segments cls (Suc i) secs (elfbin_insert cls (sec_output sec) ?g) = Inr f'"
    using Cons.prems(1) by (auto simp: bindR_Inr_iff with_phdr_run)
  have size: "elfbin_size cls (elfbin_insert cls (sec_output sec) ?g) =
      elfbin_size cls f + int (length (sec_output sec))"
    by (simp add: elfbin_size_def elfhdr_size_def)
  note IH = Cons.IH [OF run, unfolded size, simplified]
  have head: "elf_phdr f' ! i = program_header sec (elfbin_size cls f) (elf_phdr f ! i)"
    using IH Cons.prems(2) by simp
  have "\<exists>ph. elf_phdr f' ! (i + k) = program_header ((sec # secs) ! k)
      (elfbin_size cls f + int (length (concat (map sec_output (take k (sec # secs)))))) ph"
    if "k < length (sec # secs)" for k
  proof (cases k)
    case 0
    with head show ?thesis by auto
  next
    case (Suc j)
    then obtain ph where "elf_phdr f' ! (Suc i + j) = program_header (secs ! j)
        (elfbin_size cls f + int (length (sec_output sec)) +
         int (length (concat (map sec_output (take j secs))))) ph"
      using IH Cons.prems(2) \<open>k < length (sec # secs)\<close> by auto
    then show ?thesis by (auto simp: Suc add.assoc)
  qed
  then show ?case using IH Cons.prems(2) by (auto simp: less_Suc_eq)
qed simp

end
