(* ===== verification/ElfReader.thy ===== *)
theory ElfReader
  imports ElfLayout
begin

text \<open>
  An independent reader of ELF files, as a loader and a symbol dump use the format: the
  specification that the writer is held against. Nothing here mentions the writer.
\<close>

section \<open>Structures at a place in the file\<close>

definition read_ehdr :: "ElfClass \<Rightarrow> u8 list \<Rightarrow> Elf_Ehdr" where
  "read_ehdr cls bs =
     (let m = read_members 0 (replicate 16 1 @ [2, 2, 4, addr_bytes cls, addr_bytes cls,
                addr_bytes cls, 4, 2, 2, 2, 2, 2, 2]) bs
      in \<lparr>e_ident = map ucast (take 16 m), e_type = ucast (m ! 16), e_machine = ucast (m ! 17),
          e_version = ucast (m ! 18), e_entry = m ! 19, e_phoff = m ! 20, e_shoff = m ! 21,
          e_flags = ucast (m ! 22), e_ehsize = ucast (m ! 23), e_phentsize = ucast (m ! 24),
          e_phnum = ucast (m ! 25), e_shentsize = ucast (m ! 26), e_shnum = ucast (m ! 27),
          e_shstrndx = ucast (m ! 28)\<rparr>)"

definition read_shdr :: "ElfClass \<Rightarrow> u8 list \<Rightarrow> Elf_Shdr" where
  "read_shdr cls bs =
     (let m = read_members 0 [4, 4, addr_bytes cls, addr_bytes cls, addr_bytes cls,
                addr_bytes cls, 4, 4, addr_bytes cls, addr_bytes cls] bs
      in \<lparr>sh_name = ucast (m ! 0), sh_type = ucast (m ! 1), sh_flags = m ! 2, sh_addr = m ! 3,
          sh_offset = m ! 4, sh_size = m ! 5, sh_link = ucast (m ! 6), sh_info = ucast (m ! 7),
          sh_addralign = m ! 8, sh_entsize = m ! 9\<rparr>)"

definition read_phdr :: "ElfClass \<Rightarrow> u8 list \<Rightarrow> Elf_Phdr" where
  "read_phdr cls bs =
     (let m = read_members 0 [4, 4, addr_bytes cls, addr_bytes cls, addr_bytes cls,
                addr_bytes cls, addr_bytes cls, addr_bytes cls] bs
      in \<lparr>p_type = ucast (m ! 0), p_flags = ucast (m ! 1), p_offset = m ! 2, p_vaddr = m ! 3,
          p_paddr = m ! 4, p_filesz = m ! 5, p_memsz = m ! 6, p_align = m ! 7\<rparr>)"

definition read_sym :: "ElfClass \<Rightarrow> u8 list \<Rightarrow> Elf_Sym" where
  "read_sym cls bs =
     (let m = read_members 0 [4, 1, 1, 2, addr_bytes cls, addr_bytes cls] bs
      in \<lparr>st_name = ucast (m ! 0), st_info = ucast (m ! 1), st_other = ucast (m ! 2),
          st_shndx = ucast (m ! 3), st_value = m ! 4, st_size = m ! 5\<rparr>)"

text \<open>A member of the width of an address holds the low bytes of its value.\<close>

definition addr_trunc :: "ElfClass \<Rightarrow> u128 \<Rightarrow> u128" where
  "addr_trunc cls v = take_bit (8 * addr_bytes cls) v"

lemma addr_trunc_128 [simp]: "addr_trunc ELFCLASS128 v = v"
  by (simp add: addr_trunc_def take_bit_word_eq_self)

lemma addr_trunc_less: "unat v < 2 ^ 64 \<Longrightarrow> addr_trunc cls v = v"
  by (cases cls) (simp_all add: addr_trunc_def word_unat_eq_iff unsigned_take_bit_eq take_bit_nat_eq_self)

lemma take_bit_ucast_full:
  "n = LENGTH('a) \<Longrightarrow> take_bit n (ucast (w :: 'a::len word) :: u128) = ucast w"
  by (metis unsigned_ucast_eq take_bit_length_eq unsigned_take_bit_eq word_eq_iff_unsigned)

lemma take_bit_bytes [simp]:
  "take_bit 8 (ucast (b :: u8) :: u128) = ucast b" "take_bit 16 (ucast (h :: u16) :: u128) = ucast h"
  "take_bit 32 (ucast (w :: u32) :: u128) = ucast w"
  by (simp_all add: take_bit_ucast_full)

lemma ucast_ucast_u128 [simp]:
  "ucast (ucast (b :: u8) :: u128) = b" "ucast (ucast (h :: u16) :: u128) = h"
  "ucast (ucast (w :: u32) :: u128) = w"
  by (auto intro!: bit_word_eqI simp: bit_simps dest: bit_imp_le_length)

lemma read_shdr_bytes:
  "read_shdr cls (shdr_bytes cls h @ r) = h\<lparr>sh_flags := addr_trunc cls (sh_flags h),
     sh_addr := addr_trunc cls (sh_addr h), sh_offset := addr_trunc cls (sh_offset h),
     sh_size := addr_trunc cls (sh_size h), sh_addralign := addr_trunc cls (sh_addralign h),
     sh_entsize := addr_trunc cls (sh_entsize h)\<rparr>"
proof -
  have "map fst (shdr_fields cls h) = [4, 4, addr_bytes cls, addr_bytes cls, addr_bytes cls,
      addr_bytes cls, 4, 4, addr_bytes cls, addr_bytes cls]" by (simp add: shdr_fields_def)
  note read = read_struct [of "shdr_fields cls h" "addr_bytes cls" r, unfolded this]
  have members: "read_members 0 [4, 4, addr_bytes cls, addr_bytes cls, addr_bytes cls,
      addr_bytes cls, 4, 4, addr_bytes cls, addr_bytes cls] (shdr_bytes cls h @ r) =
    [ucast (sh_name h), ucast (sh_type h), addr_trunc cls (sh_flags h),
      addr_trunc cls (sh_addr h), addr_trunc cls (sh_offset h), addr_trunc cls (sh_size h),
      ucast (sh_link h), ucast (sh_info h), addr_trunc cls (sh_addralign h), addr_trunc cls (sh_entsize h)]"
    unfolding shdr_bytes_def read by (simp add: shdr_fields_def addr_trunc_def)
  show ?thesis unfolding read_shdr_def members by simp
qed

lemma read_phdr_bytes:
  "read_phdr cls (phdr_bytes cls h @ r) = h\<lparr>p_offset := addr_trunc cls (p_offset h),
     p_vaddr := addr_trunc cls (p_vaddr h), p_paddr := addr_trunc cls (p_paddr h),
     p_filesz := addr_trunc cls (p_filesz h), p_memsz := addr_trunc cls (p_memsz h),
     p_align := addr_trunc cls (p_align h)\<rparr>"
proof -
  have "map fst (phdr_fields cls h) = [4, 4, addr_bytes cls, addr_bytes cls, addr_bytes cls,
      addr_bytes cls, addr_bytes cls, addr_bytes cls]" by (simp add: phdr_fields_def)
  note read = read_struct [of "phdr_fields cls h" "addr_bytes cls" r, unfolded this]
  have members: "read_members 0 [4, 4, addr_bytes cls, addr_bytes cls, addr_bytes cls,
      addr_bytes cls, addr_bytes cls, addr_bytes cls] (phdr_bytes cls h @ r) =
    [ucast (p_type h), ucast (p_flags h), addr_trunc cls (p_offset h), addr_trunc cls (p_vaddr h),
      addr_trunc cls (p_paddr h), addr_trunc cls (p_filesz h), addr_trunc cls (p_memsz h),
      addr_trunc cls (p_align h)]"
    unfolding phdr_bytes_def read by (simp add: phdr_fields_def addr_trunc_def)
  show ?thesis unfolding read_phdr_def members by simp
qed

lemma read_sym_bytes:
  "read_sym cls (sym_bytes cls y @ r) = y\<lparr>st_value := addr_trunc cls (st_value y),
     st_size := addr_trunc cls (st_size y)\<rparr>"
proof -
  have "map fst (sym_fields cls y) = [4, 1, 1, 2, addr_bytes cls, addr_bytes cls]"
    by (simp add: sym_fields_def)
  note read = read_struct [of "sym_fields cls y" "addr_bytes cls" r, unfolded this]
  have members: "read_members 0 [4, 1, 1, 2, addr_bytes cls, addr_bytes cls] (sym_bytes cls y @ r) =
    [ucast (st_name y), ucast (st_info y), ucast (st_other y), ucast (st_shndx y),
      addr_trunc cls (st_value y), addr_trunc cls (st_size y)]"
    unfolding sym_bytes_def read by (simp add: sym_fields_def addr_trunc_def)
  show ?thesis unfolding read_sym_def members by simp
qed

lemma read_ehdr_bytes:
  assumes "length (e_ident h) = 16"
  shows "read_ehdr cls (ehdr_bytes cls h @ r) = h\<lparr>e_entry := addr_trunc cls (e_entry h),
     e_phoff := addr_trunc cls (e_phoff h), e_shoff := addr_trunc cls (e_shoff h)\<rparr>"
proof -
  have ident: "map fst (map (\<lambda>b. (1 :: nat, ucast b :: u128)) (e_ident h)) = replicate 16 1"
    using assms by (simp add: map_replicate_const comp_def)
  have "map fst (ehdr_fields cls h) = replicate 16 1 @
      [2, 2, 4, addr_bytes cls, addr_bytes cls, addr_bytes cls, 4, 2, 2, 2, 2, 2, 2]"
    unfolding ehdr_fields_def map_append ident by (simp only: list.map fst_conv)
  note read = read_struct [of "ehdr_fields cls h" "addr_bytes cls" r, unfolded this]
  have members: "read_members 0 (replicate 16 1 @ [2, 2, 4, addr_bytes cls, addr_bytes cls,
      addr_bytes cls, 4, 2, 2, 2, 2, 2, 2]) (ehdr_bytes cls h @ r) =
    map ucast (e_ident h) @ [ucast (e_type h), ucast (e_machine h), ucast (e_version h),
      addr_trunc cls (e_entry h), addr_trunc cls (e_phoff h), addr_trunc cls (e_shoff h),
      ucast (e_flags h), ucast (e_ehsize h), ucast (e_phentsize h), ucast (e_phnum h),
      ucast (e_shentsize h), ucast (e_shnum h), ucast (e_shstrndx h)]"
    unfolding ehdr_bytes_def read by (simp add: ehdr_fields_def addr_trunc_def comp_def)
  show ?thesis
    unfolding read_ehdr_def members using assms
    by (simp add: nth_append comp_def)
qed

section \<open>Tables\<close>

definition read_section_header :: "ElfClass \<Rightarrow> u8 list \<Rightarrow> nat \<Rightarrow> Elf_Shdr" where
  "read_section_header cls file i =
     (let h = read_ehdr cls file
      in read_shdr cls (drop (unat (e_shoff h) + i * unat (e_shentsize h)) file))"

definition read_program_header :: "ElfClass \<Rightarrow> u8 list \<Rightarrow> nat \<Rightarrow> Elf_Phdr" where
  "read_program_header cls file i =
     (let h = read_ehdr cls file
      in read_phdr cls (drop (unat (e_phoff h) + i * unat (e_phentsize h)) file))"

definition byte_char :: "u8 \<Rightarrow> char" where
  "byte_char b = char_of (unat b)"

lemma byte_char_char_byte [simp]: "byte_char (char_byte c) = c"
proof -
  have "char_byte c = of_nat (of_char c)" by (simp only: char_byte_def of_nat_of_char)
  then have "unat (char_byte c) = of_char c"
    by (simp add: unsigned_of_nat take_bit_nat_eq_self)
  then show ?thesis by (simp add: byte_char_def)
qed

text \<open>The string that begins in a string table at an offset.\<close>

definition read_string :: "u8 list \<Rightarrow> Elf_Shdr \<Rightarrow> nat \<Rightarrow> string" where
  "read_string file strtab off =
     map byte_char (takeWhile (\<lambda>b. b \<noteq> 0) (drop (unat (sh_offset strtab) + off) file))"

text \<open>
  The symbols: the entries of the first symbol table behind the empty one, each with its
  name in the string table that the table is linked to, its value and its size.
\<close>

definition elf_symbols :: "ElfClass \<Rightarrow> u8 list \<Rightarrow> (string \<times> u128 \<times> u128) list" where
  "elf_symbols cls file =
     (let headers = map (read_section_header cls file) [0..<unat (e_shnum (read_ehdr cls file))]
      in case filter (\<lambda>sh. sh_type sh = 2) headers of
        [] \<Rightarrow> []
      | symtab # _ \<Rightarrow>
          map (\<lambda>k. let y = read_sym cls (drop (unat (sh_offset symtab) + k * unat (sh_entsize symtab)) file)
                   in (read_string file (read_section_header cls file (unat (sh_link symtab))) (unat (st_name y)),
                       st_value y, st_size y))
            [1..<unat (sh_size symtab) div unat (sh_entsize symtab)])"

text \<open>
  The memory that is loaded: for each program header of type \<^verbatim>\<open>PT_LOAD\<close> the address, the
  flags and the contents, the bytes of the file filled up with zeros.
\<close>

definition elf_segments :: "ElfClass \<Rightarrow> u8 list \<Rightarrow> (u128 \<times> u32 \<times> u8 list) list" where
  "elf_segments cls file =
     map (\<lambda>ph. (p_vaddr ph, p_flags ph,
         take (unat (p_filesz ph)) (drop (unat (p_offset ph)) file) @
         replicate (unat (p_memsz ph) - unat (p_filesz ph)) 0))
       (filter (\<lambda>ph. p_type ph = 1)
         (map (read_program_header cls file) [0..<unat (e_phnum (read_ehdr cls file))]))"

lemma takeWhile_name:
  "CHR 0x00 \<notin> set n \<Longrightarrow> map byte_char (takeWhile (\<lambda>b. b \<noteq> 0) (map char_byte n @ [0] @ r)) = n"
proof (induction n)
  case (Cons c n)
  have "char_byte c \<noteq> 0"
  proof
    assume "char_byte c = 0"
    then have "byte_char (char_byte c) = byte_char 0" by (simp only:)
    then have "c = byte_char 0" by (simp only: byte_char_char_byte)
    then show False using Cons.prems by (simp add: byte_char_def char_of_def)
  qed
  with Cons show ?case by simp
qed simp

end
