(* ===== verification/ElfImage.thy ===== *)
theory ElfImage
  imports ElfFacts ElfReader "HOL-Library.Multiset"
begin

text \<open>
  The writer held against the reader: what a reader finds in the bytes of a written file,
  through the file header to the section and program headers, and through them to the
  symbols, their names and the contents of the sections.
\<close>

section \<open>Reading the headers back\<close>

text \<open>The file as far as its headers say where things are.\<close>

definition elf_headed :: "ElfClass \<Rightarrow> u128 \<Rightarrow> ElfFile \<Rightarrow> bool" where
  "elf_headed cls entry f \<longleftrightarrow>
     elf_hdr f = elf_header cls entry (length (elf_phdr f)) \<and> length (elf_shdr f) = 4 \<and>
     length (elf_phdr f) < 2 ^ 16"

lemma length_ident [simp]: "length (e_ident (elf_header cls entry n)) = 16"
  by (simp add: elf_header_def)

lemma sizeof_ElfData_eq: "sizeof_ElfData cls = sizeof_Ehdr cls + 4 * sizeof_Shdr cls"
  by (simp add: sizeof_ElfData_def ElfData_S_def)

lemma read_ehdr_elfbin:
  assumes "elf_headed cls entry f"
  shows "read_ehdr cls (elfbin cls f) =
    elf_header cls (addr_trunc cls entry) (length (elf_phdr f))"
proof -
  have "addr_trunc cls (of_nat (sizeof_ElfData cls)) = of_nat (sizeof_ElfData cls)"
    "addr_trunc cls (of_nat (sizeof_Ehdr cls)) = of_nat (sizeof_Ehdr cls)"
    by (cases cls; simp add: addr_trunc_less sizeof_ElfData_eq)+
  then show ?thesis
    using assms by (simp add: elf_headed_def elfbin_def read_ehdr_bytes elf_header_def)
qed

lemma sizeof_small: "sizeof_ElfData cls < 2 ^ 16" "sizeof_Ehdr cls < 2 ^ 16"
  "sizeof_Shdr cls < 2 ^ 16" "sizeof_Phdr cls < 2 ^ 16" "sizeof_Sym cls < 2 ^ 16"
  by (cases cls; simp add: sizeof_ElfData_eq)+

lemma drop_front:
  assumes "elf_headed cls entry f"
  shows "drop (sizeof_Ehdr cls + k) (elfbin cls f) =
    drop k (concat (map (shdr_bytes cls) (elf_shdr f)) @ concat (map (phdr_bytes cls) (elf_phdr f)) @ elf_body f)"
    and "drop (sizeof_ElfData cls + k) (elfbin cls f) =
    drop k (concat (map (phdr_bytes cls) (elf_phdr f)) @ elf_body f)"
    and "drop (elfhdr_size cls f + k) (elfbin cls f) = drop k (elf_body f)"
proof -
  have len: "length (ehdr_bytes cls (elf_hdr f)) = sizeof_Ehdr cls"
    "length (concat (map (shdr_bytes cls) (elf_shdr f))) = 4 * sizeof_Shdr cls"
    "length (concat (map (phdr_bytes cls) (elf_phdr f))) = sizeof_Phdr cls * length (elf_phdr f)"
    using assms by (simp_all add: elf_headed_def length_concat comp_def sum_list_triv)
  show "drop (sizeof_Ehdr cls + k) (elfbin cls f) =
    drop k (concat (map (shdr_bytes cls) (elf_shdr f)) @ concat (map (phdr_bytes cls) (elf_phdr f)) @ elf_body f)"
    "drop (sizeof_ElfData cls + k) (elfbin cls f) =
    drop k (concat (map (phdr_bytes cls) (elf_phdr f)) @ elf_body f)"
    "drop (elfhdr_size cls f + k) (elfbin cls f) = drop k (elf_body f)"
    using len by (simp_all add: elfbin_def elfhdr_size_def sizeof_ElfData_eq)
qed

text \<open>The header members that hold places and sizes, when these are small.\<close>

lemma read_section_header_elfbin:
  assumes f: "elf_headed cls entry f" and i: "i < 4"
  shows "sh_shape (read_section_header cls (elfbin cls f) i) =
      (sh_type (elf_shdr f ! i), sh_link (elf_shdr f ! i), addr_trunc cls (sh_entsize (elf_shdr f ! i)))"
    and "sh_offset (read_section_header cls (elfbin cls f) i) = addr_trunc cls (sh_offset (elf_shdr f ! i))"
    and "sh_size (read_section_header cls (elfbin cls f) i) = addr_trunc cls (sh_size (elf_shdr f ! i))"
proof -
  have "unat (of_nat (sizeof_Ehdr cls) :: u128) = sizeof_Ehdr cls"
    "unat (of_nat (sizeof_Shdr cls) :: u16) = sizeof_Shdr cls"
    by (cases cls; simp)+
  then have "read_section_header cls (elfbin cls f) i =
      read_shdr cls (drop (sizeof_Ehdr cls + i * sizeof_Shdr cls) (elfbin cls f))"
    by (simp add: read_section_header_def read_ehdr_elfbin [OF f] elf_header_def)
  also have "\<dots> = read_shdr cls (shdr_bytes cls (elf_shdr f ! i) @
      concat (map (shdr_bytes cls) (drop (Suc i) (elf_shdr f))) @ concat (map (phdr_bytes cls) (elf_phdr f)) @ elf_body f)"
    unfolding drop_front [OF f]
    by (subst drop_block) (use f i in \<open>simp_all add: elf_headed_def\<close>)
  finally have h: "read_section_header cls (elfbin cls f) i = \<dots>" .
  show "sh_shape (read_section_header cls (elfbin cls f) i) =
      (sh_type (elf_shdr f ! i), sh_link (elf_shdr f ! i), addr_trunc cls (sh_entsize (elf_shdr f ! i)))"
    "sh_offset (read_section_header cls (elfbin cls f) i) = addr_trunc cls (sh_offset (elf_shdr f ! i))"
    "sh_size (read_section_header cls (elfbin cls f) i) = addr_trunc cls (sh_size (elf_shdr f ! i))"
    unfolding h read_shdr_bytes by (simp_all add: sh_shape_def)
qed

lemma read_program_header_elfbin:
  assumes f: "elf_headed cls entry f" and i: "i < length (elf_phdr f)"
  shows "read_program_header cls (elfbin cls f) i = (let ph = elf_phdr f ! i in
    ph\<lparr>p_offset := addr_trunc cls (p_offset ph), p_vaddr := addr_trunc cls (p_vaddr ph),
       p_paddr := addr_trunc cls (p_paddr ph), p_filesz := addr_trunc cls (p_filesz ph),
       p_memsz := addr_trunc cls (p_memsz ph), p_align := addr_trunc cls (p_align ph)\<rparr>)"
proof -
  have "unat (of_nat (sizeof_ElfData cls) :: u128) = sizeof_ElfData cls"
    "unat (of_nat (sizeof_Phdr cls) :: u16) = sizeof_Phdr cls"
    by (cases cls; simp add: sizeof_ElfData_eq)+
  then have "read_program_header cls (elfbin cls f) i =
      read_phdr cls (drop (sizeof_ElfData cls + i * sizeof_Phdr cls) (elfbin cls f))"
    by (simp add: read_program_header_def read_ehdr_elfbin [OF f] elf_header_def)
  also have "\<dots> = read_phdr cls (phdr_bytes cls (elf_phdr f ! i) @
      concat (map (phdr_bytes cls) (drop (Suc i) (elf_phdr f))) @ elf_body f)"
    unfolding drop_front [OF f] by (subst drop_block) (use i in simp_all)
  finally show ?thesis by (simp add: read_phdr_bytes Let_def)
qed

section \<open>What the writer has written\<close>

definition symtab_bytes :: "ElfClass \<Rightarrow> Elf_Sym list \<Rightarrow> u8 list" where
  "symtab_bytes cls ys = concat (map (sym_bytes cls) (Elf_Sym_zero # ys))"

text \<open>
  The tables are appended only while the buffer has not moved, so they end within its
  reserved capacity.
\<close>

definition elf_fits :: "ElfClass \<Rightarrow> ElfFile \<Rightarrow> bool" where
  "elf_fits cls f \<longleftrightarrow> elfbin_size cls f \<le> elfbin_capacity cls f"

lemma add_sym_fits:
  assumes "add_sym cls i y f = Inr f'"
  shows "elf_fits cls f'"
  using assms
  by (auto simp: add_sym_def with_shdr_run elf_fits_def elfbin_insert_def Let_def elfbin_size_def
      elfbin_capacity_def elfhdr_size_def)

lemma with_shdr_fits:
  assumes "with_shdr i g f = Inr f'"
  shows "elf_fits cls f' \<longleftrightarrow> elf_fits cls f"
  using assms by (auto simp: with_shdr_run elf_fits_def elfbin_size_def elfbin_capacity_def elfhdr_size_def)

lemma sym_add_all_fits:
  assumes "sym_add_all cls s ss syms f = Inr f'" and "elf_fits cls f"
  shows "elf_fits cls f'"
  using assms
proof (induction syms arbitrary: f)
  case (Cons p syms)
  obtain n loc f1 where "sym_add cls 2 n (location_address s loc) (loc_type loc) (loc_size loc) ss f = Inr f1"
    and "sym_add_all cls s ss syms f1 = Inr f'"
    using Cons.prems(1) by (cases p) (auto simp: bindR_Inr_iff)
  then show ?case using Cons.IH by (auto simp: sym_add_def bindR_Inr_iff intro: add_sym_fits)
qed simp

lemma write_symbols_fits:
  assumes "write_symbols cls s shn ss syms f = Inr f'"
  shows "elf_fits cls f'"
proof -
  obtain f1 off f2 f3 where 1: "ElfSymSection_new cls 2 (str_shindex ss) f = Inr f1"
    and 2: "with_shdr 2 (\<lambda>sh. sh\<lparr>sh_name := of_nat off\<rparr>) f1 = Inr f2"
    and 3: "sym_add_all cls s ss syms f2 = Inr f3"
    and 4: "with_shdr 2 (\<lambda>sh. sh\<lparr>sh_info := of_nat (length syms + 1)\<rparr>) f3 = Inr f'"
    using assms unfolding write_symbols_def by (auto simp: bindR_Inr_iff)
  from 1 have "elf_fits cls f1" by (auto simp: ElfSymSection_new_def bindR_Inr_iff intro: add_sym_fits)
  with 2 3 4 show ?thesis by (simp add: with_shdr_fits sym_add_all_fits)
qed

text \<open>A table at the place where a section header says, behind the other headers.\<close>

definition table_at :: "ElfFile \<Rightarrow> nat \<Rightarrow> u32 \<times> u32 \<times> u128 \<Rightarrow> nat \<Rightarrow> u8 list \<Rightarrow> bool" where
  "table_at f i shape pos bs \<longleftrightarrow>
     sh_shape (elf_shdr f ! i) = shape \<and> sh_offset (elf_shdr f ! i) = of_nat pos \<and>
     sh_size (elf_shdr f ! i) = of_nat (length bs)"

definition elf_written :: "ElfClass \<Rightarrow> Assembler \<Rightarrow> (string \<times> SymbolLocation) list \<Rightarrow>
    ElfStringSection \<Rightarrow> u128 \<Rightarrow> ElfFile \<Rightarrow> bool" where
  "elf_written cls s syms ss entry f \<longleftrightarrow>
     elf_headed cls entry f \<and>
     (let names = strtab_bytes [''.shstrtab'', ''.symtab'', ''.strtab''];
          a = elfhdr_size cls f + length names; strings = strtab_bytes (map fst syms);
          b = a + length strings; symbols = symtab_bytes cls (map (entry_for s ss) syms)
      in elf_shdr f ! 0 = Elf_Shdr_zero \<and> sh_type (elf_shdr f ! 1) = SHT_STRTAB \<and>
         table_at f 3 (SHT_STRTAB, 0, 1) a strings \<and>
         table_at f 2 (SHT_SYMTAB, 3, of_nat (sizeof_Sym cls)) b symbols \<and>
         (\<exists>rest. elf_body f = names @ strings @ symbols @ rest) \<and>
         b + length symbols \<le> 262144)"

lemma Elf_Writer_written:
  assumes run: "Elf_Writer cls it s = Inr (before, after)"
  obtains loc ss f f'
  where "find_symbol s (opt_entry (options s)) = Some loc"
    and "before = elfbin cls f" and "after = elfbin cls f'"
    and "elf_written cls s (it (m_lookup s)) ss (location_address s loc) f"
    and "elf_written cls s (it (m_lookup s)) ss (location_address s loc) f'"
    and "distinct (map fst (it (m_lookup s))) \<Longrightarrow> \<forall>k < length (it (m_lookup s)).
      om_find (str_namelist ss) (fst (it (m_lookup s) ! k)) =
        Some (1 + length (concat (map name_bytes (take k (map fst (it (m_lookup s)))))))"
    and "add_segments cls 0 (map snd (m_sections s)) f = Inr f'"
    and "length (elf_phdr f) = length (m_sections s)"
    and "elf_phdr f = replicate (length (m_sections s)) Elf_Phdr_zero" and "elfbin_size cls f \<le> 262144"
proof -
  let ?syms = "it (m_lookup s)" and ?n = "length (m_sections s)"
  obtain loc where loc: "find_symbol s (opt_entry (options s)) = Some loc"
    using run by (auto simp: Elf_Writer_def split: option.splits)
  let ?f = "ElfFile_new cls (location_address s loc) ?n"
  obtain shn f1 ss f2 f3 f4 where 1: "write_shnames cls ?f = Inr (shn, f1)"
    and 2: "write_strings cls shn (map fst ?syms) f1 = Inr (ss, f2)"
    and 3: "write_symbols cls s shn ss ?syms f2 = Inr f3"
    and 4: "add_segments cls 0 (map snd (m_sections s)) f3 = Inr f4"
    and files: "before = elfbin cls f3" "after = elfbin cls f4"
    using run unfolding Elf_Writer_def loc by (auto simp: bindR_Inr_iff Let_def)
  have new: "elf_body ?f = []" "elf_hdr ?f = elf_header cls (location_address s loc) ?n"
    "elf_phdr ?f = replicate ?n Elf_Phdr_zero" "length (elf_shdr ?f) = 4" "elf_shdr ?f ! 0 = Elf_Shdr_zero"
    by (simp_all add: ElfFile_new_def ElfData_S_def)
  let ?names = "strtab_bytes [''.shstrtab'', ''.symtab'', ''.strtab'']"
  have b1: "elf_begins cls 1 (SHT_STRTAB, 0, 1) ?names ?f f1"
    using write_shnames_begins [OF 1] new by auto
  have b2: "elf_begins cls 3 (SHT_STRTAB, 0, 1) (strtab_bytes (map fst ?syms)) f1 f2" and ss: "str_shindex ss = 3"
    using write_strings_begins(1,2) [OF 2] b1 new(4) unfolding elf_begins_def strtab_bytes_def by auto
  have b3: "elf_begins cls 2 (SHT_SYMTAB, 3, of_nat (sizeof_Sym cls))
      (symtab_bytes cls (map (entry_for s ss) ?syms)) f2 f3"
    using write_symbols_begins [OF 3] b2 b1 new(4) ss
    by (simp add: elf_begins_def symtab_bytes_def comp_def)
  note b = b1 b2 b3
  have size: "elfbin_size cls f1 = int (elfhdr_size cls f3 + length ?names)"
    "elfbin_size cls f2 = int (elfhdr_size cls f3 + length ?names + length (strtab_bytes (map fst ?syms)))"
    using b new by (simp_all add: elf_begins_def elfbin_size_def elfhdr_size_def)
  have body: "elf_body f3 = ?names @ strtab_bytes (map fst ?syms) @ symtab_bytes cls (map (entry_for s ss) ?syms)"
    using b new by (simp add: elf_begins_def)
  have "elf_fits cls f3" by (rule write_symbols_fits [OF 3])
  then have fits: "elfhdr_size cls f3 + length (elf_body f3) \<le> 262144"
    using body by (simp add: elf_fits_def elfbin_size_def elfbin_capacity_def strtab_bytes_def)
  then have "sizeof_Phdr cls * length (elf_phdr f3) \<le> 262144" by (simp add: elfhdr_size_def)
  then have small: "length (elf_phdr f3) < 2 ^ 16" by (cases cls) simp_all
  have w3: "elf_written cls s ?syms ss (location_address s loc) f3"
    unfolding elf_written_def elf_headed_def table_at_def Let_def
    using b new small fits body size by (simp add: elf_begins_def sh_shape_def)
  have seg: "elf_body f4 = elf_body f3 @ concat (map (sec_output \<circ> snd) (m_sections s))" "elf_hdr f4 = elf_hdr f3"
    "elf_shdr f4 = elf_shdr f3" "length (elf_phdr f4) = length (elf_phdr f3)"
    using add_segments_run [OF 4] b new by (simp_all add: elf_begins_def)
  then have w4: "elf_written cls s ?syms ss (location_address s loc) f4"
    using w3 body unfolding elf_written_def elf_headed_def table_at_def Let_def
    by (simp add: elfhdr_size_def)
  show thesis
  proof (rule that [OF loc files w3 w4])
    show "\<forall>k < length ?syms. om_find (str_namelist ss) (fst (?syms ! k)) =
        Some (1 + length (concat (map name_bytes (take k (map fst ?syms)))))" if "distinct (map fst ?syms)"
      using write_strings_begins(3) [OF 2 _ that] b1 new(4) by (simp add: elf_begins_def)
    show "add_segments cls 0 (map snd (m_sections s)) f3 = Inr f4" by (rule 4)
    show "elf_phdr f3 = replicate ?n Elf_Phdr_zero" using b new by (simp add: elf_begins_def)
    then show "length (elf_phdr f3) = ?n" by simp
    show "elfbin_size cls f3 \<le> 262144" using fits by (simp add: elfbin_size_def)
  qed
qed

section \<open>The symbols read back\<close>

lemma drop_strtab:
  assumes "k < length names"
  shows "drop (1 + length (concat (map name_bytes (take k names)))) (strtab_bytes names @ r) =
    name_bytes (names ! k) @ concat (map name_bytes (drop (Suc k) names)) @ r"
  using concat_split [OF assms, of name_bytes] by (simp add: strtab_bytes_def)

lemma length_symtab_bytes: "length (symtab_bytes cls ys) = sizeof_Sym cls * (1 + length ys)"
  by (simp add: symtab_bytes_def length_concat comp_def sum_list_triv)

lemma length_strtab_take:
  assumes "k < length names"
  shows "1 + length (concat (map name_bytes (take k names))) < length (strtab_bytes names)"
  using arg_cong [OF concat_split [OF assms, of name_bytes], of length] by (simp add: strtab_bytes_def)

text \<open>A table header, read from the file.\<close>

lemma read_table:
  assumes f: "elf_headed cls entry f" and i: "i < 4" and t: "table_at f i (ty, lk, es) pos bs"
    and pos: "pos < 2 ^ 64" and len: "length bs < 2 ^ 64"
  shows "sh_type (read_section_header cls (elfbin cls f) i) = ty"
    and "sh_link (read_section_header cls (elfbin cls f) i) = lk"
    and "sh_entsize (read_section_header cls (elfbin cls f) i) = addr_trunc cls es"
    and "unat (sh_offset (read_section_header cls (elfbin cls f) i)) = pos"
    and "unat (sh_size (read_section_header cls (elfbin cls f) i)) = length bs"
proof -
  have small: "unat (of_nat pos :: u128) = pos" "unat (of_nat (length bs) :: u128) = length bs"
    using pos len by simp_all
  then have "addr_trunc cls (of_nat pos) = of_nat pos" "addr_trunc cls (of_nat (length bs)) = of_nat (length bs)"
    using pos len by (simp_all add: addr_trunc_less)
  then show "unat (sh_offset (read_section_header cls (elfbin cls f) i)) = pos"
    "unat (sh_size (read_section_header cls (elfbin cls f) i)) = length bs"
    using t small by (simp_all add: read_section_header_elfbin(2,3) [OF f i] table_at_def)
  show "sh_type (read_section_header cls (elfbin cls f) i) = ty"
    "sh_link (read_section_header cls (elfbin cls f) i) = lk"
    "sh_entsize (read_section_header cls (elfbin cls f) i) = addr_trunc cls es"
    using read_section_header_elfbin(1) [OF f i] t by (simp_all add: sh_shape_def table_at_def)
qed

definition symbol_of :: "ElfClass \<Rightarrow> Assembler \<Rightarrow> string \<times> SymbolLocation \<Rightarrow> string \<times> u128 \<times> u128" where
  "symbol_of cls s = (\<lambda>(n, loc). (n, addr_trunc cls (location_address s loc), ucast (loc_size loc)))"

lemma addr_trunc_u64: "addr_trunc cls (ucast (w :: u64)) = ucast w"
proof -
  have "unat (ucast w :: u128) = unat w" by (simp add: unsigned_ucast_eq)
  then show ?thesis using unat_less_exp [of w] by (simp add: addr_trunc_less)
qed

lemma elf_symbols_written:
  assumes w: "elf_written cls s syms ss entry f"
    and found: "\<forall>k < length syms. om_find (str_namelist ss) (fst (syms ! k)) =
        Some (1 + length (concat (map name_bytes (take k (map fst syms)))))"
    and nul: "\<forall>(n, loc) \<in> set syms. CHR 0x00 \<notin> set n"
  shows "elf_symbols cls (elfbin cls f) = map (symbol_of cls s) syms"
proof -
  let ?file = "elfbin cls f" and ?strings = "strtab_bytes (map fst syms)"
    and ?symbols = "symtab_bytes cls (map (entry_for s ss) syms)"
    and ?names = "strtab_bytes [''.shstrtab'', ''.symtab'', ''.strtab'']"
  let ?a = "elfhdr_size cls f + length ?names"
  let ?h = "read_section_header cls ?file" and ?b = "?a + length ?strings"
  have f: "elf_headed cls entry f" and t3: "table_at f 3 (SHT_STRTAB, 0, 1) ?a ?strings"
    and t2: "table_at f 2 (SHT_SYMTAB, 3, of_nat (sizeof_Sym cls)) ?b ?symbols"
    and fits: "?b + length ?symbols \<le> 262144" and t0: "elf_shdr f ! 0 = Elf_Shdr_zero"
    and t1: "sh_type (elf_shdr f ! 1) = SHT_STRTAB"
    using w by (simp_all add: elf_written_def Let_def)
  obtain rest where body: "elf_body f = ?names @ ?strings @ ?symbols @ rest"
    using w by (auto simp: elf_written_def Let_def)
  note h3 = read_table [OF f _ t3] and h2 = read_table [OF f _ t2]
  have sz: "unat (addr_trunc cls (of_nat (sizeof_Sym cls))) = sizeof_Sym cls" "0 < sizeof_Sym cls"
    by (cases cls; simp add: addr_trunc_less)+
  have types: "sh_type (?h 0) = 0" "sh_type (?h 1) = SHT_STRTAB"
    using read_section_header_elfbin(1) [OF f, of 0] read_section_header_elfbin(1) [OF f, of 1] t0 t1
    by (simp_all add: sh_shape_def Elf_Shdr_zero_def)
  have n: "unat (e_shnum (read_ehdr cls ?file)) = 4"
    by (simp add: read_ehdr_elfbin [OF f] elf_header_def ElfData_S_def)
  have tabs: "filter (\<lambda>sh. sh_type sh = 2) (map ?h [0..<4]) = [?h 2]"
    using types h2(1) h3(1) fits
    by (simp add: upt_conv_Cons SHT_STRTAB_def SHT_SYMTAB_def numeral_2_eq_2 [symmetric]
        numeral_3_eq_3 [symmetric])
  have count: "unat (sh_size (?h 2)) div unat (sh_entsize (?h 2)) = length syms + 1"
    using h2(3,5) fits sz by (simp add: length_symtab_bytes)
  have entry: "(let y = read_sym cls (drop (unat (sh_offset (?h 2)) + k * unat (sh_entsize (?h 2))) ?file)
      in (read_string ?file (?h (unat (sh_link (?h 2)))) (unat (st_name y)), st_value y, st_size y)) =
      symbol_of cls s (syms ! (k - 1))" if k: "k \<in> set [1..<length syms + 1]" for k
  proof -
    have "k \<in> {1..<length syms + 1}" using k by (simp only: set_upt)
    then obtain j where j: "k = Suc j" "j < length syms" by (cases k) auto
    obtain n loc where nl: "syms ! j = (n, loc)" by (cases "syms ! j")
    let ?off = "1 + length (concat (map name_bytes (take j (map fst syms))))"
    let ?y = "entry_for s ss (syms ! j)"
    have off: "?off < length ?strings" using length_strtab_take [of j "map fst syms"] j by simp
    have y: "?y = sym_entry ?off (location_address s loc) (loc_type loc) (loc_size loc)"
      using found [rule_format, OF j(2)] nl by (simp add: entry_for_def)
    have "drop (unat (sh_offset (?h 2)) + k * unat (sh_entsize (?h 2))) ?file =
        drop (k * sizeof_Sym cls) (?symbols @ rest)"
      using h2(3,4) fits sz drop_front(3) [OF f, of "length ?names + length ?strings + k * sizeof_Sym cls"]
      by (simp add: body add.assoc)
    also have "\<dots> = sym_bytes cls ?y @ concat (map (sym_bytes cls) (drop k (map (entry_for s ss) syms))) @ rest"
      unfolding symtab_bytes_def by (subst drop_block) (use j in simp_all)
    finally have sym_at: "read_sym cls (drop (unat (sh_offset (?h 2)) + k * unat (sh_entsize (?h 2))) ?file) =
        ?y\<lparr>st_value := addr_trunc cls (st_value ?y), st_size := addr_trunc cls (st_size ?y)\<rparr>"
      by (simp only: read_sym_bytes)
    have "drop (unat (sh_offset (?h 3)) + ?off) ?file = drop ?off (?strings @ ?symbols @ rest)"
      using h3(4) fits drop_front(3) [OF f, of "length ?names + ?off"] by (simp add: body add.assoc)
    also have "\<dots> = name_bytes n @ concat (map name_bytes (drop (Suc j) (map fst syms))) @ ?symbols @ rest"
      using drop_strtab [of j "map fst syms" "?symbols @ rest"] j nl by simp
    finally have str: "read_string ?file (?h 3) ?off = n"
      using nul nl nth_mem [OF j(2)] takeWhile_name [of n]
      by (auto simp: read_string_def name_bytes_def)
    have "unat (of_nat ?off :: u32) = ?off"
      by (rule unat_of_nat_small) (use off fits in simp)
    then show ?thesis
      using str h2(2) fits unfolding sym_at y
      by (simp add: sym_entry_def symbol_of_def j nl Elf_Sym_zero_def addr_trunc_u64)
  qed
  have "elf_symbols cls ?file = map (\<lambda>k. symbol_of cls s (syms ! (k - 1))) [1..<length syms + 1]"
    unfolding elf_symbols_def Let_def n tabs list.case count
    by (rule map_cong [OF refl]) (use entry in \<open>simp add: Let_def\<close>)
  also have "\<dots> = map (symbol_of cls s) syms"
    by (rule nth_equalityI) (simp_all del: upt_Suc)
  finally show ?thesis .
qed

section \<open>The segments read back\<close>

lemma add_segments_header:
  assumes "add_segments cls 0 secs f = Inr f'" and "length (elf_phdr f) = length secs" and "k < length secs"
  obtains ph where "elf_phdr f' ! k = program_header (secs ! k)
    (elfbin_size cls f + int (length (concat (map sec_output (take k secs))))) ph"
  using add_segments_run [OF assms(1)] assms(2,3) by auto

text \<open>What is loaded of a section: its contents at its base address.\<close>

definition segment_of :: "ElfClass \<Rightarrow> Section \<Rightarrow> u128 \<times> u32 \<times> u8 list" where
  "segment_of cls sec = (addr_trunc cls (m_base_address sec), program_flags sec, sec_output sec)"

lemma filter_map_nth:
  assumes "length ps = length xs" and "\<And>k. k < length xs \<Longrightarrow> P (ps ! k) \<longleftrightarrow> Q (xs ! k)"
    and "\<And>k. k < length xs \<Longrightarrow> P (ps ! k) \<Longrightarrow> g (ps ! k) = h (xs ! k)"
  shows "map g (filter P ps) = map h (filter Q xs)"
  using assms
proof (induction ps xs rule: list_induct2)
  case (Cons p ps x xs)
  have "map g (filter P ps) = map h (filter Q xs)"
    using Cons.IH Cons.prems by (metis Suc_less_eq length_Cons nth_Cons_Suc)
  with Cons.prems(1) [of 0] Cons.prems(2) [of 0] show ?case by simp
qed simp

lemma elf_segments_written:
  assumes w: "elf_headed cls entry f" and run: "add_segments cls 0 secs f = Inr f'"
    and n: "length (elf_phdr f) = length secs"
    and fits: "elfbin_size cls f \<le> 262144" and total: "length (concat (map sec_output secs)) < 2 ^ 63"
  shows "elf_segments cls (elfbin cls f') = map (segment_of cls) (filter loadable secs)"
proof -
  let ?file = "elfbin cls f'"
  have f': "elf_body f' = elf_body f @ concat (map sec_output secs)" "elf_hdr f' = elf_hdr f"
    "elf_shdr f' = elf_shdr f" and n': "length (elf_phdr f') = length secs"
    using add_segments_run [OF run] n by simp_all
  have h: "elf_headed cls entry f'" using w f' n n' by (simp add: elf_headed_def)
  have hdr: "elfhdr_size cls f' = elfhdr_size cls f" using n n' by (simp add: elfhdr_size_def)
  have count: "unat (e_phnum (read_ehdr cls ?file)) = length secs"
    using h n' by (simp add: read_ehdr_elfbin [OF h] elf_header_def elf_headed_def)
  let ?pos = "\<lambda>k. nat (elfbin_size cls f) + length (concat (map sec_output (take k secs)))"
  have part: "length (concat (map sec_output (take k secs))) + length (sec_output (secs ! k)) < 2 ^ 63"
    if "k < length secs" for k
    using arg_cong [OF concat_split [OF that, of sec_output], of length] total by simp
  have contents: "take (length (sec_output (secs ! k))) (drop (?pos k) ?file) = sec_output (secs ! k)"
    if "k < length secs" for k
    using drop_front(3) [OF h, of "length (elf_body f) + length (concat (map sec_output (take k secs)))"]
      concat_split [OF that, of sec_output]
    by (simp add: f' hdr elfbin_size_def add.assoc nat_add_distrib)
  have header: "p_type ph = (if loadable (secs ! k) then 1 else 0) \<and> p_flags ph = program_flags (secs ! k) \<and>
      p_vaddr ph = addr_trunc cls (m_base_address (secs ! k)) \<and> unat (p_offset ph) = ?pos k \<and>
      (loadable (secs ! k) \<longrightarrow> unat (p_filesz ph) = length (sec_output (secs ! k))) \<and>
      unat (p_memsz ph) = length (sec_output (secs ! k))"
    if k: "k < length secs" and ph: "ph = read_program_header cls ?file k" for k ph
  proof -
    obtain ph0 where ph0: "elf_phdr f' ! k = program_header (secs ! k)
        (elfbin_size cls f + int (length (concat (map sec_output (take k secs))))) ph0"
      by (rule add_segments_header [OF run n k])
    have "word_of_int (elfbin_size cls f + int (length (concat (map sec_output (take k secs))))) = (of_nat (?pos k) :: u128)"
      by (simp add: elfbin_size_def nat_add_distrib)
    then have off: "p_offset (elf_phdr f' ! k) = of_nat (?pos k)" by (simp add: ph0 program_header_def)
    have small: "?pos k < 2 ^ 64" "length (sec_output (secs ! k)) < 2 ^ 63"
      using part [OF k] fits by (simp_all add: elfbin_size_def nat_add_distrib)
    then have "unat (of_nat (?pos k) :: u128) = ?pos k" by (intro unat_of_nat_small) simp
    then have "unat (addr_trunc cls (of_nat (?pos k))) = ?pos k" using small(1) by (simp only: addr_trunc_less)
    moreover have "unat (Section_size (secs ! k)) = length (sec_output (secs ! k))"
      by (rule unat_Section_size) (use small in \<open>simp add: section_ok_def vector_max_size_def\<close>)
    moreover have "take_bit 128 (length (sec_output (secs ! k))) = length (sec_output (secs ! k))"
      by (rule take_bit_nat_eq_self) (use small(2) in simp)
    ultimately show ?thesis
      using read_program_header_elfbin [OF h, of k] k n' off
      by (simp add: ph Let_def ph0 program_header_def PT_LOAD_def addr_trunc_u64 unsigned_ucast_eq)
  qed
  show ?thesis
    unfolding elf_segments_def count
  proof (rule filter_map_nth)
    fix k assume k: "k < length secs"
    from header [OF k refl]
    show "p_type (map (read_program_header cls ?file) [0..<length secs] ! k) = 1 \<longleftrightarrow> loadable (secs ! k)"
      using k by simp
    have "(p_vaddr ph, p_flags ph, take (unat (p_filesz ph)) (drop (unat (p_offset ph)) ?file) @
        replicate (unat (p_memsz ph) - unat (p_filesz ph)) 0) = segment_of cls (secs ! k)"
      if "p_type ph = 1" and "ph = map (read_program_header cls ?file) [0..<length secs] ! k" for ph
      using header [OF k refl] contents [OF k] that k by (auto simp: segment_of_def split: if_splits)
    then show "(\<lambda>ph. (p_vaddr ph, p_flags ph, take (unat (p_filesz ph)) (drop (unat (p_offset ph)) ?file) @
        replicate (unat (p_memsz ph) - unat (p_filesz ph)) 0))
      (map (read_program_header cls ?file) [0..<length secs] ! k) = segment_of cls (secs ! k)"
      if "p_type (map (read_program_header cls ?file) [0..<length secs] ! k) = 1"
      using that by blast
  qed simp
qed

section \<open>The writer against the reader\<close>

lemma Elf_Writer_before:
  assumes "Elf_Writer cls it s = Inr (before, after)"
  shows "elf_segments cls before = []"
proof -
  obtain loc ss f f' where "before = elfbin cls f"
    and "elf_written cls s (it (m_lookup s)) ss (location_address s loc) f"
    and ph: "elf_phdr f = replicate (length (m_sections s)) Elf_Phdr_zero"
    by (rule Elf_Writer_written [OF assms]) blast
  moreover from this have h: "elf_headed cls (location_address s loc) f" by (simp add: elf_written_def)
  moreover have "p_type (read_program_header cls (elfbin cls f) k) \<noteq> 1" if "k < length (m_sections s)" for k
    using read_program_header_elfbin [OF h, of k] that ph by (simp add: Let_def Elf_Phdr_zero_def)
  moreover have "unat (e_phnum (read_ehdr cls (elfbin cls f))) = length (m_sections s)"
    using h ph by (simp add: read_ehdr_elfbin [OF h] elf_header_def elf_headed_def)
  ultimately show ?thesis by (simp add: elf_segments_def filter_empty_conv)
qed


text \<open>The tables end within the reserved buffer, and the entry symbol is in the header.\<close>

lemma Elf_Writer_header:
  assumes "Elf_Writer cls it s = Inr (before, after)" and "file \<in> {before, after}"
  obtains loc where "find_symbol s (opt_entry (options s)) = Some loc"
    and "read_ehdr cls file = elf_header cls (addr_trunc cls (location_address s loc)) (length (m_sections s))"
proof -
  obtain loc ss f f' where loc: "find_symbol s (opt_entry (options s)) = Some loc"
    and files: "before = elfbin cls f" "after = elfbin cls f'"
    and w: "elf_written cls s (it (m_lookup s)) ss (location_address s loc) f"
      "elf_written cls s (it (m_lookup s)) ss (location_address s loc) f'"
    and n: "length (elf_phdr f) = length (m_sections s)"
    and run: "add_segments cls 0 (map snd (m_sections s)) f = Inr f'"
    by (rule Elf_Writer_written [OF assms(1)]) blast
  have h: "elf_headed cls (location_address s loc) f" "elf_headed cls (location_address s loc) f'"
    using w by (simp_all add: elf_written_def)
  have "length (elf_phdr f') = length (m_sections s)" using add_segments_run [OF run] n by simp
  with that [OF loc] assms(2) files n read_ehdr_elfbin [OF h(1)] read_ehdr_elfbin [OF h(2)]
  show thesis by auto
qed

lemma Elf_Writer_symbols:
  assumes "Elf_Writer cls it s = Inr (before, after)" and "file \<in> {before, after}"
    and "distinct (map fst (it (m_lookup s)))" and "\<forall>(n, loc) \<in> set (it (m_lookup s)). CHR 0x00 \<notin> set n"
  shows "elf_symbols cls file = map (symbol_of cls s) (it (m_lookup s))"
proof -
  obtain loc ss f f' where files: "before = elfbin cls f" "after = elfbin cls f'"
    and w: "elf_written cls s (it (m_lookup s)) ss (location_address s loc) f"
      "elf_written cls s (it (m_lookup s)) ss (location_address s loc) f'"
    and found: "\<forall>k < length (it (m_lookup s)). om_find (str_namelist ss) (fst (it (m_lookup s) ! k)) =
        Some (1 + length (concat (map name_bytes (take k (map fst (it (m_lookup s)))))))"
    by (rule Elf_Writer_written [OF assms(1)]) (use assms(3) in blast)
  show ?thesis
    using assms(2) elf_symbols_written [OF w(1) found assms(4)] elf_symbols_written [OF w(2) found assms(4)]
    by (auto simp: files)
qed

lemma Elf_Writer_segments:
  assumes "Elf_Writer cls it s = Inr (before, after)"
    and "length (concat (map (sec_output \<circ> snd) (m_sections s))) < 2 ^ 63"
  shows "elf_segments cls after = map (segment_of cls) (filter loadable (map snd (m_sections s)))"
proof -
  obtain loc ss f f' where out: "after = elfbin cls f'"
    and w: "elf_written cls s (it (m_lookup s)) ss (location_address s loc) f"
    and n: "length (elf_phdr f) = length (m_sections s)" and fits: "elfbin_size cls f \<le> 262144"
    and run: "add_segments cls 0 (map snd (m_sections s)) f = Inr f'"
    by (rule Elf_Writer_written [OF assms(1)]) blast
  have "elf_headed cls (location_address s loc) f" using w by (simp add: elf_written_def)
  from elf_segments_written [OF this run] n fits assms(2) show ?thesis by (simp add: out)
qed

lemma Elf_Writer_no_entry:
  "find_symbol s (opt_entry (options s)) = None \<Longrightarrow>
     Elf_Writer cls it s = Inl (RuntimeError (''No such symbol: '' @ opt_entry (options s)))"
  by (simp add: Elf_Writer_def)

lemma distinct_permuted_keys:
  assumes "mset (it m) = mset m" and "distinct (map fst m)"
  shows "distinct (map fst (it m))"
  by (metis assms mset_eq_imp_distinct_iff mset_map)

end
