(* ===== verification/ElfReturns.thy ===== *)
theory ElfReturns
  imports ElfImage
begin

text \<open>
  When the writer returns: exactly when the entry symbol is known and everything in front of
  the last section fits into the reserved buffer. Otherwise an access through a pointer to
  the old buffer is undefined.
\<close>

section \<open>Room in the buffer\<close>

definition elf_room :: "ElfClass \<Rightarrow> nat \<Rightarrow> ElfFile \<Rightarrow> bool" where
  "elf_room cls n f \<longleftrightarrow> \<not> elf_moved f \<and> elfbin_size cls f + int n \<le> elfbin_capacity cls f"

lemma elf_room_mono: "elf_room cls n f \<Longrightarrow> m \<le> n \<Longrightarrow> elf_room cls m f"
  by (simp add: elf_room_def)

lemma elf_room_insert_iff: "elf_room cls n (elfbin_insert cls bs f) \<longleftrightarrow> elf_room cls (length bs + n) f"
  by (simp add: elf_room_def elfbin_insert_def Let_def elfbin_size_def elfbin_capacity_def elfhdr_size_def) linarith

lemmas elf_room_insert = elf_room_insert_iff [THEN iffD2]

text \<open>An operation that appends \<open>k\<close> bytes returns when there is room for them.\<close>

lemma with_shdr_returns:
  assumes "elf_room cls n f"
  obtains f' where "with_shdr i g f = Inr f'" and "elf_room cls n f'"
  using assms that [of "f\<lparr>elf_shdr := (elf_shdr f)[i := g (elf_shdr f ! i)]\<rparr>"]
  by (simp add: elf_room_def with_shdr_run elfbin_size_def elfbin_capacity_def elfhdr_size_def)

lemma ElfStringSection_new_returns:
  assumes "elf_room cls (1 + n) f"
  obtains ss f' where "ElfStringSection_new cls i f = Inr (ss, f')" and "elf_room cls n f'"
proof -
  obtain f1 where 1: "with_shdr i (\<lambda>sh. sh\<lparr>sh_name := 0, sh_type := SHT_STRTAB, sh_flags := 0,
         sh_entsize := 1, sh_offset := word_of_int (elfbin_size cls f), sh_size := 0,
         sh_addralign := 1, sh_info := 0, sh_link := 0\<rparr>) f = Inr f1" and "elf_room cls (1 + n) f1"
    by (rule with_shdr_returns [OF assms])
  then have "elf_room cls n (elfbin_insert cls [0] f1)" by (intro elf_room_insert) simp
  then obtain f2 where "with_shdr i (\<lambda>sh. sh\<lparr>sh_size := sh_size sh + 1\<rparr>) (elfbin_insert cls [0] f1) = Inr f2"
    and "elf_room cls n f2"
    by (rule with_shdr_returns)
  with 1 that show thesis by (auto simp: ElfStringSection_new_def append_null_def bindR_Inr_iff)
qed

lemma str_add_returns:
  assumes "elf_room cls (length (name_bytes str) + n) f"
  obtains f' where "str_add cls str (ss, f) = Inr (ss\<lparr>str_namelist := om_put str (str_offset ss) (str_namelist ss),
      str_offset := str_offset ss + (length str + 1)\<rparr>, f')" and "elf_room cls n f'"
proof -
  have "elf_room cls n (elfbin_insert cls (map char_byte str @ [0]) f)"
    using elf_room_insert [OF assms] by (simp add: name_bytes_def)
  then obtain f' where "with_shdr (str_shindex ss) (\<lambda>sh. sh\<lparr>sh_size := sh_size sh + of_nat (length str + 1)\<rparr>)
      (elfbin_insert cls (map char_byte str @ [0]) f) = Inr f'" and "elf_room cls n f'"
    by (rule with_shdr_returns)
  with that show thesis by (auto simp: str_add_def bindR_Inr_iff)
qed

lemma str_add_all_returns:
  assumes "elf_room cls (length (concat (map name_bytes ns)) + n) f"
  shows "\<exists>ss' f'. str_add_all cls ns (ss, f) = Inr (ss', f') \<and> elf_room cls n f' \<and>
    dom (om_find (str_namelist ss')) = set ns \<union> dom (om_find (str_namelist ss))"
  using assms
proof (induction ns arbitrary: ss f)
  case (Cons m ns)
  let ?ss = "ss\<lparr>str_namelist := om_put m (str_offset ss) (str_namelist ss), str_offset := str_offset ss + (length m + 1)\<rparr>"
  have room: "elf_room cls (length (name_bytes m) + (length (concat (map name_bytes ns)) + n)) f"
    using Cons.prems by (simp add: add.assoc)
  obtain f1 where 1: "str_add cls m (ss, f) = Inr (?ss, f1)"
    and "elf_room cls (length (concat (map name_bytes ns)) + n) f1"
    by (rule str_add_returns [OF room])
  from Cons.IH [OF this(2), of ?ss] 1 show ?case by (auto simp: bindR_Inr_iff om_find_put)
qed simp

lemma add_sym_returns:
  assumes "elf_room cls (sizeof_Sym cls + n) f"
  obtains f' where "add_sym cls i y f = Inr f'" and "elf_room cls n f'"
proof -
  have "elf_room cls n (elfbin_insert cls (sym_bytes cls y) f)" by (rule elf_room_insert) (use assms in simp)
  then obtain f' where "with_shdr i (\<lambda>sh. sh\<lparr>sh_size := sh_size sh + of_nat (sizeof_Sym cls), sh_info := sh_info sh + 1\<rparr>)
       (elfbin_insert cls (sym_bytes cls y) f) = Inr f'" and "elf_room cls n f'"
    by (rule with_shdr_returns)
  with that show thesis by (simp add: add_sym_def)
qed

lemma sym_add_all_returns:
  assumes "elf_room cls (sizeof_Sym cls * length syms + n) f"
    and "\<forall>(m, loc) \<in> set syms. m \<in> dom (om_find (str_namelist ss))"
  shows "\<exists>f'. sym_add_all cls s ss syms f = Inr f' \<and> elf_room cls n f'"
  using assms
proof (induction syms arbitrary: f)
  case (Cons p syms)
  obtain m loc where p: "p = (m, loc)" by (cases p)
  then obtain off where off: "om_find (str_namelist ss) m = Some off"
    using Cons.prems(2) by auto
  have room: "elf_room cls (sizeof_Sym cls + (sizeof_Sym cls * length syms + n)) f"
    using Cons.prems(1) by (simp add: add.assoc)
  obtain f1 where "add_sym cls 2 (sym_entry off (location_address s loc) (loc_type loc) (loc_size loc)) f = Inr f1"
    and "elf_room cls (sizeof_Sym cls * length syms + n) f1"
    by (rule add_sym_returns [OF room])
  with Cons.IH [OF this(2)] Cons.prems(2) off show ?case
    by (simp add: p sym_add_def str_lookup_def bindR_Inr_iff)
qed simp

section \<open>The parts of the writer\<close>

lemma write_shnames_returns:
  assumes "elf_room cls (27 + n) f"
  obtains ss f' where "write_shnames cls f = Inr (ss, f')" and "elf_room cls n f'"
    and "''.strtab'' \<in> dom (om_find (str_namelist ss))" and "''.symtab'' \<in> dom (om_find (str_namelist ss))"
proof -
  have "elf_room cls (1 + (26 + n)) f" using assms by simp
  then obtain s1 f1 where 1: "ElfStringSection_new cls 1 f = Inr (s1, f1)" and "elf_room cls (26 + n) f1"
    by (rule ElfStringSection_new_returns)
  then have "elf_room cls (length (name_bytes ''.shstrtab'') + (16 + n)) f1" by simp
  then obtain s2 f2 where 2: "str_add cls ''.shstrtab'' (s1, f1) = Inr (s2, f2)" and "elf_room cls (16 + n) f2"
    by (rule str_add_returns)
  then obtain f3 where 3: "with_shdr 1 (\<lambda>sh. sh\<lparr>sh_name := of_nat (str_offset s1)\<rparr>) f2 = Inr f3"
    and "elf_room cls (16 + n) f3" by (auto elim: with_shdr_returns)
  then have "elf_room cls (length (name_bytes ''.symtab'') + (8 + n)) f3" by simp
  then obtain f4 where 4: "str_add cls ''.symtab'' (s2, f3) = Inr (s2\<lparr>str_namelist := om_put ''.symtab''
      (str_offset s2) (str_namelist s2), str_offset := str_offset s2 + (length ''.symtab'' + 1)\<rparr>, f4)"
    (is "_ = Inr (?s4, f4)") and "elf_room cls (8 + n) f4" by (rule str_add_returns)
  then have "elf_room cls (length (name_bytes ''.strtab'') + n) f4" by (simp add: numeral_eq_Suc)
  then obtain f5 where "str_add cls ''.strtab'' (?s4, f4) = Inr (?s4\<lparr>str_namelist := om_put ''.strtab''
      (str_offset ?s4) (str_namelist ?s4), str_offset := str_offset ?s4 + (length ''.strtab'' + 1)\<rparr>, f5)"
    and "elf_room cls n f5" by (rule str_add_returns)
  with 1 2 3 4 show thesis
    by (intro that) (auto simp: write_shnames_def Let_def bindR_Inr_iff om_find_put)
qed

lemma write_strings_returns:
  assumes "elf_room cls (length (strtab_bytes names) + n) f"
    and "''.strtab'' \<in> dom (om_find (str_namelist shn))"
  obtains ss f' where "write_strings cls shn names f = Inr (ss, f')" and "elf_room cls n f'"
    and "set names \<subseteq> dom (om_find (str_namelist ss))"
proof -
  have "elf_room cls (1 + (length (concat (map name_bytes names)) + n)) f"
    using assms(1) by (simp add: strtab_bytes_def)
  then obtain s1 f1 where 1: "ElfStringSection_new cls 3 f = Inr (s1, f1)"
    and "elf_room cls (length (concat (map name_bytes names)) + n) f1"
    by (rule ElfStringSection_new_returns)
  obtain off where off: "om_find (str_namelist shn) ''.strtab'' = Some off" using assms(2) by auto
  obtain f2 where 2: "with_shdr 3 (\<lambda>sh. sh\<lparr>sh_name := of_nat off\<rparr>) f1 = Inr f2"
    and "elf_room cls (length (concat (map name_bytes names)) + n) f2"
    by (rule with_shdr_returns [OF \<open>elf_room cls (length (concat (map name_bytes names)) + n) f1\<close>])
  from str_add_all_returns [OF this(2), of s1] obtain ss f3 where
    "str_add_all cls names (s1, f2) = Inr (ss, f3)" and "elf_room cls n f3"
    and "dom (om_find (str_namelist ss)) = set names \<union> dom (om_find (str_namelist s1))" by blast
  with 1 2 off show thesis
    by (intro that) (auto simp: write_strings_def bindR_Inr_iff str_lookup_def)
qed

lemma write_symbols_returns:
  assumes "elf_room cls (sizeof_Sym cls * (1 + length syms) + n) f"
    and "''.symtab'' \<in> dom (om_find (str_namelist shn))"
    and "set (map fst syms) \<subseteq> dom (om_find (str_namelist ss))"
  obtains f' where "write_symbols cls s shn ss syms f = Inr f'" and "elf_room cls n f'"
proof -
  let ?n = "sizeof_Sym cls * length syms + n"
  have "elf_room cls (sizeof_Sym cls + ?n) f" using assms(1) by (simp add: add.assoc)
  then obtain f0 where 0: "with_shdr 2 (\<lambda>sh. sh\<lparr>sh_type := SHT_SYMTAB, sh_flags := 0,
         sh_entsize := of_nat (sizeof_Sym cls), sh_offset := word_of_int (elfbin_size cls f),
         sh_size := 0, sh_info := 0, sh_addralign := of_nat (addr_bytes cls),
         sh_link := of_nat (str_shindex ss)\<rparr>) f = Inr f0" and "elf_room cls (sizeof_Sym cls + ?n) f0"
    by (rule with_shdr_returns)
  then obtain f1 where "add_sym cls 2 Elf_Sym_zero f0 = Inr f1" and "elf_room cls ?n f1"
    by (auto elim: add_sym_returns)
  then have 1: "ElfSymSection_new cls 2 (str_shindex ss) f = Inr f1"
    using 0 by (simp add: ElfSymSection_new_def bindR_Inr_iff)
  obtain off where off: "om_find (str_namelist shn) ''.symtab'' = Some off" using assms(2) by auto
  obtain f2 where 2: "with_shdr 2 (\<lambda>sh. sh\<lparr>sh_name := of_nat off\<rparr>) f1 = Inr f2" and "elf_room cls ?n f2"
    by (rule with_shdr_returns [OF \<open>elf_room cls ?n f1\<close>])
  have known: "\<forall>(m, loc) \<in> set syms. m \<in> dom (om_find (str_namelist ss))"
    using assms(3) by force
  obtain f3 where 3: "sym_add_all cls s ss syms f2 = Inr f3" and "elf_room cls n f3"
    using sym_add_all_returns [OF \<open>elf_room cls ?n f2\<close> known, of s] by blast
  obtain f4 where "with_shdr 2 (\<lambda>sh. sh\<lparr>sh_info := of_nat (length syms + 1)\<rparr>) f3 = Inr f4" and "elf_room cls n f4"
    by (rule with_shdr_returns [OF \<open>elf_room cls n f3\<close>])
  with 1 2 3 off show thesis
    by (intro that) (auto simp: write_symbols_def bindR_Inr_iff str_lookup_def)
qed

text \<open>The segments: everything in front of the last one has to fit.\<close>

lemma add_segments_returns_iff:
  assumes "elf_room cls 0 f"
  shows "(\<exists>f'. add_segments cls i secs f = Inr f') \<longleftrightarrow>
    elf_room cls (length (concat (map sec_output (butlast secs)))) f"
  using assms
proof (induction secs arbitrary: i f)
  case (Cons sec secs)
  let ?g = "f\<lparr>elf_phdr := (elf_phdr f)[i := program_header sec (elfbin_size cls f) (elf_phdr f ! i)]\<rparr>"
  let ?h = "elfbin_insert cls (sec_output sec) ?g"
  have step: "add_segments cls i (sec # secs) f = add_segments cls (Suc i) secs ?h"
    using Cons.prems by (simp add: with_phdr_def with_header_def elf_room_def)
  have g: "elf_room cls n ?g \<longleftrightarrow> elf_room cls n f" for n
    by (simp add: elf_room_def elfbin_size_def elfbin_capacity_def elfhdr_size_def)
  show ?case
  proof (cases "secs = []")
    case True
    with step Cons.prems show ?thesis by simp
  next
    case more: False
    show ?thesis
    proof (cases "elf_room cls 0 ?h")
      case True
      then show ?thesis
        using Cons.IH [of ?h "Suc i"] more unfolding step by (simp add: elf_room_insert_iff g)
    next
      case False
      then have moved: "elf_moved ?h" and "\<not> elf_room cls (length (sec_output sec)) f"
        using Cons.prems unfolding elf_room_insert_iff g
        by (auto simp: elf_room_def elfbin_insert_def Let_def elfbin_size_def elfbin_capacity_def elfhdr_size_def)
      moreover from moved have "\<not> (\<exists>f'. add_segments cls (Suc i) secs ?h = Inr f')"
        using more by (cases secs) (auto simp: bindR_Inr_iff with_phdr_run)
      ultimately show ?thesis
        using more unfolding step by (auto dest: elf_room_mono [of _ _ _ "length (sec_output sec)"])
    qed
  qed
qed simp

section \<open>The writer\<close>

text \<open>The bytes of the headers and of the three tables.\<close>

definition elf_tables_size :: "ElfClass \<Rightarrow> Assembler \<Rightarrow> nat" where
  "elf_tables_size cls s =
     sizeof_ElfData cls + sizeof_Phdr cls * length (m_sections s) +
     length (strtab_bytes [''.shstrtab'', ''.symtab'', ''.strtab'']) +
     length (strtab_bytes (map fst (m_lookup s))) + sizeof_Sym cls * (1 + length (m_lookup s))"

lemma strtab_bytes_permuted:
  assumes "mset xs = mset (ys :: (string \<times> 'a) list)"
  shows "length (strtab_bytes (map fst xs)) = length (strtab_bytes (map fst ys))"
proof -
  have "sum_mset (image_mset (\<lambda>p. length (name_bytes (fst p))) (mset xs)) =
      sum_mset (image_mset (\<lambda>p. length (name_bytes (fst p))) (mset ys))"
    by (simp only: assms)
  then show ?thesis
    by (simp add: strtab_bytes_def length_concat comp_def flip: sum_mset_sum_list mset_map)
qed

lemma Elf_Writer_tables:
  assumes loc: "find_symbol s (opt_entry (options s)) = Some loc" and it: "mset (it (m_lookup s)) = mset (m_lookup s)"
    and fits: "elf_tables_size cls s \<le> 262144"
  obtains f where "\<And>m. elf_room cls m f \<longleftrightarrow> elf_tables_size cls s + m \<le> 262144"
    and "Elf_Writer cls it s =
      bindR (add_segments cls 0 (map snd (m_sections s)) f) (\<lambda>f'. Inr (elfbin cls f, elfbin cls f'))"
proof -
  let ?n = "length (m_sections s)" and ?syms = "it (m_lookup s)"
  let ?f = "ElfFile_new cls (location_address s loc) ?n" and ?rest = "262144 - elf_tables_size cls s"
  let ?names = "strtab_bytes [''.shstrtab'', ''.symtab'', ''.strtab'']"
  have len: "length ?syms = length (m_lookup s)" using it by (metis size_mset)
  have strs: "length (strtab_bytes (map fst ?syms)) = length (strtab_bytes (map fst (m_lookup s)))"
    by (rule strtab_bytes_permuted [OF it])
  let ?room = "length (strtab_bytes (map fst ?syms)) + (sizeof_Sym cls * (1 + length ?syms) + ?rest)"
  have new: "elf_body ?f = []" "length (elf_shdr ?f) = 4" "length (elf_phdr ?f) = ?n" "\<not> elf_moved ?f"
    by (simp_all add: ElfFile_new_def ElfData_S_def)
  have "length ?names = 27" by (simp add: strtab_bytes_def)
  then have "elf_room cls (27 + ?room) ?f"
    using new fits by (simp add: elf_room_def elfbin_size_def elfhdr_size_def elfbin_capacity_def
        elf_tables_size_def strs len)
  then obtain shn f1 where 1: "write_shnames cls ?f = Inr (shn, f1)" and r1: "elf_room cls ?room f1"
    and dom: "''.strtab'' \<in> dom (om_find (str_namelist shn))" "''.symtab'' \<in> dom (om_find (str_namelist shn))"
    by (rule write_shnames_returns)
  obtain ss f2 where 2: "write_strings cls shn (map fst ?syms) f1 = Inr (ss, f2)"
    and r2: "elf_room cls (sizeof_Sym cls * (1 + length ?syms) + ?rest) f2"
    and names: "set (map fst ?syms) \<subseteq> dom (om_find (str_namelist ss))"
    by (rule write_strings_returns [OF r1 dom(1)])
  obtain f3 where 3: "write_symbols cls s shn ss ?syms f2 = Inr f3" and r3: "elf_room cls ?rest f3"
    by (rule write_symbols_returns [OF r2 dom(2) names])
  have b1: "elf_begins cls 1 (SHT_STRTAB, 0, 1) ?names ?f f1"
    using write_shnames_begins [OF 1] new by simp
  have b2: "elf_begins cls 3 (SHT_STRTAB, 0, 1) (strtab_bytes (map fst ?syms)) f1 f2"
    using write_strings_begins(1) [OF 2] b1 new(2) unfolding elf_begins_def strtab_bytes_def by auto
  have b3: "elf_body f3 = elf_body f2 @ symtab_bytes cls (map (entry_for s ss) ?syms) \<and> elf_phdr f3 = elf_phdr f2"
    using write_symbols_begins [OF 3] b2 b1 new(2) by (simp add: elf_begins_def symtab_bytes_def comp_def)
  have "elfbin_size cls f3 = int (elf_tables_size cls s)"
    using b1 b2 b3 new strs
    by (simp add: elf_begins_def elfbin_size_def elfhdr_size_def elf_tables_size_def len length_symtab_bytes)
  moreover have "length (elf_phdr f3) = ?n" using b1 b2 b3 new(3) by (simp add: elf_begins_def)
  then have "elfhdr_size cls f3 \<le> 262144" using fits by (simp add: elfhdr_size_def elf_tables_size_def)
  then have "int (elfhdr_size cls f3) \<le> 262144" by linarith
  ultimately have "elf_room cls m f3 \<longleftrightarrow> elf_tables_size cls s + m \<le> 262144" for m
    using r3 by (auto simp: elf_room_def elfbin_capacity_def)
  moreover have "Elf_Writer cls it s =
      bindR (add_segments cls 0 (map snd (m_sections s)) f3) (\<lambda>f'. Inr (elfbin cls f3, elfbin cls f'))"
    using 1 2 3 by (simp add: Elf_Writer_def loc Let_def)
  ultimately show thesis using that by blast
qed

lemma Elf_Writer_returns_iff:
  assumes it: "mset (it (m_lookup s)) = mset (m_lookup s)"
  shows "(\<exists>before after. Elf_Writer cls it s = Inr (before, after)) \<longleftrightarrow>
    find_symbol s (opt_entry (options s)) \<noteq> None \<and>
    elf_tables_size cls s + length (concat (map (sec_output \<circ> snd) (butlast (m_sections s)))) \<le> 262144"
proof (cases "find_symbol s (opt_entry (options s)) = None \<or> \<not> elf_tables_size cls s \<le> 262144")
  case True
  then show ?thesis
  proof
    assume "find_symbol s (opt_entry (options s)) = None"
    then show ?thesis by (simp add: Elf_Writer_def)
  next
    assume large: "\<not> elf_tables_size cls s \<le> 262144"
    have False if run: "Elf_Writer cls it s = Inr (before, after)" for before after
    proof -
      obtain loc ss f where w: "elf_written cls s (it (m_lookup s)) ss (location_address s loc) f"
        and n: "length (elf_phdr f) = length (m_sections s)"
        by (rule Elf_Writer_written [OF run]) blast
      have "length (it (m_lookup s)) = length (m_lookup s)" using it by (metis size_mset)
      with w n large show False
        by (simp add: elf_written_def Let_def elf_tables_size_def elfhdr_size_def length_symtab_bytes
            strtab_bytes_permuted [OF it])
    qed
    with large show ?thesis by auto
  qed
next
  case False
  then obtain loc where loc: "find_symbol s (opt_entry (options s)) = Some loc" by auto
  obtain f where room: "\<And>m. elf_room cls m f \<longleftrightarrow> elf_tables_size cls s + m \<le> 262144"
    and run: "Elf_Writer cls it s =
      bindR (add_segments cls 0 (map snd (m_sections s)) f) (\<lambda>f'. Inr (elfbin cls f, elfbin cls f'))"
    using Elf_Writer_tables [of s loc it cls, OF loc it] False by blast
  have "(\<exists>before after. Elf_Writer cls it s = Inr (before, after)) \<longleftrightarrow>
      (\<exists>f'. add_segments cls 0 (map snd (m_sections s)) f = Inr f')"
    unfolding run bindR_Inr_iff by auto
  also have "\<dots> \<longleftrightarrow> elf_room cls (length (concat (map sec_output (butlast (map snd (m_sections s)))))) f"
    by (rule add_segments_returns_iff) (use room False in auto)
  finally show ?thesis by (simp add: room loc map_butlast comp_def)
qed

end
