(* ===== verification/ElfProgram.thy ===== *)
theory ElfProgram
  imports Program ElfReturns
begin

text \<open>
  The files of a whole run: the ELF files agree with the finished state and with the table
  of global symbols that is printed.
\<close>

definition elf_suffix :: "ElfClass \<Rightarrow> string" where
  "elf_suffix cls = (case cls of ELFCLASS64 \<Rightarrow> ''64'' | ELFCLASS128 \<Rightarrow> ''128'')"

lemma section_named_lookup:
  "section_named n s = Inr ((), s') \<Longrightarrow> m_lookup s' = m_lookup s \<and> options s' = options s"
  by (auto simp: section_named_def split: option.splits)

text \<open>Every ELF file of a run was written from the state before the last lookup of the text section.\<close>

lemma main_elf_file:
  assumes "main env depth argv = Some (Inr ((globals, files), s'))"
    and "(last argv @ elf_suffix cls, bytes) \<in> set files"
  obtains s before after where "Elf_Writer cls (env_iteration env) s = Inr (before, after)"
    and "bytes \<in> {before, after}" and "wf_assembler s" and "addresses_of (m_globals s) s = Inr (globals, s)"
    and "section_named ''.text'' s = Inr ((), s')"
proof -
  obtain s1 s2 elf64 elf64' elf128 elf128'
    where s1: "main_loop env depth argv (Assembler_new default_options) = Inr ((), s1)"
    and s2: "finish s1 = Inr ((), s2)" and g: "addresses_of (m_globals s2) s2 = Inr (globals, s2)"
    and t: "section_named ''.text'' s2 = Inr ((), s')"
    and w: "Elf_Writer ELFCLASS64 (env_iteration env) s2 = Inr (elf64, elf64')"
      "Elf_Writer ELFCLASS128 (env_iteration env) s2 = Inr (elf128, elf128')"
    and files: "files = [(last argv @ ''64'', elf64), (last argv @ ''64'', elf64'),
      (last argv @ ''128'', elf128), (last argv @ ''128'', elf128'),
      (last argv @ ''.bin'', sec_output (the_section s' ''.text''))]"
    by (rule main_run_parts [OF assms(1)])
  have "wf_assembler s1"
    using keepsD [OF main_loop_evolves s1] wf_Assembler_new by (simp add: evolves_def)
  then have wf: "wf_assembler s2" using finish_run s2 by blast
  show thesis
  proof (cases cls)
    case ELFCLASS64
    then show thesis using assms(2) files by (intro that [OF _ _ wf g t]) (auto simp: elf_suffix_def w)
  next
    case ELFCLASS128
    then show thesis using assms(2) files by (intro that [OF _ _ wf g t]) (auto simp: elf_suffix_def w)
  qed
qed

lemma globals_in_elf:
  assumes run: "main env depth argv = Some (Inr ((globals, files), s'))"
    and perm: "\<And>l. mset (env_iteration env l) = mset l"
    and nul: "\<forall>(n, loc) \<in> set (m_lookup s'). CHR 0x00 \<notin> set n"
    and bytes: "(last argv @ elf_suffix cls, bytes) \<in> set files" and g: "(n, addr) \<in> set globals"
  shows "\<exists>z. (n, addr_trunc cls addr, z) \<in> set (elf_symbols cls bytes)"
proof -
  obtain s before after where w: "Elf_Writer cls (env_iteration env) s = Inr (before, after)"
    and b: "bytes \<in> {before, after}" and wf: "wf_assembler s"
    and addrs: "addresses_of (m_globals s) s = Inr (globals, s)"
    and t: "section_named ''.text'' s = Inr ((), s')"
    by (rule main_elf_file [OF run bytes])
  let ?syms = "env_iteration env (m_lookup s)"
  have set: "set ?syms = set (m_lookup s)" using perm by (metis set_mset_mset)
  have dist: "distinct (map fst ?syms)"
    by (rule distinct_permuted_keys [of "env_iteration env", OF perm]) (use wf in \<open>simp add: wf_assembler_def\<close>)
  obtain loc where loc: "find_symbol s n = Some loc" and addr: "addr = location_address s loc"
    using addresses_of_run [OF addrs] g by fast
  have "elf_symbols cls bytes = map (symbol_of cls s) ?syms"
    by (rule Elf_Writer_symbols [OF w b dist]) (use nul section_named_lookup [OF t] set in auto)
  moreover have "(n, loc) \<in> set ?syms" using loc set by (simp add: find_symbol_def map_of_SomeD)
  ultimately have "symbol_of cls s (n, loc) \<in> set (elf_symbols cls bytes)" by simp
  then show ?thesis by (auto simp: symbol_of_def addr)
qed

end
