(* ===== verification/Spec2Isabelle.thy ===== *)
theory Spec2Isabelle
  imports SymbolAttributes Encodings CodeGen ElfProgram
begin

text \<open>
  A model of \<^verbatim>\<open>bigassm\<close>, an assembler for 128-bit RISC-V, and the theorems that make it
  correct. The program reads a source text, splits it into words and makes a token of each
  (\<^verbatim>\<open>raw_split.cpp\<close>, \<^verbatim>\<open>tokenizer.cpp\<close>), runs over the tokens with the operations of
  \<^verbatim>\<open>assemble.cpp\<close>, \<^verbatim>\<open>directive.cpp\<close>, \<^verbatim>\<open>opcodes.cpp\<close> and \<^verbatim>\<open>pseudo_ops.cpp\<close> to fill
  sections, symbols and a schedule of fixups, then gives every section an address and runs
  the fixups (\<^verbatim>\<open>Assembler::finish\<close>), and writes two ELF files (\<^verbatim>\<open>elfwriter.cpp\<close>) and the
  bytes of the text section.

  \<^bold>\<open>How the model corresponds to the code.\<close> The \<^verbatim>\<open>Assembler\<close> object is the record
  \<open>Assembler\<close>; a member function is a function \<open>Assembler \<Rightarrow> error + 'a \<times> Assembler\<close>,
  composed with \<open>bindM\<close> in the order of the calls. Every exception, assertion and undefined
  operation of the code is a value of \<open>error\<close>. \<^verbatim>\<open>std::map\<close> and \<^verbatim>\<open>std::set\<close> are association
  lists in the order of their keys; pointers to sections are their names, since sections
  are never removed; the closures of the schedule are the constructors of \<open>scheduled_op\<close>
  with the locations they capture. Integers have the width of the code; a shift or a field
  assignment is the one of the word. The files and paths of the machine are the record
  \<open>Environment\<close>, an argument of what uses them.

  \<^bold>\<open>The theories.\<close>
  \<^item> \<open>Prelude\<close>: errors, results, C strings, byte layouts, and the ordered map with its
    interface \<open>ordered_map\<close>.
  \<^item> \<open>Instruction\<close>: the bit-fields and decoders of \<^verbatim>\<open>rv32i_instr.hpp\<close>, the opcodes of
    \<^verbatim>\<open>instruction_list.hpp\<close>; the interfaces \<open>bit_field\<close> and \<open>disjoint_fields\<close>; the
    decoders read back what is written.
  \<^item> \<open>Tokens\<close>, \<open>Registers\<close>, \<open>Numbers\<close>, \<open>Tokenizer\<close>, \<open>RawSplit\<close>: \<^verbatim>\<open>types.hpp\<close>,
    \<^verbatim>\<open>token.cpp\<close>, \<^verbatim>\<open>registers.cpp\<close>, \<^verbatim>\<open>hex128.cpp\<close> with the conversions of the standard
    library, \<^verbatim>\<open>tokenizer.cpp\<close> and \<^verbatim>\<open>raw_split.cpp\<close>; well-formed tokens, the round trips of
    numbers and string literals, splitting as a map over the words.
  \<^item> \<open>Sections\<close>: \<^verbatim>\<open>section.hpp\<close> and \<^verbatim>\<open>section.cpp\<close>; alignment; the 32-bit cells of a byte
    vector with their interface \<open>cell_store\<close>.
  \<^item> \<open>AssemblerState\<close>, \<open>AssemblerInvariant\<close>: \<^verbatim>\<open>assembler.hpp\<close> and the small operations of
    \<^verbatim>\<open>assemble.cpp\<close>; the invariant \<open>wf_assembler\<close>, the growth of the tables, and the
    interface \<open>state_preorder\<close> that carries a relation from the primitive operations to
    everything composed of them.
  \<^item> \<open>Constants\<close>: \<^verbatim>\<open>resolve_constants\<close>. \<open>Opcodes\<close>, \<open>OpcodeFacts\<close>: the handlers and the
    table of \<^verbatim>\<open>opcodes.cpp\<close>; what every handler keeps, schedules and returns.
  \<^item> \<open>PseudoOps\<close>, \<open>Directives\<close>: \<^verbatim>\<open>pseudo_ops.cpp\<close>, \<^verbatim>\<open>directive.cpp\<close> and \<^verbatim>\<open>load_file\<close>.
  \<^item> \<open>Fixups\<close>, \<open>FixupFacts\<close>: the scheduled closures and \<^verbatim>\<open>finish_scheduled_work\<close>; they
    change neither an address nor a length, and the word each one writes.
  \<^item> \<open>Assemble\<close>, \<open>AssembleFacts\<close>, \<open>BaseAddresses\<close>: the token loop, included files,
    \<^verbatim>\<open>finish\<close>, one opcode step in full, and the plan that the base addresses implement.
  \<^item> \<open>Machine\<close>, \<open>CodeGen\<close>: a specification machine for the instructions that the
    pseudo-instructions are made of, and the emitted sequences executed on it.
  \<^item> \<open>ElfLayout\<close>, \<open>ElfWriter\<close>: the structures of \<^verbatim>\<open>elf128.h\<close> and their bytes, and
    \<^verbatim>\<open>elfwriter.cpp\<close> for both classes. \<open>ElfReader\<close>: a reader of the format, the specification.
    \<open>ElfFacts\<close>, \<open>ElfImage\<close>: what the writer appends, and that the reader finds the symbols and
    the sections in it. \<open>ElfReturns\<close>: when the writer returns.
  \<^item> \<open>Encodings\<close>: the R, I and S formats and the tables of the operations as the manual of
    the architecture has them; the handlers return these words.
  \<^item> \<open>WideAddresses\<close>: the words at a place, and what the fixup of \<^verbatim>\<open>laq\<close> makes of its
    fourteen. \<open>Schedules\<close>: what each handler schedules and the words it emits for it.
    \<open>Patches\<close>, \<open>Sound\<close>: every step of the assembly keeps those words in their sections and
    apart from each other (\<open>sound\<close>), up to the end of the token loop, as long as no section
    shrinks (\<open>calm\<close>). \<open>Landing\<close>: what one fixup writes and what it leaves alone.
    \<open>ScheduledWork\<close>: the fixups as a sequence of steps; all have landed at its end, and
    when it ends. \<open>SymbolAttributes\<close>: the types and sizes that it gives to the symbols.
  \<^item> \<open>Program\<close>: \<^verbatim>\<open>main\<close>. \<open>ElfProgram\<close>: the ELF files of a whole run. \<open>LabelFacts\<close>: where
    labels end up, and the data behind them.

  \<^bold>\<open>Bounds.\<close> The token loop takes as many rounds as the file has tokens; each round takes a
  token, so that this is enough (\<open>token_loop_terminates\<close>). The nesting of included files is
  bounded by the argument \<open>depth\<close>, which stands for the stack; a run that does not exhaust
  it does not depend on it (\<open>nesting_bound_is_enough\<close>). Everything else is structural.

  \<^bold>\<open>What the model takes as given.\<close> \<^verbatim>\<open>int\<close> has 32 bits, \<^verbatim>\<open>size_t\<close> and \<^verbatim>\<open>long\<close> 64, the machine
  is little-endian, \<^verbatim>\<open>char\<close> is signed, \<^verbatim>\<open>>>\<close> of a negative number is arithmetic, and signed
  overflow in the address arithmetic of \<^verbatim>\<open>build_uint32\<close> wraps (in C++ it is undefined). The
  indeterminate \<^verbatim>\<open>m_realpath\<close> of a new assembler, which is saved and restored but not used,
  is \<open>None\<close>. The order in which a hash table is iterated is a member of \<open>Environment\<close>; the
  two padding bytes that the 128-bit headers and symbols have between members are zero.
  Exceptions end the program, so that the state at a throw is not kept.

  \<^bold>\<open>Not modelled.\<close> What is printed to the terminal (\<^verbatim>\<open>print_all\<close>, the messages before an
  exception, verbose labels); the copy constructor and assignment of \<^verbatim>\<open>Token\<close>, which copy
  every member; opening and writing the output files (\<^verbatim>\<open>file_writer\<close>), whose contents are
  modelled. \<^verbatim>\<open>elf.h\<close> is the system's: its 64-bit structures have the members of \<^verbatim>\<open>elf128.h\<close>
  with 64-bit addresses, and its constants have their documented values.
\<close>

section \<open>Inputs for the witnesses\<close>

text \<open>An environment of a few files, and a state with given bytes in its text section.\<close>

definition env_of :: "(string \<times> string) list \<Rightarrow> Environment" where
  "env_of fs = \<lparr>env_open = (\<lambda>p. map_option (\<lambda>c. (length c, c)) (map_of fs p)),
     env_dirname = (\<lambda>_. ''.''), env_realpath = (\<lambda>_. None),
     env_iteration = (\<lambda>l. l)\<rparr>"

definition sample :: "u8 list \<Rightarrow> Assembler" where
  "sample bs = put_section ''.text'' ((current_section (Assembler_new default_options))
     \<lparr>sec_output := bs\<rparr>) (Assembler_new default_options)"

text \<open>A finished state with two instructions and two symbols.\<close>

definition elf_sample :: Assembler where
  "elf_sample = (put_section ''.text'' ((current_section (Assembler_new default_options))
     \<lparr>sec_output := [0x67, 0x80, 0, 0, 0x67, 0x80, 0, 0], sec_code := True\<rparr>) (Assembler_new default_options))
     \<lparr>m_lookup := [(''_start'', (SymbolLocation_new ''.text'' 0)\<lparr>loc_size := 8\<rparr>), (''x'', SymbolLocation_new ''.text'' 4)]\<rparr>"

lemma wf_elf_sample: "wf_assembler elf_sample"
  by (simp add: elf_sample_def wf_assembler_def sections_ok_def section_names_def Assembler_new_def
      Section_set_base_address_def Section_new_def section_ok_def lessThan_Suc put_section_def
      current_section_def the_section_def find_section_def SymbolLocation_new_def vector_max_size_def)

definition returns :: "unit M \<Rightarrow> Assembler \<Rightarrow> bool" where
  "returns m s = (case m s of Inr _ \<Rightarrow> True | Inl _ \<Rightarrow> False)"

lemma returns_run: "returns m s \<Longrightarrow> \<exists>s'. m s = Inr ((), s')"
  by (auto simp: returns_def split: sum.splits)



text \<open>The files of such an environment, and the state after assembling a text.\<close>

lemma calm_env_of:
  assumes "list_all (\<lambda>(n, src). case split src of Inr tks \<Rightarrow> calm tks | Inl _ \<Rightarrow> True) fs"
  shows "calm_files (env_of fs)"
  unfolding calm_files_def
proof (intro allI impI)
  fix filename rpath contents tks
  assume "load_file (env_of fs) filename rpath = Inr contents" and tks: "split contents = Inr tks"
  then have "contents \<in> snd ` set fs"
    by (force simp: load_file_def env_of_def Let_def dest!: map_of_SomeD split: option.splits if_splits)
  then show "calm tks" using assms tks by (fastforce simp: list_all_iff)
qed



section \<open>The whole program\<close>

text \<open>
  C1. A run of the program that ends normally leaves a well-formed assembler (sections
  sorted by name, numbered without gaps, no larger than a vector; every symbol and scheduled
  operation in a section that exists); the table it prints lists every global with the
  address of its symbol, and the last file it writes, the binary image, holds the bytes of
  the text section.
\<close>

theorem program_result:
  assumes "main env depth argv = Some (Inr ((globals, files), s'))"
  shows "wf_assembler s' \<and>
    last files = (last argv @ ''.bin'', sec_output (the_section s' ''.text'')) \<and>
    map fst globals = m_globals s' \<and>
    (\<forall>(n, addr) \<in> set globals. \<exists>loc. find_symbol s' n = Some loc \<and> addr = location_address s' loc)"
  using assms main_wf [OF assms] main_result [OF assms] by blast

lemma program_result_witness:
  "wf_assembler (snd (projr (the (main (env_of [(''a.asm'', ''.global _start _start: li a0, 5 jmp _start'')])
     2 [''asm'', ''a.asm'', ''out'']))))"
proof -
  have "case main (env_of [(''a.asm'', ''.global _start _start: li a0, 5 jmp _start'')]) 2
      [''asm'', ''a.asm'', ''out''] of Some (Inr _) \<Rightarrow> True | _ \<Rightarrow> False"
    by code_simp
  then obtain g b s' where run: "main (env_of [(''a.asm'', ''.global _start _start: li a0, 5 jmp _start'')]) 2
      [''asm'', ''a.asm'', ''out''] = Some (Inr ((g, b), s'))"
    by (auto split: option.splits sum.splits)
  show ?thesis using program_result [OF run] by (simp add: run)
qed





text \<open>
  C4. Assembling a calm text, with whatever calm files it includes, keeps every patch of the
  schedule intact: each scheduled operation finds the instruction words it was made for
  inside its section (the registers and opcodes it relies on), and no two operations share a
  byte.
\<close>

theorem patches_stay_intact:
  assumes "calm_files env" and "split src = Inr tks" "calm tks" and "sound s"
    and "assemble env depth tks rp s = Inr ((), s')"
  shows "wf_assembler s' \<and> (\<forall>(n, opn) \<in> set (all_ops (m_schedule s')). op_fits s' opn) \<and>
    sorted_wrt (\<lambda>p q. ops_apart (snd p) (snd q)) (all_ops (m_schedule s'))"
  using assemble_sound [OF assms(1)] split_ok [OF assms(2)] assms(3-5)
  by (auto simp: assembles_soundly_def sound_def patches_ok_def)

lemma patches_stay_intact_witness:
  "\<exists>s'. assemble (env_of []) 1 (projr (split ''x: la a0, x .align 8 farcall t0, x'')) None
      (Assembler_new default_options) = Inr ((), s') \<and>
    (\<forall>(n, opn) \<in> set (all_ops (m_schedule s')). op_fits s' opn)"
proof -
  let ?src = "''x: la a0, x .align 8 farcall t0, x''"
  have "case split ?src of Inr tks \<Rightarrow> calm tks \<and>
      returns (assemble (env_of []) 1 tks None) (Assembler_new default_options) | Inl _ \<Rightarrow> False"
    by code_simp
  then obtain tks s' where tks: "split ?src = Inr tks" "calm tks"
    and run: "assemble (env_of []) 1 tks None (Assembler_new default_options) = Inr ((), s')"
    by (auto split: sum.splits dest: returns_run)
  show ?thesis
    using patches_stay_intact [OF _ tks sound_new run] calm_env_of [of "[]"] run tks(1) by simp
qed

text \<open>
  C5. Assembling the tokens of a file, with whatever files it includes, keeps the state
  well-formed; the tables only grow (a section keeps its number, a symbol its first
  definition, scheduled operations and globals stay), and the caller gets its tokens, its
  place in them and its path back.
\<close>

theorem assembly_keeps_invariant:
  assumes "wf_assembler s" and "assemble env depth tv rpath s = Inr ((), s')"
  shows "wf_assembler s' \<and> grows s s' \<and>
    tokens s' = tokens s \<and> index s' = index s \<and> m_realpath s' = m_realpath s"
  using assms keepsD [OF assemble_evolves assms(2)] assemble_frame [OF assms(2)]
  by (simp add: evolves_def)

lemma assembly_keeps_invariant_witness:
  "\<exists>s'. assemble (env_of []) 1 (projr (split ''l: nop jmp l .section .data x: dw 7'')) None
      (Assembler_new default_options) = Inr ((), s') \<and> wf_assembler s'"
proof -
  have "returns (assemble (env_of []) 1 (projr (split ''l: nop jmp l .section .data x: dw 7'')) None)
      (Assembler_new default_options)" by code_simp
  then obtain s' where run: "assemble (env_of []) 1 (projr (split ''l: nop jmp l .section .data x: dw 7'')) None
      (Assembler_new default_options) = Inr ((), s')" by (blast dest: returns_run)
  show ?thesis using assembly_keeps_invariant [OF wf_Assembler_new run] run by blast
qed

text \<open>
  C6. In a run that ends normally, every ELF file that is written has a symbol for every
  global of the printed table, with its name and its address (the low 64 bits of it in the
  64-bit file), when symbol names hold no NUL and the hash table is iterated in some order.
\<close>

theorem elf_agrees_with_globals:
  assumes "main env depth argv = Some (Inr ((globals, files), s'))"
    and "\<And>l. mset (env_iteration env l) = mset l"
    and "\<forall>(n, loc) \<in> set (m_lookup s'). CHR 0x00 \<notin> set n"
    and "(last argv @ elf_suffix cls, bytes) \<in> set files" and "(n, addr) \<in> set globals"
  shows "\<exists>z. (n, addr_trunc cls addr, z) \<in> set (elf_symbols cls bytes)"
  using assms by (rule globals_in_elf)

lemma elf_agrees_with_globals_witness:
  "\<exists>files s'. main (env_of [(''a.asm'', ''.global _start _start: ret'')]) 2 [''asm'', ''a.asm'', ''out''] =
      Some (Inr (([(''_start'', 0x100000)], files), s')) \<and>
    (\<forall>bytes. (''out128'', bytes) \<in> set files \<longrightarrow>
      (\<exists>z. (''_start'', 0x100000, z) \<in> set (elf_symbols ELFCLASS128 bytes)))"
proof -
  let ?env = "env_of [(''a.asm'', ''.global _start _start: ret'')]"
  let ?argv = "[''asm'', ''a.asm'', ''out'']"
  have "case main ?env 2 ?argv of Some (Inr ((g, fs), s')) \<Rightarrow> g = [(''_start'', 0x100000)] \<and>
      list_all (\<lambda>p. CHR 0x00 \<notin> set (fst p)) (m_lookup s') | _ \<Rightarrow> False"
    by code_simp
  then obtain fs s' where run: "main ?env 2 ?argv = Some (Inr (([(''_start'', 0x100000)], fs), s'))"
    and nul: "\<forall>(n, loc) \<in> set (m_lookup s'). CHR 0x00 \<notin> set n"
    by (auto simp: list_all_iff case_prod_beta split: option.splits sum.splits)
  have perm: "mset (env_iteration ?env l) = mset l" for l by (simp add: env_of_def)
  have "\<exists>z. (''_start'', 0x100000, z) \<in> set (elf_symbols ELFCLASS128 bytes)"
    if "(''out128'', bytes) \<in> set fs" for bytes
    using elf_agrees_with_globals [OF run perm nul, where cls = ELFCLASS128 and bytes = bytes] that
    by (simp add: elf_suffix_def)
  then show ?thesis using run by blast
qed

section \<open>Code generation\<close>

text \<open>
  C7. An opcode token pads the current section with zeros to a multiple of four, gives the
  padded place to the labels that wait (a name keeps its first definition), appends whole
  four-byte instructions there, and schedules only operations that patch inside them; all
  other sections stay as they are.
\<close>

theorem opcode_token_emits:
  assumes "wf_assembler s" and "template_ok opc" and "assemble_opcode opc s = Inr ((), s')"
  shows "4 dvd opcode_place s \<and> opcode_place s < length (cur_bytes s) + 4 \<and>
    (\<exists>il. code_words (handler_words opc) il \<and> opcode_step opc il s s')"
  using opcode_place_aligned [of s] assemble_opcode_step [OF assms] by metis

lemma opcode_token_emits_witness:
  "\<exists>il s'. code_words 1 il \<and> opcode_step OP_RET il (Assembler_new default_options) s'"
proof -
  have "returns (assemble_opcode OP_RET) (Assembler_new default_options)" by code_simp
  then obtain s' where run: "assemble_opcode OP_RET (Assembler_new default_options) = Inr ((), s')"
    by (blast dest: returns_run)
  show ?thesis using opcode_token_emits [OF wf_Assembler_new _ run] by auto
qed

text \<open>
  C8. Every arithmetic word of the table (42 of them, with the suffixes w and d) with three
  registers, or with two of which the first is then also a source, returns the one
  instruction that the manual draws for it: opcode, funct3, funct7 and the three register
  numbers side by side; except that the d-suffixed words which have an immediate form keep
  the major opcode of that form.
\<close>

theorem register_operations_encode:
  assumes "(word, opc, f3, f7) \<in> set register_table" and "reg_at s 0 rd" "reg_at s 1 rs1"
  shows "\<exists>op. map_of opcode_list word = Some op \<and>
    (\<forall>rs2. reg_at s 2 rs2 \<longrightarrow> opcode_handler op s =
      Inr ([R_word f7 (of_nat rs2) (of_nat rs1) f3 (of_nat rd) opc], s\<lparr>index := index s + 3\<rparr>)) \<and>
    (\<not> next_is TK_REGISTER (s\<lparr>index := index s + 2\<rparr>) \<longrightarrow> opcode_handler op s =
      Inr ([R_word f7 (of_nat rs1) (of_nat rd) f3 (of_nat rd) opc], s\<lparr>index := index s + 2\<rparr>))"
proof -
  obtain op where "map_of opcode_list word = Some op" and form: "register_form op = Some (opc, f3, f7)" "below 7 opc"
    by (rule register_table_forms [OF assms(1)])
  then show ?thesis
    using register_form_three [OF form assms(2,3)] register_form_two [OF form assms(2,3)] by blast
qed

lemma register_operations_encode_witness:
  "\<exists>op s'. map_of opcode_list ''sub'' = Some op \<and>
    opcode_handler op ((Assembler_new default_options)\<lparr>tokens := projr (split ''t0, t1, t2'')\<rparr>) = Inr ([0x407302B3], s')"
proof -
  let ?s = "(Assembler_new default_options)\<lparr>tokens := projr (split ''t0, t1, t2'')\<rparr>"
  have facts: "(''sub'', 0x33, 0, 0x20) \<in> set register_table" "reg_at ?s 0 5" "reg_at ?s 1 6" "reg_at ?s 2 7"
    "R_word 0x20 7 6 0 5 0x33 = 0x407302B3"
    by code_simp+
  show ?thesis using register_operations_encode [OF facts(1-3)] facts(4,5) by (auto simp del: opcode_handler.simps)
qed



text \<open>
  C10. The eight loads (destination, optional constant, base) and the five stores (base,
  source, optional constant) return the one instruction of the I or S format with the two
  registers, the width code and the low twelve bits of the constant, whatever its size.
\<close>

theorem loads_and_stores_encode:
  shows "((word, f3) \<in> set load_table \<and> reg_at s 0 rd \<and>
      optional_constant (s\<lparr>index := index s + 1\<rparr>) = Inr (c, s1) \<and> reg_at s1 0 base \<longrightarrow>
      (\<exists>op. map_of opcode_list word = Some op \<and> opcode_handler op s =
        Inr ([I_word (offset_of c) (of_nat base) f3 (of_nat rd) 0x03], s1\<lparr>index := index s1 + 1\<rparr>))) \<and>
    ((word, f3) \<in> set store_table \<and> reg_at s 0 base \<and> reg_at s 1 src \<and>
      optional_constant (s\<lparr>index := index s + 2\<rparr>) = Inr (c, s1) \<longrightarrow>
      (\<exists>op. map_of opcode_list word = Some op \<and> opcode_handler op s =
        Inr ([S_word (offset_of c) (of_nat src) (of_nat base) f3 0x23], s1)))"
  using load_table_word [of word f3 s rd c s1 base] store_table_word [of word f3 s base src c s1] by blast

lemma loads_and_stores_encode_witness:
  "\<exists>op s'. map_of opcode_list ''sw'' = Some op \<and>
    opcode_handler op ((Assembler_new default_options)\<lparr>tokens := projr (split ''sp, t0, 16'')\<rparr>) = Inr ([0x00512823], s')"
proof -
  let ?s = "(Assembler_new default_options)\<lparr>tokens := projr (split ''sp, t0, 16'')\<rparr>"
  have facts: "(''sw'', 2) \<in> set store_table" "reg_at ?s 0 2" "reg_at ?s 1 5" by code_simp+
  have "case optional_constant (?s\<lparr>index := index ?s + 2\<rparr>) of
      Inr (c, _) \<Rightarrow> S_word (offset_of c) 5 2 2 0x23 = 0x00512823 | Inl _ \<Rightarrow> False"
    by code_simp
  then obtain c s1 where "optional_constant (?s\<lparr>index := index ?s + 2\<rparr>) = Inr (c, s1)"
    and "S_word (offset_of c) 5 2 2 0x23 = 0x00512823"
    by (auto split: sum.splits)
  then show ?thesis using loads_and_stores_encode [of "''sw''" 2 ?s 5 c s1 2 5] facts
    by (auto simp del: opcode_handler.simps)
qed

text \<open>
  C11. The instructions of build_uint32 (li, and set for small constants) leave the sign-
  extended 32-bit constant in the register, touch no other register and fall through, for
  every register but x0 and every constant below 0x7FFFF800.
\<close>

theorem li_loads_constant:
  fixes v :: u32
  assumes "0 < r" and "r < 32" and "sint v < 2 ^ 31 - 2048"
  shows "exec_all (build_uint32 r v) m =
    Some ((set_reg (nat r) (scast v) m)\<lparr>pc := pc m + 4 * of_nat (length (build_uint32 r v))\<rparr>)"
  using build_uint32_loads [OF assms] by (simp add: loads_def)

lemma li_loads_constant_witness:
  "\<forall>m. \<exists>k. exec_all (build_uint32 5 0x12345FFF) m =
     Some ((set_reg 5 (scast (0x12345FFF :: u32)) m)\<lparr>pc := pc m + 4 * of_nat k\<rparr>)"
  using li_loads_constant [of 5 "0x12345FFF"] by auto



text \<open>
  C13. After the fixup of la has run, the two instructions it left at its place put the
  address of the symbol into the register, on a machine that executes them there, when the
  symbol is within 2 GB (less the last 2 KB) of the place; the fixup cannot fail then.
\<close>

theorem la_loads_address:
  assumes "0 < r" "r < 32" and "reaches s loc 8" and "pair_at loc s = la_pair r"
    and "- (2 ^ 31) \<le> sint (distance loc tgt s)" "sint (distance loc tgt s) < 2 ^ 31 - 2048"
    and "pc m = location_address s loc"
  shows "\<exists>s'. fix_la loc tgt s = Inr ((), s') \<and> exec_all (pair_at loc s') m =
           Some ((set_reg (nat r) (location_address s tgt) m)\<lparr>pc := pc m + 8\<rparr>)"
  using la_lands [OF assms] by blast

lemma la_loads_address_witness:
  "let s = sample (concat (map instr_raw (la_pair 5))); loc = SymbolLocation_new ''.text'' 0;
       m = \<lparr>pc = 0x100000, regs = (\<lambda>_. 0)\<rparr>
   in \<exists>s'. fix_la loc (SymbolLocation_new ''.text'' 0x12FFF) s = Inr ((), s') \<and>
        exec_all (pair_at loc s') m = Some ((set_reg 5 0x112FFF m)\<lparr>pc := 0x100008\<rparr>)"
proof -
  let ?s = "sample (concat (map instr_raw (la_pair 5)))"
  let ?loc = "SymbolLocation_new ''.text'' 0" and ?tgt = "SymbolLocation_new ''.text'' 0x12FFF"
  have facts: "reaches ?s ?loc 8" "pair_at ?loc ?s = la_pair 5"
    "- (2 ^ 31) \<le> sint (distance ?loc ?tgt ?s)" "sint (distance ?loc ?tgt ?s) < 2 ^ 31 - 2048"
    "0x100000 = location_address ?s ?loc" "location_address ?s ?tgt = 0x112FFF"
    by code_simp+
  show ?thesis
    using la_loads_address [of 5 ?s ?loc ?tgt "\<lparr>pc = 0x100000, regs = (\<lambda>_. 0)\<rparr>"] facts
    by (simp add: Let_def)
qed

text \<open>
  C14. After the fixup of laq has run over the fourteen instructions the handler emits, they
  leave the 128-bit address of the symbol in the destination, change no register but the
  destination and the temporary, and fall through, when no 32-bit limb of the address has
  its top bit set or lies in the last 2 KB below it; the fixup cannot fail then.
\<close>

theorem laq_loads_address:
  assumes "0 < dst" "dst < 32" "0 < temp" "temp < 32" "dst \<noteq> temp"
    and "reaches s loc 56" and "words_at 14 loc s = laq_instrs dst temp"
    and "\<forall>i < 4. \<not> bit (limb (location_address s tgt) i) 31 \<and> tame (limb (location_address s tgt) i)"
  shows "\<exists>s'. fix_laq loc tgt s = Inr ((), s') \<and> leaves dst temp (location_address s tgt) (words_at 14 loc s')"
proof -
  have tame: "\<forall>i < 4. tame (limb (location_address s tgt) i)" using assms(8) by blast
  obtain s' where "fix_laq loc tgt s = Inr ((), s')"
    and "words_at 14 loc s' = laq_words dst temp (location_address s tgt)"
    by (rule fix_laq_words [OF assms(6,7) tame])
  then show ?thesis
    using laq_words_leave [OF assms(1-5) tame] limb_sum_id [of "location_address s tgt"] assms(8) by simp
qed

lemma laq_loads_address_witness:
  "let s = sample (concat (map instr_raw (laq_instrs 10 5))); loc = SymbolLocation_new ''.text'' 0
   in \<exists>s'. fix_laq loc (SymbolLocation_new ''.text'' 0x12FFF) s = Inr ((), s') \<and>
        leaves 10 5 0x112FFF (words_at 14 loc s')"
proof -
  let ?s = "sample (concat (map instr_raw (laq_instrs 10 5)))"
  let ?loc = "SymbolLocation_new ''.text'' 0" and ?tgt = "SymbolLocation_new ''.text'' 0x12FFF"
  have facts: "reaches ?s ?loc 56" "words_at 14 ?loc ?s = laq_instrs 10 5" "location_address ?s ?tgt = 0x112FFF"
    by code_simp+
  have "\<not> bit (limb 0x112FFF i) 31 \<and> tame (limb 0x112FFF i)" if "i \<in> {0, 1, 2, 3}" for i
    using that by (elim insertE emptyE; hypsubst) code_simp+
  then have limbs: "\<forall>i < 4. \<not> bit (limb (location_address ?s ?tgt) i) 31 \<and> tame (limb (location_address ?s ?tgt) i)"
    unfolding facts(3) by (auto simp: eval_nat_numeral less_Suc_eq)
  show ?thesis using laq_loads_address [OF _ _ _ _ _ facts(1,2) limbs] facts(3) by (simp add: Let_def)
qed

text \<open>
  C15. The fixup of a conditional branch writes an offset that the decoder reads back as the
  exact distance, so that the branch goes to the label, and it keeps the comparison and the
  two registers, when the label is an even distance of at least -4096 and below 4096 bytes
  away.
\<close>

theorem branch_reaches_label:
  assumes "reaches s loc 4" and "even (sint (distance loc tgt s))"
    and "- 4096 \<le> sint (distance loc tgt s)" and "sint (distance loc tgt s) < 4096"
  shows "\<exists>s' w w'. fix_branch loc tgt s = Inr ((), s') \<and>
    w = read32 (cell_at loc 0) (bytes_of s loc) \<and> w' = read32 (cell_at loc 0) (bytes_of s' loc) \<and>
    location_address s loc + scast (Btype_signed_imm w') = location_address s tgt \<and>
    Rtype_opcode w' = Rtype_opcode w \<and> Rtype_funct3 w' = Rtype_funct3 w \<and>
    Rtype_rs1 w' = Rtype_rs1 w \<and> Rtype_rs2 w' = Rtype_rs2 w"
proof -
  obtain s' where run: "fix_branch loc tgt s = Inr ((), s')"
    and lands: "location_address s loc + scast (Btype_signed_imm (read32 (cell_at loc 0) (bytes_of s' loc)))
      = location_address s tgt"
    using fix_branch_lands [OF assms(1,2)] assms(3,4) by auto
  show ?thesis using run lands fix_branch_word [OF assms(1) run] by simp
qed

lemma branch_reaches_label_witness:
  "let s = sample (instr_raw (set_funct3 1 RV32I_BRANCH)); loc = SymbolLocation_new ''.text'' 0
   in \<exists>s'. fix_branch loc (SymbolLocation_new ''.text'' 0xFFE) s = Inr ((), s') \<and>
        0x100000 + scast (Btype_signed_imm (read32 0 (bytes_of s' loc))) = (0x100FFE :: u128)"
proof -
  let ?s = "sample (instr_raw (set_funct3 1 RV32I_BRANCH))"
  let ?loc = "SymbolLocation_new ''.text'' 0" and ?tgt = "SymbolLocation_new ''.text'' 0xFFE"
  have facts: "reaches ?s ?loc 4" "even (sint (distance ?loc ?tgt ?s))"
    "- 4096 \<le> sint (distance ?loc ?tgt ?s)" "sint (distance ?loc ?tgt ?s) < 4096"
    "location_address ?s ?loc = 0x100000" "location_address ?s ?tgt = 0x100FFE" "cell_at ?loc 0 = 0"
    by code_simp+
  show ?thesis using branch_reaches_label [OF facts(1-4)] facts(5-7) by (auto simp: Let_def)
qed



text \<open>
  C17. A far call to an address below 2^31 with an even value returns to the instruction
  after it, but arrives 4096 bytes before the symbol whenever bit 11 of the address is set,
  because the upper part is shifted without the carry.
\<close>

theorem farcall_arrives_short:
  assumes "0 < r" "r < 32" and "reaches s loc 8" and "pair_at loc s = farcall_pair r"
    and "uint (location_address s tgt) < 2 ^ 31" "even (uint (location_address s tgt))"
  shows "\<exists>s' m'. fix_farcall loc tgt s = Inr ((), s') \<and> exec_all (pair_at loc s') m = Some m' \<and>
    get_reg 1 m' = pc m + 8 \<and>
    pc m' = (if uint (location_address s tgt) mod 4096 < 2048 then location_address s tgt
             else location_address s tgt - 4096)"
  using farcall_lands [OF assms] by (metis farcall_target_def)

lemma farcall_arrives_short_witness:
  "let s = sample (concat (map instr_raw (farcall_pair 5))); loc = SymbolLocation_new ''.text'' 0
   in \<exists>s' m'. fix_farcall loc (SymbolLocation_new ''.text'' 0x800) s = Inr ((), s') \<and>
        exec_all (pair_at loc s') \<lparr>pc = 0x100000, regs = (\<lambda>_. 0)\<rparr> = Some m' \<and> pc m' = 0xFF800"
proof -
  let ?s = "sample (concat (map instr_raw (farcall_pair 5)))"
  let ?loc = "SymbolLocation_new ''.text'' 0" and ?tgt = "SymbolLocation_new ''.text'' 0x800"
  have facts: "reaches ?s ?loc 8" "pair_at ?loc ?s = farcall_pair 5"
    "uint (location_address ?s ?tgt) < 2 ^ 31" "even (uint (location_address ?s ?tgt))"
    "location_address ?s ?tgt = 0x100800"
    by code_simp+
  show ?thesis
    using farcall_arrives_short [OF _ _ facts(1-4)] facts(5) by (fastforce simp: Let_def)
qed

text \<open>
  C18. The decoders of rv32i_instr.hpp read back what the code writes into the immediate
  fields: the I and S formats any value modulo 2^12, the branch format an even value modulo
  2^13, and the jump format, into which the code writes bit 19 for the sign, an even value
  modulo 2^20 only.
\<close>

theorem immediates_read_back:
  "sint (Itype_signed_imm (set_Itype_imm v w)) = signed_take_bit 11 v \<and>
   sint (Stype_signed_imm (set_Stype_imm v w)) = signed_take_bit 11 v \<and>
   sint (Btype_signed_imm (set_Btype_imm (2 * v) w)) = signed_take_bit 12 (2 * v) \<and>
   sint (Jtype_jump_offset (set_Jtype_imm (2 * v) w)) = signed_take_bit 19 (2 * v)"
  by (simp add: Itype_signed_imm_set Stype_signed_imm_set Btype_signed_imm_set Jtype_jump_offset_set)

section \<open>The token loop and included files\<close>

text \<open>
  C19. The loop over the tokens of a file ends: as many rounds as there are tokens suffice,
  more rounds change nothing, and a round that runs goes on with the rest, so that the loop
  is the one of the source.
\<close>

theorem token_loop_terminates:
  assumes "length (tokens s) - index s \<le> n" and "n \<le> m"
  shows "token_loop (assemble_token env (assemble env depth)) m s =
      token_loop (assemble_token env (assemble env depth)) n s \<and>
    token_loop (assemble_token env (assemble env depth)) n s =
      (if done_tokens s then Inr ((), s)
       else bindM next_token (\<lambda>tk. thenM (assemble_token env (assemble env depth) tk)
              (token_loop (assemble_token env (assemble env depth)) n)) s)"
  using token_loop_enough [of "assemble_token env (assemble env depth)" s n m]
    token_loop_unfold [of "assemble_token env (assemble env depth)" s n]
    assemble_token_advances [of "assemble env depth" env] assemble_advances assms
  by (simp add: remaining_def)

lemma token_loop_terminates_witness:
  "token_loop (assemble_token (env_of []) (assemble (env_of []) 1)) 7 (Assembler_new default_options) =
   token_loop (assemble_token (env_of []) (assemble (env_of []) 1)) 0 (Assembler_new default_options)"
  using token_loop_terminates [of "Assembler_new default_options" 0 7 "env_of []" 1]
  by (simp add: Assembler_new_def)



section \<open>Finishing\<close>

text \<open>
  C21. Resolving the base addresses, a loop over the section map by index, cannot fail on a
  well-formed state and implements the plan over the list of sections in the order of their
  creation: each section gets the address of the plan, and nothing but base addresses
  changes.
\<close>

theorem base_addresses_follow_plan:
  assumes "wf_assembler s"
  shows "\<exists>s'. resolve_base_addresses s = Inr ((), s') \<and> wf_assembler s' \<and> rebased s s' \<and>
    sections_in_order s' =
      base_places (options s) (opt_base (options s), False, False) (sections_in_order s)"
  using resolve_base_addresses_places [OF assms] by blast

lemma base_addresses_follow_plan_witness:
  "\<exists>s'. resolve_base_addresses (Assembler_new default_options) = Inr ((), s') \<and> wf_assembler s'"
  using base_addresses_follow_plan [OF wf_Assembler_new] by blast





section \<open>Words and tokens\<close>

text \<open>
  C24. Splitting a text made of words, each ended by a separator, gives exactly the tokens
  of the words, in order, each with the line it stands on, or the error of the first word
  that is no token.
\<close>

theorem words_become_tokens:
  assumes "separated ws"
  shows "split (text_of ws) = mapR parse (raw_words 1 ws)"
  using assms by (rule split_words)

lemma words_become_tokens_witness:
  "split (text_of [(''a'', CHR '' ''), (''b'', CHR 0x0A), (''c'', CHR '','')]) =
   mapR parse (raw_words 1 [(''a'', CHR '' ''), (''b'', CHR 0x0A), (''c'', CHR '','')])"
  by (rule words_become_tokens) code_simp





text \<open>
  C27. A comment from a semicolon to the end of the line leaves the splitter as it was, one
  line further: the word in front of it is neither ended nor separated from the word that
  follows on the next line.
\<close>

theorem comment_joins_words:
  assumes "plain_mode st" and "CHR 0x0A \<notin> set cs"
  shows "split_run st (CHR '';'' # cs @ CHR 0x0A # rest) = split_run (next_line st) rest"
  using assms by (rule split_run_skips_comment)

lemma comment_joins_words_witness:
  "split_run (Splitter_new\<lparr>sp_word := ''a1''\<rparr>) (CHR '';'' # ''c'' @ CHR 0x0A # ''ret'') =
   split_run (Splitter_new\<lparr>sp_word := ''a1'', sp_line := 2\<rparr>) ''ret''"
proof -
  have "split_run (Splitter_new\<lparr>sp_word := ''a1''\<rparr>) (CHR '';'' # ''c'' @ CHR 0x0A # ''ret'') =
      split_run (next_line (Splitter_new\<lparr>sp_word := ''a1''\<rparr>)) ''ret''"
    by (rule comment_joins_words) (simp_all add: plain_mode_def Splitter_new_def)
  then show ?thesis by (simp add: next_line_def Splitter_new_def)
qed

text \<open>
  C28. Every 128-bit number that to_hex_string prints, written behind 0x, is parsed to a
  constant token with that number.
\<close>

theorem printed_numbers_parse_back:
  "parse_word (''0x'' @ c_str (to_hex_string v)) =
     Inr ((set_u128 v (Token_new TK_CONSTANT))\<lparr>tk_value := ''0x'' @ c_str (to_hex_string v)\<rparr>)"
  by (rule parse_printed_hex)





section \<open>Sections and data\<close>

text \<open>
  C31. Aligning a section by a power of two appends zeros up to the next multiple and
  nothing else, as long as the result fits a vector.
\<close>

theorem align_pads_to_power_of_two:
  assumes "section_ok sec" and "k < 64"
    and "align_up (2 ^ k) (length (sec_output sec)) \<le> vector_max_size"
  shows "Section_align (2 ^ k) sec =
    Inr (sec\<lparr>sec_output := sec_output sec
            @ replicate (align_up (2 ^ k) (length (sec_output sec)) - length (sec_output sec)) 0\<rparr>)"
  using assms by (rule Section_align_power2)

lemma align_pads_to_power_of_two_witness:
  "Section_align (2 ^ 2) ((Section_new ''.t'' 0)\<lparr>sec_output := [1]\<rparr>) =
    Inr ((Section_new ''.t'' 0)\<lparr>sec_output := [1, 0, 0, 0]\<rparr>)"
proof -
  let ?sec = "(Section_new ''.t'' 0)\<lparr>sec_output := [1]\<rparr>"
  have ok: "section_ok ?sec" "align_up (2 ^ 2) (length (sec_output ?sec)) \<le> vector_max_size"
    by (simp_all add: section_ok_def vector_max_size_def align_up_def)
  have "sec_output ?sec @ replicate (align_up (2 ^ 2) (length (sec_output ?sec)) - length (sec_output ?sec)) 0
      = [1, 0, 0, 0]" by code_simp
  then show ?thesis using align_pads_to_power_of_two [OF ok(1) _ ok(2)] by simp
qed

text \<open>
  C32. An alignment of zero wraps around to the mask of all bits: the section loses
  everything it held.
\<close>

theorem align_zero_empties:
  assumes "section_ok sec"
  shows "Section_align 0 sec = Inr (sec\<lparr>sec_output := []\<rparr>)"
  using assms by (rule Section_align_0)

lemma align_zero_empties_witness:
  "Section_align 0 ((Section_new ''.t'' 0)\<lparr>sec_output := [1, 2]\<rparr>) = Inr (Section_new ''.t'' 0)"
  using align_zero_empties [of "(Section_new ''.t'' 0)\<lparr>sec_output := [1, 2]\<rparr>"]
  by (simp add: section_ok_def vector_max_size_def Section_new_def)

text \<open>
  C33. dh, dw, dd and dq take the next token, which must be a constant, pad the current
  section to the width, give that place to the waiting labels and append as many bytes as
  the width, which read back in little-endian order as the low bits of the constant (of its
  low 64 bits).
\<close>

theorem data_is_aligned_little_endian:
  assumes "wf_assembler s" and "data_log p = Some k" and "pseudo_handler env p s = Inr ((), s')"
  shows "tk_type (tokens s ! index s) = TK_CONSTANT \<and>
    (\<exists>bs. length bs = 2 ^ k \<and>
       le_value bs = take_bit (8 * 2 ^ k) (ucast (u64_of (tokens s ! index s))) \<and>
       places_data (2 ^ k) bs s s')"
  using data_handler_run [OF assms] data_bytes_value [OF assms(2)] by blast

lemma data_is_aligned_little_endian_witness:
  "\<exists>s' bs. pseudo_handler (env_of []) DATA_32
      ((Assembler_new default_options)\<lparr>tokens := [set_u128 0x1234 (Token_new TK_CONSTANT)]\<rparr>) = Inr ((), s') \<and>
    length bs = 4 \<and> le_value bs = take_bit 32 0x1234"
proof -
  let ?s = "(Assembler_new default_options)\<lparr>tokens := [set_u128 0x1234 (Token_new TK_CONSTANT)]\<rparr>"
  have "returns (pseudo_handler (env_of []) DATA_32) ?s" by code_simp
  then obtain s' where run: "pseudo_handler (env_of []) DATA_32 ?s = Inr ((), s')"
    by (blast dest: returns_run)
  have wf: "wf_assembler ?s"
    using wf_Assembler_new [of default_options] by (simp add: wf_assembler_def section_names_def)
  have val: "u64_of (tokens ?s ! index ?s) = 0x1234" by code_simp
  show ?thesis
    using data_is_aligned_little_endian [OF wf _ run, of 2] run unfolding val by auto
qed

text \<open>
  C34. A label in front of a db is not attached by it: when the labels are flushed
  afterwards, a new label gets the place behind the byte, not the place of the byte.
\<close>

theorem db_label_lands_behind:
  assumes "find_symbol s l = None"
    and "thenM (add_label_soon l) (thenM DATA_8_handler (align_with_labels 0)) s = Inr ((), s')"
  shows "find_symbol s' l = Some (here s (Suc (length (cur_bytes s)))) \<and>
    cur_bytes s' = cur_bytes s @ [ucast (u64_of (tokens s ! index s))]"
  using assms by (rule label_before_byte)

lemma db_label_lands_behind_witness:
  "\<exists>s'. find_symbol s' ''x'' = Some (SymbolLocation_new ''.text'' 1) \<and> cur_bytes s' = [7]"
proof -
  let ?s = "(Assembler_new default_options)\<lparr>tokens := [set_u128 7 (Token_new TK_CONSTANT)]\<rparr>"
  have "returns (thenM (add_label_soon ''x'') (thenM DATA_8_handler (align_with_labels 0))) ?s"
    by code_simp
  then obtain s' where run: "thenM (add_label_soon ''x'') (thenM DATA_8_handler (align_with_labels 0)) ?s = Inr ((), s')"
    by (blast dest: returns_run)
  have new: "find_symbol ?s ''x'' = None" by code_simp
  have vals: "cur_bytes ?s = []" "m_current_section ?s = ''.text''" "ucast (u64_of (tokens ?s ! index ?s)) = (7 :: u8)"
    by code_simp+
  show ?thesis
    using db_label_lands_behind [OF new run] unfolding vals here_def by auto
qed

text \<open>
  C35. A label that still waits when the assembly ends gets a place at the end of the
  section that is current then, whichever section it waits in, and not at the end of its own
  section.
\<close>

theorem labels_attach_to_current_section:
  assumes "wf_assembler s" and "finish s = Inr ((), s')"
    and "find_section s n = Some sec" and "l \<in> set (m_label_queue sec)" and "find_symbol s l = None"
  shows "map_option place (find_symbol s' l) =
    Some (m_current_section s, Section_size (current_section s))"
  using waiting_labels_attached [OF assms]
  by (simp add: place_def current_location_def SymbolLocation_new_def)

lemma labels_attach_to_current_section_witness:
  "\<exists>s'. map_option place (find_symbol s' ''x'') = Some (''.data'', 2)"
proof -
  let ?tks = "projr (split ''ret x: .section .data db 1 db 2'')"
  let ?run = "assemble (env_of []) 2 ?tks None (Assembler_new default_options)"
  define s where "s = snd (projr ?run)"
  have "returns (assemble (env_of []) 2 ?tks None) (Assembler_new default_options)" by code_simp
  then have run: "?run = Inr ((), s)" by (auto simp: s_def dest: returns_run)
  have fin: "returns finish s"
    and sec: "find_section s ''.text'' \<noteq> None" "m_label_queue (the_section s ''.text'') = [''x'']"
      "find_symbol s ''x'' = None"
    and cur: "m_current_section s = ''.data''" "Section_size (current_section s) = 2"
    unfolding s_def by code_simp+
  obtain s' where fin: "finish s = Inr ((), s')" using fin by (blast dest: returns_run)
  have wf: "wf_assembler s"
    using keepsD [OF assemble_evolves run] wf_Assembler_new by (simp add: evolves_def)
  obtain sec where "find_section s ''.text'' = Some sec" and "''x'' \<in> set (m_label_queue sec)"
    using sec(1,2) by (auto simp: the_section_def)
  then have "map_option place (find_symbol s' ''x'') = Some (m_current_section s, Section_size (current_section s))"
    by (rule labels_attach_to_current_section [OF wf fin _ _ sec(3)])
  then show ?thesis unfolding cur by blast
qed

text \<open>
  C36. When an instruction or a directive refers to a symbol that never got a place,
  finishing ends with an exception: no run ends normally with a fixup undone.
\<close>

theorem unknown_symbol_stops:
  assumes "(n, ops) \<in> set (m_schedule s)" and "find_symbol s n = None"
  shows "\<exists>e. finish_scheduled_work s = Inl e"
  using assms by (rule unresolved_symbol_stops)

lemma unknown_symbol_stops_witness:
  "\<exists>e. finish_scheduled_work ((Assembler_new default_options)\<lparr>m_schedule := [(''f'', [Op_set_type 2])]\<rparr>) = Inl e"
  by (rule unknown_symbol_stops [where n = "''f''" and ops = "[Op_set_type 2]"])
    (simp_all add: Assembler_new_def find_symbol_def)

section \<open>The ELF files\<close>

text \<open>
  C37. A reader that knows only the format finds exactly the symbols of the assembler in
  each of the two contents that are written: through the file header, the symbol table and
  the string table linked to it, in the order in which the hash table was iterated, with
  names, addresses and sizes.
\<close>

theorem elf_symbols_read_back:
  assumes "wf_assembler s" and "mset (it (m_lookup s)) = mset (m_lookup s)"
    and "\<forall>(n, loc) \<in> set (m_lookup s). CHR 0x00 \<notin> set n"
    and "Elf_Writer cls it s = Inr (first, final)" and "bytes \<in> {first, final}"
  shows "elf_symbols cls bytes =
    map (\<lambda>(n, loc). (n, addr_trunc cls (location_address s loc), ucast (loc_size loc))) (it (m_lookup s))"
proof -
  have "distinct (map fst (it (m_lookup s)))"
    by (rule distinct_permuted_keys [of it, OF assms(2)]) (use assms(1) in \<open>simp add: wf_assembler_def\<close>)
  moreover have "set (it (m_lookup s)) = set (m_lookup s)" using assms(2) by (metis set_mset_mset)
  ultimately show ?thesis
    using Elf_Writer_symbols [OF assms(4,5)] assms(3) by (simp add: symbol_of_def)
qed

lemma elf_symbols_read_back_witness:
  "elf_symbols ELFCLASS64 (fst (projr (Elf_Writer ELFCLASS64 rev elf_sample))) =
     [(''x'', 0x100004, 0), (''_start'', 0x100000, 8)]"
proof -
  have ok: "wf_assembler elf_sample" by (rule wf_elf_sample)
  have "case Elf_Writer ELFCLASS64 rev elf_sample of Inr p \<Rightarrow> True | Inl _ \<Rightarrow> False" by code_simp
  then obtain b a where run: "Elf_Writer ELFCLASS64 rev elf_sample = Inr (b, a)"
    by (auto split: sum.splits)
  have "map (\<lambda>(n, loc). (n, addr_trunc ELFCLASS64 (location_address elf_sample loc), ucast (loc_size loc) :: u128))
      (rev (m_lookup elf_sample)) = [(''x'', 0x100004, 0), (''_start'', 0x100000, 8)]" by code_simp
  moreover have "\<forall>(n, loc) \<in> set (m_lookup elf_sample). CHR 0x00 \<notin> set n" by code_simp
  ultimately show ?thesis
    using elf_symbols_read_back [OF ok _ _ run, of b] run by simp
qed

text \<open>
  C38. A loader that follows the program headers of the file that remains gets every section
  with code or data at its base address, with its bytes and the flags of its contents, and
  nothing else; the contents written first hold no segments yet.
\<close>

theorem elf_segments_read_back:
  assumes "Elf_Writer cls it s = Inr (first, final)"
    and "length (concat (map (sec_output \<circ> snd) (m_sections s))) < 2 ^ 63"
  shows "elf_segments cls first = [] \<and> elf_segments cls final =
    map (\<lambda>sec. (addr_trunc cls (m_base_address sec), program_flags sec, sec_output sec))
      (filter loadable (map snd (m_sections s)))"
  using Elf_Writer_before [OF assms(1)] Elf_Writer_segments [OF assms] by (simp add: segment_of_def cong: map_cong)

lemma elf_segments_read_back_witness:
  "elf_segments ELFCLASS128 (snd (projr (Elf_Writer ELFCLASS128 id elf_sample))) =
     [(0x100000, 1, [0x67, 0x80, 0, 0, 0x67, 0x80, 0, 0])]"
proof -
  have "case Elf_Writer ELFCLASS128 id elf_sample of Inr p \<Rightarrow> True | Inl _ \<Rightarrow> False" by code_simp
  then obtain b a where run: "Elf_Writer ELFCLASS128 id elf_sample = Inr (b, a)"
    by (auto split: sum.splits)
  have "map (\<lambda>sec. (addr_trunc ELFCLASS128 (m_base_address sec), program_flags sec, sec_output sec))
      (filter loadable (map snd (m_sections elf_sample))) = [(0x100000, 1, [0x67, 0x80, 0, 0, 0x67, 0x80, 0, 0])]"
    and "length (concat (map (sec_output \<circ> snd) (m_sections elf_sample))) = 8" by code_simp+
  then show ?thesis
    using elf_segments_read_back [OF run] by (simp add: run)
qed

text \<open>
  C39. Each content that is written begins with the magic number and the class, says that it
  is an executable for RISC-V, and its entry point is the address of the entry symbol (its
  low 64 bits in the 64-bit file).
\<close>

theorem elf_header_names_entry:
  assumes "Elf_Writer cls it s = Inr (first, final)" and "bytes \<in> {first, final}"
  shows "\<exists>loc. find_symbol s (opt_entry (options s)) = Some loc \<and>
    e_entry (read_ehdr cls bytes) = addr_trunc cls (location_address s loc) \<and>
    take 5 (e_ident (read_ehdr cls bytes)) = [0x7F, 0x45, 0x4C, 0x46, class_byte cls] \<and>
    e_type (read_ehdr cls bytes) = 2 \<and> e_machine (read_ehdr cls bytes) = 243"
proof -
  obtain loc where "find_symbol s (opt_entry (options s)) = Some loc"
    and "read_ehdr cls bytes = elf_header cls (addr_trunc cls (location_address s loc)) (length (m_sections s))"
    by (rule Elf_Writer_header [OF assms])
  then show ?thesis by (simp add: elf_header_def ET_EXEC_def EM_RISCV_def)
qed

lemma elf_header_names_entry_witness:
  "e_entry (read_ehdr ELFCLASS64 (snd (projr (Elf_Writer ELFCLASS64 id elf_sample)))) = 0x100000"
proof -
  have "case Elf_Writer ELFCLASS64 id elf_sample of Inr p \<Rightarrow> True | Inl _ \<Rightarrow> False" by code_simp
  then obtain b a where run: "Elf_Writer ELFCLASS64 id elf_sample = Inr (b, a)"
    by (auto split: sum.splits)
  have entry: "find_symbol elf_sample (opt_entry (options elf_sample)) = Some ((SymbolLocation_new ''.text'' 0)\<lparr>loc_size := 8\<rparr>)"
    and "addr_trunc ELFCLASS64 (location_address elf_sample ((SymbolLocation_new ''.text'' 0)\<lparr>loc_size := 8\<rparr>)) = 0x100000"
    by code_simp+
  then show ?thesis using elf_header_names_entry [OF run, of a] by (simp add: run)
qed

text \<open>
  C40. The writer returns exactly when the entry symbol exists and the headers, the three
  tables and the contents of every section but the last fit into the 262144 bytes reserved
  for the buffer; beyond that it uses pointers into a buffer that was reallocated.
\<close>

theorem elf_writer_returns_iff:
  assumes "mset (it (m_lookup s)) = mset (m_lookup s)"
  shows "(\<exists>first final. Elf_Writer cls it s = Inr (first, final)) \<longleftrightarrow>
    find_symbol s (opt_entry (options s)) \<noteq> None \<and>
    elf_tables_size cls s + length (concat (map (sec_output \<circ> snd) (butlast (m_sections s)))) \<le> 262144"
  using assms by (rule Elf_Writer_returns_iff)

lemma elf_writer_returns_iff_witness:
  "\<not> (\<exists>first final. Elf_Writer ELFCLASS64 id (elf_sample\<lparr>m_lookup := []\<rparr>) = Inr (first, final)) \<and>
   (\<exists>first final. Elf_Writer ELFCLASS64 rev elf_sample = Inr (first, final))"
proof -
  have "find_symbol (elf_sample\<lparr>m_lookup := []\<rparr>) (opt_entry (options (elf_sample\<lparr>m_lookup := []\<rparr>))) = None"
    by code_simp
  then have "\<not> (\<exists>first final. Elf_Writer ELFCLASS64 id (elf_sample\<lparr>m_lookup := []\<rparr>) = Inr (first, final))"
    by (subst elf_writer_returns_iff) auto
  moreover have "find_symbol elf_sample (opt_entry (options elf_sample)) \<noteq> None"
    and "elf_tables_size ELFCLASS64 elf_sample = 485"
    and "butlast (m_sections elf_sample) = []" by code_simp+
  then have "\<exists>first final. Elf_Writer ELFCLASS64 rev elf_sample = Inr (first, final)"
    by (subst elf_writer_returns_iff) auto
  ultimately show ?thesis by blast
qed

end
